theory Spec2Isabelle
  imports Main
begin

section \<open>Values shared by the models and the controllers\<close>

text \<open>
  An ObjectId is represented by its canonical rendering, the 24 lower-case hexadecimal
  characters that \<^verbatim>\<open>toString()\<close> returns, so that the controllers'
  \<^verbatim>\<open>a.toString() === b.toString()\<close> is equality. A date is the number of
  milliseconds since the epoch, as \<^verbatim>\<open>Date.now()\<close> returns it.
\<close>

type_synonym objectId = string
type_synonym date = nat

text \<open>The JSON values of a request body. A date sent as text stands here as its epoch milliseconds.\<close>

datatype jvalue = JNull | JBool bool | JNum int | JStr string | JArr "jvalue list"

type_synonym body = "(string \<times> jvalue) list"

text \<open>
  Errors that leave a handler. \<open>ApiError\<close> is the controllers' own
  \<^verbatim>\<open>new ApiError(status, message)\<close>; \<open>ValidationError\<close> is what Mongoose raises
  from \<^verbatim>\<open>save()\<close> when a path fails its validator or its cast; \<open>DuplicateKey\<close> is
  MongoDB's E11000 for a unique index, carrying the indexed path; \<open>ValidationFailed\<close>
  is the 400 response \<^verbatim>\<open>Validation failed\<close> of the validation middleware, with the
  fields it lists.
\<close>

datatype error = ApiError nat string | ValidationError string | DuplicateKey string
  | ValidationFailed "string list"

text \<open>A collection is the list of its documents, each with its \<^verbatim>\<open>_id\<close>.\<close>

type_synonym 'd collection = "(objectId \<times> 'd) list"

definition updateWhere :: "(objectId \<Rightarrow> 'd \<Rightarrow> bool) \<Rightarrow> ('d \<Rightarrow> 'd) \<Rightarrow> 'd collection \<Rightarrow> 'd collection" where
  "updateWhere P f c = map (\<lambda>(k, d). if P k d then (k, f d) else (k, d)) c"

definition deleteWhere :: "(objectId \<Rightarrow> bool) \<Rightarrow> 'd collection \<Rightarrow> 'd collection" where
  "deleteWhere P c = filter (\<lambda>(k, d). \<not> P k) c"

subsection \<open>Characters and strings\<close>

definition toLowerCase_char :: "char \<Rightarrow> char" where
  "toLowerCase_char c =
     (case map_of (zip ''ABCDEFGHIJKLMNOPQRSTUVWXYZ'' ''abcdefghijklmnopqrstuvwxyz'') c of
        Some l \<Rightarrow> l | None \<Rightarrow> c)"

definition toLowerCase :: "string \<Rightarrow> string" where
  "toLowerCase s = map toLowerCase_char s"

definition isSpace :: "char \<Rightarrow> bool" where
  "isSpace c = (c \<in> set [CHR '' '', CHR 0x09, CHR 0x0A, CHR 0x0B, CHR 0x0C, CHR 0x0D])"

definition trim :: "string \<Rightarrow> string" where
  "trim s = rev (dropWhile isSpace (rev (dropWhile isSpace s)))"

definition isHex :: "string \<Rightarrow> bool" where
  "isHex s = list_all (\<lambda>c. c \<in> set ''0123456789abcdefABCDEF'') s"

definition digit_char :: "nat \<Rightarrow> char" where
  "digit_char n = ''0123456789'' ! n"

function digits :: "nat \<Rightarrow> string" where
  "digits n = (if n < 10 then [digit_char n] else digits (n div 10) @ [digit_char (n mod 10)])"
  by pat_completeness auto
termination
  by (relation "measure id") auto

declare digits.simps [simp del]

section \<open>The Media model (models/Media.js)\<close>

text \<open>One entry of \<^verbatim>\<open>usedIn\<close>: which document uses the file, and in which field.\<close>

record usage =
  model :: string
  modelId :: objectId
  field :: string

text \<open>
  Of the schema's paths the record keeps those the controllers read when they track
  usage and delete files; names, sizes and captions play no part there.
\<close>

record media =
  path :: string
  thumbnail :: "string option"
  usedIn :: "usage list"
  isDeleted :: bool
  deletedAt :: "date option"

text \<open>The virtual \<^verbatim>\<open>isInUse\<close>: \<^verbatim>\<open>this.usedIn && this.usedIn.length > 0\<close>.\<close>

definition isInUse :: "media \<Rightarrow> bool" where
  "isInUse this = (length (usedIn this) > 0)"

text \<open>The methods return the document that their final \<^verbatim>\<open>this.save()\<close> stores.\<close>

definition addUsage :: "media \<Rightarrow> string \<Rightarrow> objectId \<Rightarrow> string \<Rightarrow> media" where
  "addUsage this mdl mid fld =
     (let usage = \<lparr>model = mdl, modelId = mid, field = fld\<rparr>;
          exists = list_ex (\<lambda>u. model u = mdl \<and> modelId u = mid \<and> field u = fld) (usedIn this)
      in if \<not> exists then this\<lparr>usedIn := usedIn this @ [usage]\<rparr> else this)"

definition removeUsage :: "media \<Rightarrow> string \<Rightarrow> objectId \<Rightarrow> string \<Rightarrow> media" where
  "removeUsage this mdl mid fld =
     this\<lparr>usedIn := filter (\<lambda>u. \<not> (model u = mdl \<and> modelId u = mid \<and> field u = fld)) (usedIn this)\<rparr>"

definition media_softDelete :: "date \<Rightarrow> media \<Rightarrow> media" where
  "media_softDelete now this = this\<lparr>media.isDeleted := True, media.deletedAt := Some now\<rparr>"

definition media_restore :: "media \<Rightarrow> media" where
  "media_restore this = this\<lparr>media.isDeleted := False, media.deletedAt := None\<rparr>"

text \<open>
  \<^verbatim>\<open>mediaSchema.pre(/^find/, ...)\<close> adds \<^verbatim>\<open>{ isDeleted: { $ne: true } }\<close> to every
  query whose name starts with \<^verbatim>\<open>find\<close>: \<^verbatim>\<open>find\<close>, \<^verbatim>\<open>findOne\<close> (so
  \<^verbatim>\<open>findById\<close>) and \<^verbatim>\<open>findOneAndUpdate\<close> (so \<^verbatim>\<open>findByIdAndUpdate\<close>).
  \<^verbatim>\<open>updateMany\<close> is not such a query and sees soft-deleted documents too.
\<close>

definition Media_findById :: "media collection \<Rightarrow> objectId \<Rightarrow> media option" where
  "Media_findById c i =
     (case map_of c i of
        None \<Rightarrow> None
      | Some m \<Rightarrow> if media.isDeleted m then None else Some m)"

definition Media_findByIdAndUpdate :: "objectId \<Rightarrow> (media \<Rightarrow> media) \<Rightarrow> media collection \<Rightarrow> media collection" where
  "Media_findByIdAndUpdate i upd c = updateWhere (\<lambda>k m. k = i \<and> \<not> media.isDeleted m) upd c"

definition Media_updateMany_in :: "objectId list \<Rightarrow> (media \<Rightarrow> media) \<Rightarrow> media collection \<Rightarrow> media collection" where
  "Media_updateMany_in ids upd c = updateWhere (\<lambda>k m. k \<in> set ids) upd c"

text \<open>
  The update operators on \<^verbatim>\<open>usedIn\<close>. \<^verbatim>\<open>$push\<close> appends the element;
  \<^verbatim>\<open>$pull\<close> removes every element that agrees with the condition on the fields the
  condition names (the delete handlers name no field).
\<close>

definition push_usedIn :: "usage \<Rightarrow> media \<Rightarrow> media" where
  "push_usedIn u m = m\<lparr>usedIn := usedIn m @ [u]\<rparr>"

definition pull_matches :: "string \<Rightarrow> objectId \<Rightarrow> string option \<Rightarrow> usage \<Rightarrow> bool" where
  "pull_matches mdl mid fld u =
     (model u = mdl \<and> modelId u = mid \<and> (case fld of None \<Rightarrow> True | Some f \<Rightarrow> field u = f))"

definition pull_usedIn :: "string \<Rightarrow> objectId \<Rightarrow> string option \<Rightarrow> media \<Rightarrow> media" where
  "pull_usedIn mdl mid fld m = m\<lparr>usedIn := filter (\<lambda>u. \<not> pull_matches mdl mid fld u) (usedIn m)\<rparr>"

section \<open>Requests, responses and the state of the service\<close>

text \<open>
  What a handler reads besides the request and the database: the clock (one reading for
  the request), the \<^verbatim>\<open>_id\<close> MongoDB gives the next inserted document, and two
  library functions whose code is not part of the repository and which are parameters:
  the \<^verbatim>\<open>slugify\<close> package and the URI syntax check of \<^verbatim>\<open>Joi.string().uri()\<close>.
\<close>

record env =
  slugify :: "string \<Rightarrow> string"
  uri :: "string \<Rightarrow> bool"
  now :: date
  newId :: objectId

text \<open>\<^verbatim>\<open>req.params\<close>, \<^verbatim>\<open>req.body\<close> and \<^verbatim>\<open>req.user._id\<close> (the admin routes run behind \<^verbatim>\<open>authenticate\<close>).\<close>

record request =
  params_id :: objectId
  body :: body
  user_id :: objectId

section \<open>The Event model (models/Event.js)\<close>

text \<open>
  The paths the controllers and the hooks act on are fields of the record. The remaining
  schema paths (description, time, location, datetime, dateDay, dateMonth, type, seoTitle,
  seoDescription, tags) are kept by name in \<open>other\<close>.
\<close>

record event =
  title :: string
  slug :: "string option"
  status :: string
  heroImage :: "objectId option"
  gallery :: "objectId list"
  publishedAt :: "date option"
  views :: int
  createdBy :: "objectId option"
  updatedBy :: "objectId option"
  isDeleted :: bool
  deletedAt :: "date option"
  other :: body

definition event_other_paths :: "string list" where
  "event_other_paths = [''description'', ''time'', ''location'', ''datetime'', ''dateDay'',
     ''dateMonth'', ''type'', ''seoTitle'', ''seoDescription'', ''tags'']"

text \<open>A new document before any path is set: the schema's defaults.\<close>

definition event_new :: event where
  "event_new = \<lparr>title = [], slug = None, status = ''draft'', heroImage = None, gallery = [],
     publishedAt = None, views = 0, createdBy = None, updatedBy = None,
     isDeleted = False, deletedAt = None,
     other = [(''type'', JStr ''normal''), (''tags'', JArr [])]\<rparr>"

subsection \<open>Setting paths\<close>

definition castObjectId :: "jvalue \<Rightarrow> objectId option" where
  "castObjectId v =
     (case v of
        JStr s \<Rightarrow> if length s = 24 \<and> isHex s then Some (toLowerCase s) else None
      | _ \<Rightarrow> None)"

fun castObjectIds :: "jvalue list \<Rightarrow> objectId list option" where
  "castObjectIds [] = Some []"
| "castObjectIds (v # vs) =
     (case castObjectId v of
        None \<Rightarrow> None
      | Some i \<Rightarrow> (case castObjectIds vs of None \<Rightarrow> None | Some js \<Rightarrow> Some (i # js)))"

definition castRef :: "jvalue \<Rightarrow> objectId option option" where
  "castRef v = (case v of JNull \<Rightarrow> Some None | _ \<Rightarrow> map_option Some (castObjectId v))"

definition castDate :: "jvalue \<Rightarrow> date option option" where
  "castDate v =
     (case v of JNull \<Rightarrow> Some None | JNum n \<Rightarrow> (if 0 \<le> n then Some (Some (nat n)) else None) | _ \<Rightarrow> None)"

definition set_other :: "string \<Rightarrow> jvalue \<Rightarrow> body \<Rightarrow> body" where
  "set_other k v kvs = (k, v) # filter (\<lambda>(k', v'). k' \<noteq> k) kvs"

text \<open>
  Assigning \<open>v\<close> to the property \<open>k\<close> of a document, as \<^verbatim>\<open>Object.assign\<close> does key
  by key. A schema path takes the value through its cast (and \<^verbatim>\<open>trim\<close> for the
  title); \<open>None\<close> is a value the path cannot cast, which makes the following
  \<^verbatim>\<open>save()\<close> fail. A key that is no schema path does not reach the stored document.
\<close>

definition event_set :: "event \<Rightarrow> string \<Rightarrow> jvalue \<Rightarrow> event option" where
  "event_set e k v =
     (if k = ''title'' then (case v of JStr s \<Rightarrow> Some (e\<lparr>title := trim s\<rparr>) | _ \<Rightarrow> None)
      else if k = ''slug'' then (case v of JStr s \<Rightarrow> Some (e\<lparr>slug := Some s\<rparr>) | _ \<Rightarrow> None)
      else if k = ''status'' then (case v of JStr s \<Rightarrow> Some (e\<lparr>status := s\<rparr>) | _ \<Rightarrow> None)
      else if k = ''heroImage'' then map_option (\<lambda>r. e\<lparr>heroImage := r\<rparr>) (castRef v)
      else if k = ''gallery'' then
        (case v of JArr vs \<Rightarrow> map_option (\<lambda>js. e\<lparr>gallery := js\<rparr>) (castObjectIds vs) | _ \<Rightarrow> None)
      else if k = ''publishedAt'' then map_option (\<lambda>d. e\<lparr>publishedAt := d\<rparr>) (castDate v)
      else if k = ''views'' then (case v of JNum n \<Rightarrow> Some (e\<lparr>views := n\<rparr>) | _ \<Rightarrow> None)
      else if k = ''createdBy'' then map_option (\<lambda>r. e\<lparr>createdBy := r\<rparr>) (castRef v)
      else if k = ''updatedBy'' then map_option (\<lambda>r. e\<lparr>updatedBy := r\<rparr>) (castRef v)
      else if k = ''isDeleted'' then (case v of JBool b \<Rightarrow> Some (e\<lparr>isDeleted := b\<rparr>) | _ \<Rightarrow> None)
      else if k = ''deletedAt'' then map_option (\<lambda>d. e\<lparr>deletedAt := d\<rparr>) (castDate v)
      else if k \<in> set event_other_paths then Some (e\<lparr>other := set_other k v (other e)\<rparr>)
      else Some e)"

fun event_assign :: "event \<Rightarrow> body \<Rightarrow> event option" where
  "event_assign e [] = Some e"
| "event_assign e ((k, v) # kvs) =
     (case event_set e k v of None \<Rightarrow> None | Some e' \<Rightarrow> event_assign e' kvs)"

text \<open>
  \<^verbatim>\<open>isModified(path)\<close> on a document loaded from the database: the path now holds a
  value different from the loaded one.
\<close>

definition event_isModified :: "event \<Rightarrow> event \<Rightarrow> string \<Rightarrow> bool" where
  "event_isModified loaded this p =
     (if p = ''title'' then title this \<noteq> title loaded
      else if p = ''slug'' then slug this \<noteq> slug loaded
      else if p = ''status'' then status this \<noteq> status loaded
      else if p = ''heroImage'' then heroImage this \<noteq> heroImage loaded
      else if p = ''gallery'' then gallery this \<noteq> gallery loaded
      else if p = ''publishedAt'' then publishedAt this \<noteq> publishedAt loaded
      else if p = ''views'' then views this \<noteq> views loaded
      else if p = ''createdBy'' then createdBy this \<noteq> createdBy loaded
      else if p = ''updatedBy'' then updatedBy this \<noteq> updatedBy loaded
      else if p = ''isDeleted'' then isDeleted this \<noteq> isDeleted loaded
      else if p = ''deletedAt'' then deletedAt this \<noteq> deletedAt loaded
      else map_of (other this) p \<noteq> map_of (other loaded) p)"

subsection \<open>Validators of the schema\<close>

definition string_path_ok :: "body \<Rightarrow> string \<Rightarrow> bool \<Rightarrow> nat option \<Rightarrow> bool" where
  "string_path_ok kvs p req maxlen =
     (case map_of kvs p of
        None \<Rightarrow> \<not> req
      | Some (JStr s) \<Rightarrow>
          (if req then s \<noteq> [] else True) \<and> (case maxlen of None \<Rightarrow> True | Some n \<Rightarrow> length s \<le> n)
      | Some _ \<Rightarrow> False)"

definition event_validate :: "event \<Rightarrow> string option" where
  "event_validate e =
     (if title e = [] then Some ''Event title is required''
      else if length (title e) > 200 then Some ''Title cannot exceed 200 characters''
      else if \<not> string_path_ok (other e) ''description'' True (Some 5000) then Some ''description''
      else if \<not> string_path_ok (other e) ''time'' True None then Some ''Event time is required''
      else if \<not> string_path_ok (other e) ''location'' True (Some 200) then Some ''location''
      else if (case map_of (other e) ''datetime'' of Some (JNum n) \<Rightarrow> False | _ \<Rightarrow> True)
        then Some ''Event date is required''
      else if (case map_of (other e) ''type'' of
                 None \<Rightarrow> False | Some (JStr s) \<Rightarrow> s \<notin> set [''featured'', ''normal''] | Some _ \<Rightarrow> True)
        then Some ''type''
      else if status e \<notin> set [''draft'', ''published'', ''archived''] then Some ''status''
      else if \<not> string_path_ok (other e) ''seoTitle'' False (Some 70) then Some ''seoTitle''
      else if \<not> string_path_ok (other e) ''seoDescription'' False (Some 160) then Some ''seoDescription''
      else None)"

subsection \<open>The hooks and the methods\<close>

text \<open>
  \<^verbatim>\<open>eventSchema.pre('save', ...)\<close>: the slug is the slugified title, a hyphen and
  \<^verbatim>\<open>Date.now()\<close>, written when the title is modified; \<^verbatim>\<open>publishedAt\<close> is stamped
  when the status is modified, is \<^verbatim>\<open>published\<close> and no stamp is there yet. The
  hook's middle part, which renders dateDay and dateMonth from datetime, writes only
  those two display paths and is left out.
\<close>

definition eventSchema_pre_save :: "env \<Rightarrow> (string \<Rightarrow> bool) \<Rightarrow> event \<Rightarrow> event" where
  "eventSchema_pre_save env isModified this =
     (let this1 = (if isModified ''title''
                   then this\<lparr>slug := Some (slugify env (title this) @ ''-'' @ digits (now env))\<rparr>
                   else this);
          this2 = (if isModified ''status'' \<and> status this1 = ''published'' \<and> publishedAt this1 = None
                   then this1\<lparr>publishedAt := Some (now env)\<rparr>
                   else this1)
      in this2)"

text \<open>
  \<^verbatim>\<open>eventSchema.pre(/^find/, ...)\<close> hides soft-deleted events from
  \<^verbatim>\<open>findById\<close> unless the query carries the option \<^verbatim>\<open>includeDeleted\<close>.
\<close>

definition Event_findById :: "bool \<Rightarrow> event collection \<Rightarrow> objectId \<Rightarrow> event option" where
  "Event_findById includeDeleted c i =
     (case map_of c i of
        None \<Rightarrow> None
      | Some e \<Rightarrow> if \<not> includeDeleted \<and> isDeleted e then None else Some e)"

text \<open>
  \<^verbatim>\<open>save()\<close> of a loaded document: the validators, then the hook, then the write, which
  the unique index on \<^verbatim>\<open>slug\<close> rejects when the slug changes to one another document
  holds.
\<close>

definition Event_save :: "env \<Rightarrow> event collection \<Rightarrow> objectId \<Rightarrow> event \<Rightarrow> event
    \<Rightarrow> error + (event \<times> event collection)" where
  "Event_save env c i loaded this =
     (case event_validate this of
        Some msg \<Rightarrow> Inl (ValidationError msg)
      | None \<Rightarrow>
          let this' = eventSchema_pre_save env (event_isModified loaded this) this
          in if slug this' \<noteq> slug loaded \<and> list_ex (\<lambda>(k, e). k \<noteq> i \<and> slug e = slug this') c
             then Inl (DuplicateKey ''slug'')
             else Inr (this', updateWhere (\<lambda>k e. k = i) (\<lambda>e. this') c))"

text \<open>
  \<^verbatim>\<open>Event.create(data)\<close>: a new document takes the data, every path set on it counts
  as modified, and the insert is rejected by the unique indexes on \<^verbatim>\<open>_id\<close> and
  \<^verbatim>\<open>slug\<close>.
\<close>

definition Event_create :: "env \<Rightarrow> event collection \<Rightarrow> body
    \<Rightarrow> error + (objectId \<times> event \<times> event collection)" where
  "Event_create env c data =
     (case event_assign event_new data of
        None \<Rightarrow> Inl (ValidationError ''cast'')
      | Some this \<Rightarrow>
          (case event_validate this of
             Some msg \<Rightarrow> Inl (ValidationError msg)
           | None \<Rightarrow>
               let this' = eventSchema_pre_save env (\<lambda>p. p \<in> set (map fst data)) this
               in if newId env \<in> set (map fst c) then Inl (DuplicateKey ''_id'')
                  else if list_ex (\<lambda>(k, e). slug e = slug this') c then Inl (DuplicateKey ''slug'')
                  else Inr (newId env, this', c @ [(newId env, this')])))"

definition event_softDelete :: "env \<Rightarrow> event collection \<Rightarrow> objectId \<Rightarrow> event
    \<Rightarrow> error + (event \<times> event collection)" where
  "event_softDelete env c i this =
     Event_save env c i this (this\<lparr>isDeleted := True, deletedAt := Some (now env)\<rparr>)"

definition event_restore :: "env \<Rightarrow> event collection \<Rightarrow> objectId \<Rightarrow> event
    \<Rightarrow> error + (event \<times> event collection)" where
  "event_restore env c i this =
     Event_save env c i this (this\<lparr>isDeleted := False, deletedAt := None\<rparr>)"

section \<open>The Blog model (models/Blog.js)\<close>

text \<open>
  The Blog schema has the paths of the event record under the same names, and in addition
  \<^verbatim>\<open>video\<close> and \<^verbatim>\<open>author\<close>. Its remaining paths (excerpt, content, category,
  isFeatured, videoUrl, seoTitle, seoDescription, tags, readTime) are kept in \<open>other\<close>.
\<close>

record blog = event +
  video :: "objectId option"
  author :: "objectId option"

definition blog_other_paths :: "string list" where
  "blog_other_paths = [''excerpt'', ''content'', ''isFeatured'', ''videoUrl'', ''seoTitle'',
     ''seoDescription'', ''tags'', ''readTime'']"

definition blog_new :: blog where
  "blog_new = \<lparr>title = [], slug = None, status = ''draft'', heroImage = None, gallery = [],
     publishedAt = None, views = 0, createdBy = None, updatedBy = None,
     isDeleted = False, deletedAt = None,
     other = [(''isFeatured'', JBool False), (''tags'', JArr [])],
     video = None, author = None\<rparr>"

definition blog_set :: "blog \<Rightarrow> string \<Rightarrow> jvalue \<Rightarrow> blog option" where
  "blog_set e k v =
     (if k = ''title'' then (case v of JStr s \<Rightarrow> Some (e\<lparr>title := trim s\<rparr>) | _ \<Rightarrow> None)
      else if k = ''slug'' then (case v of JStr s \<Rightarrow> Some (e\<lparr>slug := Some s\<rparr>) | _ \<Rightarrow> None)
      else if k = ''status'' then (case v of JStr s \<Rightarrow> Some (e\<lparr>status := s\<rparr>) | _ \<Rightarrow> None)
      else if k = ''heroImage'' then map_option (\<lambda>r. e\<lparr>heroImage := r\<rparr>) (castRef v)
      else if k = ''gallery'' then
        (case v of JArr vs \<Rightarrow> map_option (\<lambda>js. e\<lparr>gallery := js\<rparr>) (castObjectIds vs) | _ \<Rightarrow> None)
      else if k = ''video'' then map_option (\<lambda>r. e\<lparr>video := r\<rparr>) (castRef v)
      else if k = ''author'' then map_option (\<lambda>r. e\<lparr>author := r\<rparr>) (castRef v)
      else if k = ''publishedAt'' then map_option (\<lambda>d. e\<lparr>publishedAt := d\<rparr>) (castDate v)
      else if k = ''views'' then (case v of JNum n \<Rightarrow> Some (e\<lparr>views := n\<rparr>) | _ \<Rightarrow> None)
      else if k = ''createdBy'' then map_option (\<lambda>r. e\<lparr>createdBy := r\<rparr>) (castRef v)
      else if k = ''updatedBy'' then map_option (\<lambda>r. e\<lparr>updatedBy := r\<rparr>) (castRef v)
      else if k = ''isDeleted'' then (case v of JBool b \<Rightarrow> Some (e\<lparr>isDeleted := b\<rparr>) | _ \<Rightarrow> None)
      else if k = ''deletedAt'' then map_option (\<lambda>d. e\<lparr>deletedAt := d\<rparr>) (castDate v)
      else if k = ''category'' then
        (case v of JStr s \<Rightarrow> Some (e\<lparr>other := set_other k (JStr (trim s)) (other e)\<rparr>) | _ \<Rightarrow> None)
      else if k \<in> set blog_other_paths then Some (e\<lparr>other := set_other k v (other e)\<rparr>)
      else Some e)"

fun blog_assign :: "blog \<Rightarrow> body \<Rightarrow> blog option" where
  "blog_assign e [] = Some e"
| "blog_assign e ((k, v) # kvs) =
     (case blog_set e k v of None \<Rightarrow> None | Some e' \<Rightarrow> blog_assign e' kvs)"

definition blog_isModified :: "blog \<Rightarrow> blog \<Rightarrow> string \<Rightarrow> bool" where
  "blog_isModified loaded this p =
     (if p = ''title'' then title this \<noteq> title loaded
      else if p = ''slug'' then slug this \<noteq> slug loaded
      else if p = ''status'' then status this \<noteq> status loaded
      else if p = ''heroImage'' then heroImage this \<noteq> heroImage loaded
      else if p = ''gallery'' then gallery this \<noteq> gallery loaded
      else if p = ''video'' then video this \<noteq> video loaded
      else if p = ''author'' then author this \<noteq> author loaded
      else if p = ''publishedAt'' then publishedAt this \<noteq> publishedAt loaded
      else if p = ''views'' then views this \<noteq> views loaded
      else if p = ''createdBy'' then createdBy this \<noteq> createdBy loaded
      else if p = ''updatedBy'' then updatedBy this \<noteq> updatedBy loaded
      else if p = ''isDeleted'' then isDeleted this \<noteq> isDeleted loaded
      else if p = ''deletedAt'' then deletedAt this \<noteq> deletedAt loaded
      else map_of (other this) p \<noteq> map_of (other loaded) p)"

definition blog_validate :: "blog \<Rightarrow> string option" where
  "blog_validate e =
     (if title e = [] then Some ''Blog title is required''
      else if length (title e) > 200 then Some ''Title cannot exceed 200 characters''
      else if \<not> string_path_ok (other e) ''excerpt'' True (Some 500) then Some ''excerpt''
      else if \<not> string_path_ok (other e) ''content'' True None then Some ''Blog content is required''
      else if \<not> string_path_ok (other e) ''category'' True None then Some ''Blog category is required''
      else if status e \<notin> set [''draft'', ''published'', ''archived''] then Some ''status''
      else if heroImage e = None then Some ''Hero image is required''
      else if author e = None then Some ''author''
      else if \<not> string_path_ok (other e) ''seoTitle'' False (Some 70) then Some ''seoTitle''
      else if \<not> string_path_ok (other e) ''seoDescription'' False (Some 160) then Some ''seoDescription''
      else None)"

text \<open>
  \<^verbatim>\<open>blogSchema.pre('save', ...)\<close>: slug and \<^verbatim>\<open>publishedAt\<close> as for events. The
  hook's middle part, which computes readTime from the content, writes only that path
  and is left out.
\<close>

definition blogSchema_pre_save :: "env \<Rightarrow> (string \<Rightarrow> bool) \<Rightarrow> blog \<Rightarrow> blog" where
  "blogSchema_pre_save env isModified this =
     (let this1 = (if isModified ''title''
                   then this\<lparr>slug := Some (slugify env (title this) @ ''-'' @ digits (now env))\<rparr>
                   else this);
          this2 = (if isModified ''status'' \<and> status this1 = ''published'' \<and> publishedAt this1 = None
                   then this1\<lparr>publishedAt := Some (now env)\<rparr>
                   else this1)
      in this2)"

definition Blog_findById :: "bool \<Rightarrow> blog collection \<Rightarrow> objectId \<Rightarrow> blog option" where
  "Blog_findById includeDeleted c i =
     (case map_of c i of
        None \<Rightarrow> None
      | Some e \<Rightarrow> if \<not> includeDeleted \<and> isDeleted e then None else Some e)"

definition Blog_save :: "env \<Rightarrow> blog collection \<Rightarrow> objectId \<Rightarrow> blog \<Rightarrow> blog
    \<Rightarrow> error + (blog \<times> blog collection)" where
  "Blog_save env c i loaded this =
     (case blog_validate this of
        Some msg \<Rightarrow> Inl (ValidationError msg)
      | None \<Rightarrow>
          let this' = blogSchema_pre_save env (blog_isModified loaded this) this
          in if slug this' \<noteq> slug loaded \<and> list_ex (\<lambda>(k, e). k \<noteq> i \<and> slug e = slug this') c
             then Inl (DuplicateKey ''slug'')
             else Inr (this', updateWhere (\<lambda>k e. k = i) (\<lambda>e. this') c))"

definition Blog_create :: "env \<Rightarrow> blog collection \<Rightarrow> body
    \<Rightarrow> error + (objectId \<times> blog \<times> blog collection)" where
  "Blog_create env c data =
     (case blog_assign blog_new data of
        None \<Rightarrow> Inl (ValidationError ''cast'')
      | Some this \<Rightarrow>
          (case blog_validate this of
             Some msg \<Rightarrow> Inl (ValidationError msg)
           | None \<Rightarrow>
               let this' = blogSchema_pre_save env (\<lambda>p. p \<in> set (map fst data)) this
               in if newId env \<in> set (map fst c) then Inl (DuplicateKey ''_id'')
                  else if list_ex (\<lambda>(k, e). slug e = slug this') c then Inl (DuplicateKey ''slug'')
                  else Inr (newId env, this', c @ [(newId env, this')])))"

definition blog_softDelete :: "env \<Rightarrow> blog collection \<Rightarrow> objectId \<Rightarrow> blog
    \<Rightarrow> error + (blog \<times> blog collection)" where
  "blog_softDelete env c i this =
     Blog_save env c i this (this\<lparr>isDeleted := True, deletedAt := Some (now env)\<rparr>)"

definition blog_restore :: "env \<Rightarrow> blog collection \<Rightarrow> objectId \<Rightarrow> blog
    \<Rightarrow> error + (blog \<times> blog collection)" where
  "blog_restore env c i this =
     Blog_save env c i this (this\<lparr>isDeleted := False, deletedAt := None\<rparr>)"

section \<open>The state and the responses\<close>

text \<open>
  The upload directory: a path holds a file that \<^verbatim>\<open>fs.unlink\<close> removes, or one it
  refuses to remove (any error other than \<^verbatim>\<open>ENOENT\<close>), or nothing.
\<close>

datatype fileEntry = Removable | Refused

record state =
  events :: "event collection"
  blogs :: "blog collection"
  medias :: "media collection"
  files :: "string \<rightharpoonup> fileEntry"

text \<open>
  The data of a response: the event or blog with its media paths populated. Populating reads
  the Media collection through the same \<^verbatim>\<open>find\<close> hook, so a missing or soft-deleted
  file shows as \<^verbatim>\<open>null\<close> (hero image) or is absent (gallery).
\<close>

datatype payload =
    EventData event "media option" "media list"
  | BlogData blog "media option" "media list" "media option"

datatype response = Response nat string "payload option"

definition event_populate :: "media collection \<Rightarrow> event \<Rightarrow> payload" where
  "event_populate ms e =
     EventData e
       (case heroImage e of None \<Rightarrow> None | Some h \<Rightarrow> Media_findById ms h)
       (List.map_filter (Media_findById ms) (gallery e))"

definition blog_populate :: "media collection \<Rightarrow> blog \<Rightarrow> payload" where
  "blog_populate ms e =
     BlogData e
       (case heroImage e of None \<Rightarrow> None | Some h \<Rightarrow> Media_findById ms h)
       (List.map_filter (Media_findById ms) (gallery e))
       (case video e of None \<Rightarrow> None | Some h \<Rightarrow> Media_findById ms h)"

type_synonym 'a result = "(error + 'a) \<times> state"

section \<open>The event controller (controllers/event.controller.js)\<close>

definition usageOf :: "string \<Rightarrow> objectId \<Rightarrow> string \<Rightarrow> usage" where
  "usageOf mdl mid fld = \<lparr>model = mdl, modelId = mid, field = fld\<rparr>"

definition createEvent :: "env \<Rightarrow> request \<Rightarrow> state \<Rightarrow> response result" where
  "createEvent env req st =
     (let eventData = filter (\<lambda>(k, v). k \<noteq> ''createdBy'' \<and> k \<noteq> ''updatedBy'') (body req)
                      @ [(''createdBy'', JStr (user_id req)), (''updatedBy'', JStr (user_id req))]
      in case Event_create env (events st) eventData of
           Inl err \<Rightarrow> (Inl err, st)
         | Inr (eid, event, evs) \<Rightarrow>
             let ms1 = (case heroImage event of
                          None \<Rightarrow> medias st
                        | Some h \<Rightarrow> Media_findByIdAndUpdate h
                                     (push_usedIn (usageOf ''Event'' eid ''heroImage'')) (medias st));
                 ms2 = (if length (gallery event) > 0
                        then Media_updateMany_in (gallery event)
                               (push_usedIn (usageOf ''Event'' eid ''gallery'')) ms1
                        else ms1)
             in (Inr (Response 201 ''Event created successfully'' (Some (event_populate ms2 event))),
                 st\<lparr>events := evs, medias := ms2\<rparr>))"

definition updateEvent :: "env \<Rightarrow> request \<Rightarrow> state \<Rightarrow> response result" where
  "updateEvent env req st =
     (case Event_findById False (events st) (params_id req) of
        None \<Rightarrow> (Inl (ApiError 404 ''Event not found''), st)
      | Some event0 \<Rightarrow>
          let oldHeroImage = heroImage event0;
              oldGallery = gallery event0;
              patch = filter (\<lambda>(k, v). k \<noteq> ''updatedBy'') (body req)
                      @ [(''updatedBy'', JStr (user_id req))]
          in case event_assign event0 patch of
               None \<Rightarrow> (Inl (ValidationError ''cast''), st)
             | Some assigned \<Rightarrow>
                 (case Event_save env (events st) (params_id req) event0 assigned of
                    Inl err \<Rightarrow> (Inl err, st)
                  | Inr (event, evs) \<Rightarrow>
                      let eid = params_id req;
                          ms1 = (case oldHeroImage of
                                   None \<Rightarrow> medias st
                                 | Some a \<Rightarrow>
                                     if Some a \<noteq> heroImage event
                                     then Media_findByIdAndUpdate a
                                            (pull_usedIn ''Event'' eid (Some ''heroImage'')) (medias st)
                                     else medias st);
                          ms2 = (case heroImage event of
                                   None \<Rightarrow> ms1
                                 | Some b \<Rightarrow>
                                     if oldHeroImage \<noteq> Some b
                                     then Media_findByIdAndUpdate b
                                            (push_usedIn (usageOf ''Event'' eid ''heroImage'')) ms1
                                     else ms1);
                          newGallery = gallery event;
                          removedImages = filter (\<lambda>i. \<not> list_ex (\<lambda>newId. newId = i) newGallery) oldGallery;
                          addedImages = filter (\<lambda>i. \<not> list_ex (\<lambda>oldId. oldId = i) oldGallery) newGallery;
                          ms3 = (if length removedImages > 0
                                 then Media_updateMany_in removedImages
                                        (pull_usedIn ''Event'' eid (Some ''gallery'')) ms2
                                 else ms2);
                          ms4 = (if length addedImages > 0
                                 then Media_updateMany_in addedImages
                                        (push_usedIn (usageOf ''Event'' eid ''gallery'')) ms3
                                 else ms3)
                      in (Inr (Response 200 ''Event updated successfully'' (Some (event_populate ms4 event))),
                          st\<lparr>events := evs, medias := ms4\<rparr>)))"

definition deleteEvent :: "env \<Rightarrow> request \<Rightarrow> state \<Rightarrow> response result" where
  "deleteEvent env req st =
     (case Event_findById False (events st) (params_id req) of
        None \<Rightarrow> (Inl (ApiError 404 ''Event not found''), st)
      | Some event0 \<Rightarrow>
          (case event_softDelete env (events st) (params_id req) event0 of
             Inl err \<Rightarrow> (Inl err, st)
           | Inr (event, evs) \<Rightarrow>
               let mediaIds = (case heroImage event of None \<Rightarrow> [] | Some h \<Rightarrow> [h]) @ gallery event;
                   ms1 = (if length mediaIds > 0
                          then Media_updateMany_in mediaIds
                                 (pull_usedIn ''Event'' (params_id req) None) (medias st)
                          else medias st)
               in (Inr (Response 200 ''Event deleted successfully'' None),
                   st\<lparr>events := evs, medias := ms1\<rparr>)))"

definition restoreEvent :: "env \<Rightarrow> request \<Rightarrow> state \<Rightarrow> response result" where
  "restoreEvent env req st =
     (case Event_findById True (events st) (params_id req) of
        None \<Rightarrow> (Inl (ApiError 404 ''Event not found''), st)
      | Some event0 \<Rightarrow>
          if \<not> isDeleted event0 then (Inl (ApiError 400 ''Event is not deleted''), st)
          else
            (case event_restore env (events st) (params_id req) event0 of
               Inl err \<Rightarrow> (Inl err, st)
             | Inr (event, evs) \<Rightarrow>
                 let eid = params_id req;
                     ms1 = (case heroImage event of
                              None \<Rightarrow> medias st
                            | Some h \<Rightarrow> Media_findByIdAndUpdate h
                                         (push_usedIn (usageOf ''Event'' eid ''heroImage'')) (medias st));
                     ms2 = (if length (gallery event) > 0
                            then Media_updateMany_in (gallery event)
                                   (push_usedIn (usageOf ''Event'' eid ''gallery'')) ms1
                            else ms1)
                 in (Inr (Response 200 ''Event restored successfully'' (Some (event_populate ms2 event))),
                     st\<lparr>events := evs, medias := ms2\<rparr>)))"

subsection \<open>Reading one event\<close>

text \<open>
  \<^verbatim>\<open>getEvent\<close> and \<^verbatim>\<open>getEventBySlug\<close> count a view of a published event and save
  the document, so they write too. \<open>role\<close> is \<^verbatim>\<open>req.user.role\<close>, absent when the request
  carries no user (the route runs behind \<^verbatim>\<open>optionalAuth\<close>).
\<close>

definition getEvent :: "env \<Rightarrow> string option \<Rightarrow> objectId \<Rightarrow> state \<Rightarrow> response result" where
  "getEvent env role i st =
     (case Event_findById False (events st) i of
        None \<Rightarrow> (Inl (ApiError 404 ''Event not found''), st)
      | Some event \<Rightarrow>
          if status event \<noteq> ''published'' \<and> role \<noteq> Some ''admin''
          then (Inl (ApiError 403 ''Access denied''), st)
          else if status event = ''published''
          then (case Event_save env (events st) i event (event\<lparr>views := views event + 1\<rparr>) of
                  Inl err \<Rightarrow> (Inl err, st)
                | Inr (event', evs) \<Rightarrow>
                    (Inr (Response 200 [] (Some (event_populate (medias st) event'))),
                     st\<lparr>events := evs\<rparr>))
          else (Inr (Response 200 [] (Some (event_populate (medias st) event))), st))"

text \<open>\<^verbatim>\<open>Event.findOne({slug, status: 'published'})\<close> under the \<^verbatim>\<open>find\<close> hook.\<close>

definition Event_findOne_published :: "event collection \<Rightarrow> string \<Rightarrow> (objectId \<times> event) option" where
  "Event_findOne_published c s =
     find (\<lambda>(k, e). slug e = Some s \<and> status e = ''published'' \<and> \<not> isDeleted e) c"

definition getEventBySlug :: "env \<Rightarrow> string \<Rightarrow> state \<Rightarrow> response result" where
  "getEventBySlug env s st =
     (case Event_findOne_published (events st) s of
        None \<Rightarrow> (Inl (ApiError 404 ''Event not found''), st)
      | Some (i, event) \<Rightarrow>
          (case Event_save env (events st) i event (event\<lparr>views := views event + 1\<rparr>) of
             Inl err \<Rightarrow> (Inl err, st)
           | Inr (event', evs) \<Rightarrow>
               (Inr (Response 200 [] (Some (event_populate (medias st) event'))),
                st\<lparr>events := evs\<rparr>)))"

section \<open>The blog controller (controllers/blog.controller.js)\<close>

text \<open>What JavaScript's \<^verbatim>\<open>!x\<close> holds of a JSON value; a key that is absent is \<^verbatim>\<open>undefined\<close>.\<close>

definition falsy :: "jvalue option \<Rightarrow> bool" where
  "falsy x =
     (case x of
        None \<Rightarrow> True
      | Some JNull \<Rightarrow> True
      | Some (JBool b) \<Rightarrow> \<not> b
      | Some (JNum n) \<Rightarrow> n = 0
      | Some (JStr s) \<Rightarrow> s = []
      | Some (JArr vs) \<Rightarrow> False)"

definition createBlog :: "env \<Rightarrow> request \<Rightarrow> state \<Rightarrow> response result" where
  "createBlog env req st =
     (let blogData = filter (\<lambda>(k, v). k \<noteq> ''author'' \<and> k \<noteq> ''createdBy'' \<and> k \<noteq> ''updatedBy'') (body req)
                     @ [(''author'', JStr (user_id req)), (''createdBy'', JStr (user_id req)),
                        (''updatedBy'', JStr (user_id req))]
      in if falsy (map_of blogData ''heroImage'') then (Inl (ApiError 400 ''Hero image is required''), st)
         else
           (case Blog_create env (blogs st) blogData of
              Inl err \<Rightarrow> (Inl err, st)
            | Inr (bid, blog, bs) \<Rightarrow>
                let ms1 = (case heroImage blog of
                             None \<Rightarrow> medias st
                           | Some h \<Rightarrow> Media_findByIdAndUpdate h
                                        (push_usedIn (usageOf ''Blog'' bid ''heroImage'')) (medias st));
                    ms2 = (if length (gallery blog) > 0
                           then Media_updateMany_in (gallery blog)
                                  (push_usedIn (usageOf ''Blog'' bid ''gallery'')) ms1
                           else ms1);
                    ms3 = (case video blog of
                             None \<Rightarrow> ms2
                           | Some w \<Rightarrow> Media_findByIdAndUpdate w
                                        (push_usedIn (usageOf ''Blog'' bid ''video'')) ms2)
                in (Inr (Response 201 ''Blog created successfully'' (Some (blog_populate ms3 blog))),
                    st\<lparr>blogs := bs, medias := ms3\<rparr>)))"

definition updateBlog :: "env \<Rightarrow> request \<Rightarrow> state \<Rightarrow> response result" where
  "updateBlog env req st =
     (case Blog_findById False (blogs st) (params_id req) of
        None \<Rightarrow> (Inl (ApiError 404 ''Blog not found''), st)
      | Some blog0 \<Rightarrow>
          let oldHeroImage = heroImage blog0;
              oldGallery = gallery blog0;
              oldVideo = video blog0;
              patch = filter (\<lambda>(k, v). k \<noteq> ''updatedBy'') (body req)
                      @ [(''updatedBy'', JStr (user_id req))]
          in case blog_assign blog0 patch of
               None \<Rightarrow> (Inl (ValidationError ''cast''), st)
             | Some assigned \<Rightarrow>
                 (case Blog_save env (blogs st) (params_id req) blog0 assigned of
                    Inl err \<Rightarrow> (Inl err, st)
                  | Inr (blog, bs) \<Rightarrow>
                      let bid = params_id req;
                          ms1 = (case oldHeroImage of
                                   None \<Rightarrow> medias st
                                 | Some a \<Rightarrow>
                                     if Some a \<noteq> heroImage blog
                                     then Media_findByIdAndUpdate a
                                            (pull_usedIn ''Blog'' bid (Some ''heroImage'')) (medias st)
                                     else medias st);
                          ms2 = (case heroImage blog of
                                   None \<Rightarrow> ms1
                                 | Some b \<Rightarrow>
                                     if oldHeroImage \<noteq> Some b
                                     then Media_findByIdAndUpdate b
                                            (push_usedIn (usageOf ''Blog'' bid ''heroImage'')) ms1
                                     else ms1);
                          newGallery = gallery blog;
                          removedImages = filter (\<lambda>i. \<not> list_ex (\<lambda>newId. newId = i) newGallery) oldGallery;
                          addedImages = filter (\<lambda>i. \<not> list_ex (\<lambda>oldId. oldId = i) oldGallery) newGallery;
                          ms3 = (if length removedImages > 0
                                 then Media_updateMany_in removedImages
                                        (pull_usedIn ''Blog'' bid (Some ''gallery'')) ms2
                                 else ms2);
                          ms4 = (if length addedImages > 0
                                 then Media_updateMany_in addedImages
                                        (push_usedIn (usageOf ''Blog'' bid ''gallery'')) ms3
                                 else ms3);
                          ms5 = (case oldVideo of
                                   None \<Rightarrow> ms4
                                 | Some a \<Rightarrow>
                                     if Some a \<noteq> video blog
                                     then Media_findByIdAndUpdate a
                                            (pull_usedIn ''Blog'' bid (Some ''video'')) ms4
                                     else ms4);
                          ms6 = (case video blog of
                                   None \<Rightarrow> ms5
                                 | Some b \<Rightarrow>
                                     if oldVideo \<noteq> Some b
                                     then Media_findByIdAndUpdate b
                                            (push_usedIn (usageOf ''Blog'' bid ''video'')) ms5
                                     else ms5)
                      in (Inr (Response 200 ''Blog updated successfully'' (Some (blog_populate ms6 blog))),
                          st\<lparr>blogs := bs, medias := ms6\<rparr>)))"

definition deleteBlog :: "env \<Rightarrow> request \<Rightarrow> state \<Rightarrow> response result" where
  "deleteBlog env req st =
     (case Blog_findById False (blogs st) (params_id req) of
        None \<Rightarrow> (Inl (ApiError 404 ''Blog not found''), st)
      | Some blog0 \<Rightarrow>
          (case blog_softDelete env (blogs st) (params_id req) blog0 of
             Inl err \<Rightarrow> (Inl err, st)
           | Inr (blog, bs) \<Rightarrow>
               let mediaIds = (case heroImage blog of None \<Rightarrow> [] | Some h \<Rightarrow> [h])
                              @ (case video blog of None \<Rightarrow> [] | Some w \<Rightarrow> [w]) @ gallery blog;
                   ms1 = (if length mediaIds > 0
                          then Media_updateMany_in mediaIds
                                 (pull_usedIn ''Blog'' (params_id req) None) (medias st)
                          else medias st)
               in (Inr (Response 200 ''Blog deleted successfully'' None),
                   st\<lparr>blogs := bs, medias := ms1\<rparr>)))"

text \<open>
  \<^verbatim>\<open>restoreBlog\<close> issues its three usage updates together and awaits them with
  \<^verbatim>\<open>Promise.all\<close>; they are applied here in the order in which they are issued.
\<close>

definition restoreBlog :: "env \<Rightarrow> request \<Rightarrow> state \<Rightarrow> response result" where
  "restoreBlog env req st =
     (case Blog_findById True (blogs st) (params_id req) of
        None \<Rightarrow> (Inl (ApiError 404 ''Blog not found''), st)
      | Some blog0 \<Rightarrow>
          if \<not> isDeleted blog0 then (Inl (ApiError 400 ''Blog is not deleted''), st)
          else
            (case blog_restore env (blogs st) (params_id req) blog0 of
               Inl err \<Rightarrow> (Inl err, st)
             | Inr (blog, bs) \<Rightarrow>
                 let bid = params_id req;
                     ms1 = (case heroImage blog of
                              None \<Rightarrow> medias st
                            | Some h \<Rightarrow> Media_findByIdAndUpdate h
                                         (push_usedIn (usageOf ''Blog'' bid ''heroImage'')) (medias st));
                     ms2 = (if length (gallery blog) > 0
                            then Media_updateMany_in (gallery blog)
                                   (push_usedIn (usageOf ''Blog'' bid ''gallery'')) ms1
                            else ms1);
                     ms3 = (case video blog of
                              None \<Rightarrow> ms2
                            | Some w \<Rightarrow> Media_findByIdAndUpdate w
                                         (push_usedIn (usageOf ''Blog'' bid ''video'')) ms2)
                 in (Inr (Response 200 ''Blog restored successfully'' (Some (blog_populate ms3 blog))),
                     st\<lparr>blogs := bs, medias := ms3\<rparr>)))"

subsection \<open>Reading one blog\<close>

text \<open>\<^verbatim>\<open>getBlog\<close> and \<^verbatim>\<open>getBlogBySlug\<close>, which count a view in the same way.\<close>

definition getBlog :: "env \<Rightarrow> string option \<Rightarrow> objectId \<Rightarrow> state \<Rightarrow> response result" where
  "getBlog env role i st =
     (case Blog_findById False (blogs st) i of
        None \<Rightarrow> (Inl (ApiError 404 ''Blog not found''), st)
      | Some blog \<Rightarrow>
          if status blog \<noteq> ''published'' \<and> role \<noteq> Some ''admin''
          then (Inl (ApiError 403 ''Access denied''), st)
          else if status blog = ''published''
          then (case Blog_save env (blogs st) i blog (blog\<lparr>views := views blog + 1\<rparr>) of
                  Inl err \<Rightarrow> (Inl err, st)
                | Inr (blog', evs) \<Rightarrow>
                    (Inr (Response 200 [] (Some (blog_populate (medias st) blog'))),
                     st\<lparr>blogs := evs\<rparr>))
          else (Inr (Response 200 [] (Some (blog_populate (medias st) blog))), st))"

text \<open>\<^verbatim>\<open>Blog.findOne({slug, status: 'published'})\<close> under the \<^verbatim>\<open>find\<close> hook.\<close>

definition Blog_findOne_published :: "blog collection \<Rightarrow> string \<Rightarrow> (objectId \<times> blog) option" where
  "Blog_findOne_published c s =
     find (\<lambda>(k, e). slug e = Some s \<and> status e = ''published'' \<and> \<not> isDeleted e) c"

definition getBlogBySlug :: "env \<Rightarrow> string \<Rightarrow> state \<Rightarrow> response result" where
  "getBlogBySlug env s st =
     (case Blog_findOne_published (blogs st) s of
        None \<Rightarrow> (Inl (ApiError 404 ''Blog not found''), st)
      | Some (i, blog) \<Rightarrow>
          (case Blog_save env (blogs st) i blog (blog\<lparr>views := views blog + 1\<rparr>) of
             Inl err \<Rightarrow> (Inl err, st)
           | Inr (blog', evs) \<Rightarrow>
               (Inr (Response 200 [] (Some (blog_populate (medias st) blog'))),
                st\<lparr>blogs := evs\<rparr>)))"

section \<open>The media controller (controllers/media.controller.js)\<close>

text \<open>\<^verbatim>\<open>deleteFile\<close> of config/multer.js: a missing file is no error, any other failure is.\<close>

definition deleteFile :: "(string \<rightharpoonup> fileEntry) \<Rightarrow> string \<Rightarrow> (string \<rightharpoonup> fileEntry) option" where
  "deleteFile fs p =
     (case fs p of
        None \<Rightarrow> Some fs
      | Some Removable \<Rightarrow> Some (fs(p := None))
      | Some Refused \<Rightarrow> None)"

text \<open>\<^verbatim>\<open>path.join(__dirname, '../..', media.thumbnail)\<close>, with the backend's root directory written \<open>.\<close>\<close>

definition thumbnailPath :: "string \<Rightarrow> string" where
  "thumbnailPath t = ''.'' @ t"

definition deleteMedia :: "request \<Rightarrow> state \<Rightarrow> response result" where
  "deleteMedia req st =
     (case Media_findById (medias st) (params_id req) of
        None \<Rightarrow> (Inl (ApiError 404 ''Media not found''), st)
      | Some m \<Rightarrow>
          if isInUse m then (Inl (ApiError 400 ''Cannot delete media that is currently in use''), st)
          else
            (case deleteFile (files st) (path m) of
               None \<Rightarrow> (Inl (ApiError 500 ''Failed to delete media file''), st)
             | Some fs1 \<Rightarrow>
                 let fs2 = (case thumbnail m of
                              None \<Rightarrow> fs1
                            | Some t \<Rightarrow>
                                if t = [] then fs1
                                else (case deleteFile fs1 (thumbnailPath t) of None \<Rightarrow> fs1 | Some fs' \<Rightarrow> fs'))
                 in (Inr (Response 200 ''Media deleted successfully'' None),
                     st\<lparr>medias := deleteWhere (\<lambda>k. k = params_id req) (medias st), files := fs2\<rparr>)))"

section \<open>Request validation (validators, middleware/validateRequest.js)\<close>

text \<open>
  A rule of a schema key checks one value and returns the value Joi passes on, or
  nothing when the value breaks the rule. \<^verbatim>\<open>Joi.string()\<close> refuses the empty string
  unless \<^verbatim>\<open>allow('')\<close> is given.
\<close>

type_synonym joiRule = "jvalue \<Rightarrow> jvalue option"

definition joi_string :: "nat option \<Rightarrow> bool \<Rightarrow> joiRule" where
  "joi_string maxlen allowEmpty v =
     (case v of
        JStr s \<Rightarrow>
          if s = [] then (if allowEmpty then Some v else None)
          else if (case maxlen of None \<Rightarrow> False | Some n \<Rightarrow> length s > n) then None
          else Some v
      | _ \<Rightarrow> None)"

definition joi_valid :: "string list \<Rightarrow> joiRule" where
  "joi_valid allowed v = (case v of JStr s \<Rightarrow> if s \<in> set allowed then Some v else None | _ \<Rightarrow> None)"

definition joi_hex24 :: "bool \<Rightarrow> joiRule" where
  "joi_hex24 allowNull v =
     (case v of
        JNull \<Rightarrow> if allowNull then Some v else None
      | JStr s \<Rightarrow> if isHex s \<and> length s = 24 then Some v else None
      | _ \<Rightarrow> None)"

definition joi_date :: joiRule where
  "joi_date v = (case v of JNum n \<Rightarrow> if 0 \<le> n then Some v else None | _ \<Rightarrow> None)"

definition joi_tag :: joiRule where
  "joi_tag v = (case v of JStr s \<Rightarrow> if s = [] then None else Some (JStr (toLowerCase (trim s))) | _ \<Rightarrow> None)"

fun joi_items :: "joiRule \<Rightarrow> jvalue list \<Rightarrow> jvalue list option" where
  "joi_items r [] = Some []"
| "joi_items r (v # vs) =
     (case r v of
        None \<Rightarrow> None
      | Some w \<Rightarrow> (case joi_items r vs of None \<Rightarrow> None | Some ws \<Rightarrow> Some (w # ws)))"

definition joi_array :: "joiRule \<Rightarrow> joiRule" where
  "joi_array r v = (case v of JArr vs \<Rightarrow> map_option JArr (joi_items r vs) | _ \<Rightarrow> None)"

text \<open>
  \<^verbatim>\<open>Joi.object({...})\<close>: the rule of each declared key, the keys marked
  \<^verbatim>\<open>required()\<close>, the \<^verbatim>\<open>default(...)\<close> values and the least number of keys
  (\<^verbatim>\<open>.min(1)\<close>).
\<close>

record schema =
  rules :: "(string \<times> joiRule) list"
  required :: "string list"
  defaults :: body
  minKeys :: nat

definition event_createSchema :: schema where
  "event_createSchema = \<lparr>
     rules = [(''title'', joi_string (Some 200) False),
              (''description'', joi_string (Some 5000) False),
              (''time'', joi_string None False),
              (''location'', joi_string (Some 200) False),
              (''datetime'', joi_date),
              (''type'', joi_valid [''featured'', ''normal'']),
              (''status'', joi_valid [''draft'', ''published'', ''archived'']),
              (''heroImage'', joi_hex24 False),
              (''gallery'', joi_array (joi_hex24 False)),
              (''seoTitle'', joi_string (Some 70) False),
              (''seoDescription'', joi_string (Some 160) False),
              (''tags'', joi_array joi_tag)],
     required = [''title'', ''description'', ''time'', ''location'', ''datetime''],
     defaults = [(''type'', JStr ''normal''), (''status'', JStr ''draft'')],
     minKeys = 0\<rparr>"

definition event_updateSchema :: schema where
  "event_updateSchema = \<lparr>
     rules = [(''title'', joi_string (Some 200) False),
              (''description'', joi_string (Some 5000) False),
              (''time'', joi_string None False),
              (''location'', joi_string (Some 200) False),
              (''datetime'', joi_date),
              (''type'', joi_valid [''featured'', ''normal'']),
              (''status'', joi_valid [''draft'', ''published'', ''archived'']),
              (''heroImage'', joi_hex24 True),
              (''gallery'', joi_array (joi_hex24 False)),
              (''seoTitle'', joi_string (Some 70) True),
              (''seoDescription'', joi_string (Some 160) True),
              (''tags'', joi_array joi_tag)],
     required = [],
     defaults = [],
     minKeys = 1\<rparr>"

definition joi_boolean :: joiRule where
  "joi_boolean v =
     (case v of
        JBool b \<Rightarrow> Some v
      | JStr s \<Rightarrow> if s = ''true'' then Some (JBool True) else if s = ''false'' then Some (JBool False) else None
      | _ \<Rightarrow> None)"

definition joi_uri :: "(string \<Rightarrow> bool) \<Rightarrow> bool \<Rightarrow> joiRule" where
  "joi_uri isUri allowEmpty v =
     (case v of
        JStr s \<Rightarrow> if s = [] then (if allowEmpty then Some v else None) else if isUri s then Some v else None
      | _ \<Rightarrow> None)"

definition blog_createSchema :: "(string \<Rightarrow> bool) \<Rightarrow> schema" where
  "blog_createSchema isUri = \<lparr>
     rules = [(''title'', joi_string (Some 200) False),
              (''excerpt'', joi_string (Some 500) False),
              (''content'', joi_string None False),
              (''category'', joi_string None False),
              (''isFeatured'', joi_boolean),
              (''status'', joi_valid [''draft'', ''published'', ''archived'']),
              (''heroImage'', joi_hex24 False),
              (''gallery'', joi_array (joi_hex24 False)),
              (''video'', joi_hex24 True),
              (''videoUrl'', joi_uri isUri True),
              (''seoTitle'', joi_string (Some 70) False),
              (''seoDescription'', joi_string (Some 160) False),
              (''tags'', joi_array joi_tag)],
     required = [''title'', ''excerpt'', ''content'', ''category'', ''heroImage''],
     defaults = [(''isFeatured'', JBool False), (''status'', JStr ''draft'')],
     minKeys = 0\<rparr>"

definition blog_updateSchema :: "(string \<Rightarrow> bool) \<Rightarrow> schema" where
  "blog_updateSchema isUri = \<lparr>
     rules = [(''title'', joi_string (Some 200) False),
              (''excerpt'', joi_string (Some 500) False),
              (''content'', joi_string None False),
              (''category'', joi_string None False),
              (''isFeatured'', joi_boolean),
              (''status'', joi_valid [''draft'', ''published'', ''archived'']),
              (''heroImage'', joi_hex24 False),
              (''gallery'', joi_array (joi_hex24 False)),
              (''video'', joi_hex24 True),
              (''videoUrl'', joi_uri isUri True),
              (''seoTitle'', joi_string (Some 70) True),
              (''seoDescription'', joi_string (Some 160) True),
              (''tags'', joi_array joi_tag)],
     required = [],
     defaults = [],
     minKeys = 1\<rparr>"

text \<open>
  \<^verbatim>\<open>schema.validate(req.body, { abortEarly: false, stripUnknown: true })\<close>: the keys
  the schema does not declare are removed, every remaining value goes through its rule,
  and all failures are collected. The result is the list of failing fields, or the
  stripped and converted body with the defaults filled in.
\<close>

definition Joi_validate :: "schema \<Rightarrow> body \<Rightarrow> string list + body" where
  "Joi_validate sch b =
     (let known = filter (\<lambda>(k, v). k \<in> set (map fst (rules sch))) b;
          checked = map (\<lambda>(k, v). (k, case map_of (rules sch) k of None \<Rightarrow> None | Some r \<Rightarrow> r v)) known;
          errors = map fst (filter (\<lambda>(k, r). r = None) checked)
                   @ filter (\<lambda>k. k \<notin> set (map fst known)) (required sch)
                   @ (if length known < minKeys sch then [''value''] else []);
          val = List.map_filter (\<lambda>(k, r). map_option (Pair k) r) checked
                @ filter (\<lambda>(k, d). k \<notin> set (map fst known)) (defaults sch)
      in if errors = [] then Inr val else Inl errors)"

definition validateRequest :: "schema \<Rightarrow> request \<Rightarrow> error + request" where
  "validateRequest sch req =
     (case Joi_validate sch (body req) of
        Inl errors \<Rightarrow> Inl (ValidationFailed errors)
      | Inr val \<Rightarrow> Inr (req\<lparr>body := val\<rparr>))"

text \<open>The admin routes of routes/event.routes.js: the validation middleware, then the handler.\<close>

definition route_post_events :: "env \<Rightarrow> request \<Rightarrow> state \<Rightarrow> response result" where
  "route_post_events env req st =
     (case validateRequest event_createSchema req of
        Inl err \<Rightarrow> (Inl err, st)
      | Inr req' \<Rightarrow> createEvent env req' st)"

definition route_patch_events :: "env \<Rightarrow> request \<Rightarrow> state \<Rightarrow> response result" where
  "route_patch_events env req st =
     (case validateRequest event_updateSchema req of
        Inl err \<Rightarrow> (Inl err, st)
      | Inr req' \<Rightarrow> updateEvent env req' st)"

text \<open>The admin routes of routes/blog.routes.js.\<close>

definition route_post_blogs :: "env \<Rightarrow> request \<Rightarrow> state \<Rightarrow> response result" where
  "route_post_blogs env req st =
     (case validateRequest (blog_createSchema (uri env)) req of
        Inl err \<Rightarrow> (Inl err, st)
      | Inr req' \<Rightarrow> createBlog env req' st)"

definition route_patch_blogs :: "env \<Rightarrow> request \<Rightarrow> state \<Rightarrow> response result" where
  "route_patch_blogs env req st =
     (case validateRequest (blog_updateSchema (uri env)) req of
        Inl err \<Rightarrow> (Inl err, st)
      | Inr req' \<Rightarrow> updateBlog env req' st)"

section \<open>Sequences of calls\<close>

text \<open>The calls of the routes that write to the database, and a run of them in order.\<close>

datatype call =
    PostEvent env request
  | PatchEvent env request
  | DeleteEvent env request
  | RestoreEvent env request
  | PostBlog env request
  | PatchBlog env request
  | DeleteBlog env request
  | RestoreBlog env request
  | DeleteMedia request
  | GetEvent env "string option" objectId
  | GetEventBySlug env string
  | GetBlog env "string option" objectId
  | GetBlogBySlug env string

fun perform :: "call \<Rightarrow> state \<Rightarrow> state" where
  "perform (PostEvent env req) st = snd (route_post_events env req st)"
| "perform (PatchEvent env req) st = snd (route_patch_events env req st)"
| "perform (DeleteEvent env req) st = snd (deleteEvent env req st)"
| "perform (RestoreEvent env req) st = snd (restoreEvent env req st)"
| "perform (PostBlog env req) st = snd (route_post_blogs env req st)"
| "perform (PatchBlog env req) st = snd (route_patch_blogs env req st)"
| "perform (DeleteBlog env req) st = snd (deleteBlog env req st)"
| "perform (RestoreBlog env req) st = snd (restoreBlog env req st)"
| "perform (DeleteMedia req) st = snd (deleteMedia req st)"
| "perform (GetEvent env role i) st = snd (getEvent env role i st)"
| "perform (GetEventBySlug env s) st = snd (getEventBySlug env s st)"
| "perform (GetBlog env role i) st = snd (getBlog env role i st)"
| "perform (GetBlogBySlug env s) st = snd (getBlogBySlug env s st)"

fun run :: "call list \<Rightarrow> state \<Rightarrow> state" where
  "run [] st = st"
| "run (c # cs) st = run cs (perform c st)"

section \<open>Observations used in the statements\<close>

text \<open>The \<^verbatim>\<open>usedIn\<close> array of the stored file with the given id; empty when no such file is stored.\<close>

definition usedInOf :: "media collection \<Rightarrow> objectId \<Rightarrow> usage list" where
  "usedInOf c i = (case map_of c i of None \<Rightarrow> [] | Some m \<Rightarrow> usedIn m)"

text \<open>The files an event refers to.\<close>

definition event_refs :: "event \<Rightarrow> objectId set" where
  "event_refs e = set_option (heroImage e) \<union> set (gallery e)"

text \<open>The files a blog refers to.\<close>

definition blog_refs :: "blog \<Rightarrow> objectId set" where
  "blog_refs e = set_option (heroImage e) \<union> set (gallery e) \<union> set_option (video e)"

text \<open>
  The usage entries that the references of an event (of a blog) with id \<open>i\<close> call for
  on the file \<open>a\<close>: one for each field through which the document refers to \<open>a\<close>.
\<close>

definition event_usage_on :: "objectId \<Rightarrow> event \<Rightarrow> objectId \<Rightarrow> usage list" where
  "event_usage_on i e a =
     (if heroImage e = Some a then [usageOf ''Event'' i ''heroImage''] else [])
     @ (if a \<in> set (gallery e) then [usageOf ''Event'' i ''gallery''] else [])"

definition blog_usage_on :: "objectId \<Rightarrow> blog \<Rightarrow> objectId \<Rightarrow> usage list" where
  "blog_usage_on i e a =
     (if heroImage e = Some a then [usageOf ''Blog'' i ''heroImage''] else [])
     @ (if a \<in> set (gallery e) then [usageOf ''Blog'' i ''gallery''] else [])
     @ (if video e = Some a then [usageOf ''Blog'' i ''video''] else [])"

text \<open>
  The paths of an event or a blog that no update schema declares: the view counter, the
  soft-delete flag and date, the creator, and the two paths that the save hook maintains.
\<close>

definition protected_paths :: "string list" where
  "protected_paths = [''views'', ''isDeleted'', ''deletedAt'', ''createdBy'', ''publishedAt'', ''slug'']"

section \<open>Sample data for the evaluated instances\<close>

abbreviation idA :: objectId where "idA \<equiv> ''aaaaaaaaaaaaaaaaaaaaaaaa''"
abbreviation idB :: objectId where "idB \<equiv> ''bbbbbbbbbbbbbbbbbbbbbbbb''"
abbreviation idG :: objectId where "idG \<equiv> ''cccccccccccccccccccccccc''"
abbreviation idE :: objectId where "idE \<equiv> ''111111111111111111111111''"
abbreviation idF :: objectId where "idF \<equiv> ''222222222222222222222222''"
abbreviation idU :: objectId where "idU \<equiv> ''999999999999999999999999''"

text \<open>A stand-in for the slugify package: lower case, hyphens for spaces.\<close>

definition sample_slugify :: "string \<Rightarrow> string" where
  "sample_slugify t = map (\<lambda>c. if c = CHR '' '' then CHR ''-'' else toLowerCase_char c) t"

definition sample_env :: "date \<Rightarrow> objectId \<Rightarrow> env" where
  "sample_env t i = \<lparr>slugify = sample_slugify, uri = (\<lambda>s. True), now = t, newId = i\<rparr>"

definition sample_event :: "objectId option \<Rightarrow> objectId list \<Rightarrow> bool \<Rightarrow> event" where
  "sample_event h g del =
     \<lparr>title = ''Charity Gala'', slug = Some ''charity-gala-900'', status = ''draft'',
      heroImage = h, gallery = g, publishedAt = None, views = 0,
      createdBy = Some idU, updatedBy = Some idU,
      isDeleted = del, deletedAt = (if del then Some 5 else None),
      other = [(''description'', JStr ''Annual gala''), (''time'', JStr ''8:00 pm''),
               (''location'', JStr ''Town hall''), (''datetime'', JNum 2000),
               (''type'', JStr ''normal''), (''tags'', JArr [])]\<rparr>"

definition sample_blog :: "objectId option \<Rightarrow> objectId list \<Rightarrow> objectId option \<Rightarrow> bool \<Rightarrow> blog" where
  "sample_blog h g w del =
     \<lparr>title = ''Charity Gala'', slug = Some ''charity-gala-900'', status = ''draft'',
      heroImage = h, gallery = g, publishedAt = None, views = 0,
      createdBy = Some idU, updatedBy = Some idU,
      isDeleted = del, deletedAt = (if del then Some 5 else None),
      other = [(''excerpt'', JStr ''Annual gala''), (''content'', JStr ''It was a fine evening''),
               (''category'', JStr ''news''), (''isFeatured'', JBool False), (''tags'', JArr [])],
      video = w, author = Some idU\<rparr>"

definition sample_media :: "string \<Rightarrow> usage list \<Rightarrow> bool \<Rightarrow> media" where
  "sample_media p us del =
     \<lparr>path = p, thumbnail = None, usedIn = us, media.isDeleted = del,
      media.deletedAt = (if del then Some 5 else None)\<rparr>"

text \<open>
  A state with one event and one blog, both referring to the file \<open>idA\<close> as hero image and
  to \<open>idG\<close> in the gallery, and a file \<open>idB\<close> that nothing uses. The flags soft-delete
  the two documents, and the files \<open>idA\<close> and \<open>idB\<close>.
\<close>

definition sample_store :: "bool \<Rightarrow> media collection" where
  "sample_store del =
     [(idA, sample_media ''a.png'' [usageOf ''Event'' idE ''heroImage'', usageOf ''Blog'' idF ''heroImage''] del),
      (idB, sample_media ''b.png'' [] del),
      (idG, sample_media ''g.png'' [usageOf ''Event'' idE ''gallery'', usageOf ''Blog'' idF ''gallery''] False)]"

definition sample_state :: "bool \<Rightarrow> bool \<Rightarrow> state" where
  "sample_state edel mdel =
     \<lparr>events = [(idE, sample_event (Some idA) [idG] edel)],
      blogs = [(idF, sample_blog (Some idA) [idG] None edel)],
      medias = sample_store mdel,
      files = Map.empty\<rparr>"

text \<open>
  A state in which the event and the blog are deleted and nothing is attached: the hero
  image \<open>idA\<close> is soft-deleted, the gallery holds \<open>idG\<close> (soft-deleted on demand) and
  \<open>idB\<close>, which is not stored.
\<close>

definition sample_restore_state :: "bool \<Rightarrow> state" where
  "sample_restore_state gdel =
     \<lparr>events = [(idE, sample_event (Some idA) [idG, idB] True)],
      blogs = [(idF, sample_blog (Some idA) [idG, idB] None True)],
      medias = [(idA, sample_media ''a.png'' [] True), (idG, sample_media ''g.png'' [] gdel)],
      files = Map.empty\<rparr>"

text \<open>
  The empty database, a request that creates an event (a blog) titled as the sample ones with
  the given status, and a request that changes only the status.
\<close>

definition sample_empty :: state where
  "sample_empty = \<lparr>events = [], blogs = [], medias = [], files = Map.empty\<rparr>"

definition sample_event_request :: "string \<Rightarrow> request" where
  "sample_event_request s =
     \<lparr>params_id = [],
      body = [(''title'', JStr ''Charity Gala''), (''description'', JStr ''Annual gala''),
              (''time'', JStr ''8:00 pm''), (''location'', JStr ''Town hall''),
              (''datetime'', JNum 2000), (''status'', JStr s)],
      user_id = idU\<rparr>"

definition sample_blog_request :: "string \<Rightarrow> request" where
  "sample_blog_request s =
     \<lparr>params_id = [],
      body = [(''title'', JStr ''Charity Gala''), (''excerpt'', JStr ''Annual gala''),
              (''content'', JStr ''It was a fine evening''), (''category'', JStr ''news''),
              (''heroImage'', JStr idA), (''status'', JStr s)],
      user_id = idU\<rparr>"

definition status_patch :: "objectId \<Rightarrow> string \<Rightarrow> request" where
  "status_patch i s = \<lparr>params_id = i, body = [(''status'', JStr s)], user_id = idU\<rparr>"

section \<open>Lookups in updated collections\<close>

lemma map_of_updateWhere:
  "map_of (updateWhere P f c) k =
     (case map_of c k of None \<Rightarrow> None | Some d \<Rightarrow> Some (if P k d then f d else d))"
  by (induction c) (auto simp: updateWhere_def)


lemma usedInOf_findByIdAndUpdate:
  "usedInOf (Media_findByIdAndUpdate i upd c) k =
     (case map_of c k of
        None \<Rightarrow> []
      | Some m \<Rightarrow> if k = i \<and> \<not> media.isDeleted m then usedIn (upd m) else usedIn m)"
  by (simp add: usedInOf_def Media_findByIdAndUpdate_def map_of_updateWhere split: option.splits)

lemma usedInOf_updateMany:
  "usedInOf (Media_updateMany_in ids upd c) k =
     (case map_of c k of
        None \<Rightarrow> []
      | Some m \<Rightarrow> if k \<in> set ids then usedIn (upd m) else usedIn m)"
  by (simp add: usedInOf_def Media_updateMany_in_def map_of_updateWhere split: option.splits)

lemma updateWhere_never: "updateWhere (\<lambda>k d. False) f c = c"
  by (induction c) (auto simp: updateWhere_def)

lemma updateMany_nil: "Media_updateMany_in [] upd c = c"
  by (simp add: Media_updateMany_in_def updateWhere_never)

lemma map_of_findByIdAndUpdate:
  "map_of (Media_findByIdAndUpdate i upd c) k =
     map_option (\<lambda>m. if k = i \<and> \<not> media.isDeleted m then upd m else m) (map_of c k)"
  by (simp add: Media_findByIdAndUpdate_def map_of_updateWhere split: option.splits)

lemma map_of_updateMany:
  "map_of (Media_updateMany_in ids upd c) k =
     map_option (\<lambda>m. if k \<in> set ids then upd m else m) (map_of c k)"
  by (simp add: Media_updateMany_in_def map_of_updateWhere split: option.splits)

lemma count_list_filter: "P x \<Longrightarrow> count_list (filter P xs) x = count_list xs x"
  by (induction xs) auto

lemma filter_subset_nil: "set xs \<subseteq> set ys \<Longrightarrow> filter (\<lambda>g. g \<notin> set ys) xs = []"
  by (induction xs) auto

lemma set_option_list: "set (case x of None \<Rightarrow> [] | Some h \<Rightarrow> [h]) = set_option x"
  by (cases x) auto

section \<open>Usage entries: the model's methods and the controllers' operators\<close>

lemma addUsage_twice: "addUsage (addUsage m mdl mid fld) mdl mid fld = addUsage m mdl mid fld"
  by (auto simp: addUsage_def Let_def list_ex_iff)

lemma removeUsage_absent:
  "\<not> list_ex (\<lambda>u. model u = mdl \<and> modelId u = mid \<and> field u = fld) (usedIn m)
     \<Longrightarrow> removeUsage m mdl mid fld = m"
  by (auto simp: removeUsage_def list_ex_iff filter_id_conv)

lemma pull_usedIn_absent:
  "\<not> list_ex (pull_matches mdl mid fld) (usedIn m) \<Longrightarrow> pull_usedIn mdl mid fld m = m"
  by (auto simp: pull_usedIn_def list_ex_iff filter_id_conv)

text \<open>
  C4. Adding a usage entry twice should leave \<^verbatim>\<open>usedIn\<close> as adding it once does, on
  every path that adds entries. The model's \<^verbatim>\<open>addUsage\<close> does so (lemma
  \<open>addUsage_twice\<close>), but the controllers never call it: they add with \<^verbatim>\<open>$push\<close>.
  Evaluated on a file with no usage, the update that \<^verbatim>\<open>createEvent\<close> and
  \<^verbatim>\<open>restoreEvent\<close> issue for the hero image leaves one entry when run once and two
  equal entries when run twice, while \<^verbatim>\<open>addUsage\<close> run twice leaves one.
\<close>

theorem push_usage_twice_duplicates:
  "usedInOf (Media_findByIdAndUpdate idA (push_usedIn (usageOf ''Event'' idE ''heroImage''))
      [(idA, sample_media ''a.png'' [] False)]) idA
     = [usageOf ''Event'' idE ''heroImage'']
   \<and> usedInOf (Media_findByIdAndUpdate idA (push_usedIn (usageOf ''Event'' idE ''heroImage''))
        (Media_findByIdAndUpdate idA (push_usedIn (usageOf ''Event'' idE ''heroImage''))
          [(idA, sample_media ''a.png'' [] False)])) idA
     = [usageOf ''Event'' idE ''heroImage'', usageOf ''Event'' idE ''heroImage'']
   \<and> usedIn (addUsage (addUsage (sample_media ''a.png'' [] False) ''Event'' idE ''heroImage'')
        ''Event'' idE ''heroImage'')
     = [usageOf ''Event'' idE ''heroImage'']"
  by (simp add: usedInOf_def Media_findByIdAndUpdate_def updateWhere_def push_usedIn_def
        sample_media_def addUsage_def usageOf_def)

section \<open>Deleting a media file\<close>




section \<open>Saving a document\<close>

lemma Event_save_unmodified:
  assumes "event_validate this = None" "title this = title loaded" "status this = status loaded"
    "slug this = slug loaded"
  shows "Event_save env c i loaded this = Inr (this, updateWhere (\<lambda>k e. k = i) (\<lambda>e. this) c)"
  using assms by (simp add: Event_save_def eventSchema_pre_save_def event_isModified_def Let_def)

lemma Blog_save_unmodified:
  assumes "blog_validate this = None" "title this = title loaded" "status this = status loaded"
    "slug this = slug loaded"
  shows "Blog_save env c i loaded this = Inr (this, updateWhere (\<lambda>k e. k = i) (\<lambda>e. this) c)"
  using assms by (simp add: Blog_save_def blogSchema_pre_save_def blog_isModified_def Let_def)

lemma event_validate_lifecycle:
  "event_validate (e\<lparr>isDeleted := b, deletedAt := d\<rparr>) = event_validate e"
  by (simp add: event_validate_def)

lemma blog_validate_lifecycle:
  "blog_validate (e\<lparr>isDeleted := b, deletedAt := d\<rparr>) = blog_validate e"
  by (simp add: blog_validate_def)

lemma event_restore_ok:
  "event_validate e = None \<Longrightarrow>
   event_restore env c i e = Inr (e\<lparr>isDeleted := False, deletedAt := None\<rparr>,
      updateWhere (\<lambda>k x. k = i) (\<lambda>x. e\<lparr>isDeleted := False, deletedAt := None\<rparr>) c)"
  by (simp add: event_restore_def Event_save_unmodified event_validate_lifecycle)

lemma event_softDelete_ok:
  "event_validate e = None \<Longrightarrow>
   event_softDelete env c i e = Inr (e\<lparr>isDeleted := True, deletedAt := Some (now env)\<rparr>,
      updateWhere (\<lambda>k x. k = i) (\<lambda>x. e\<lparr>isDeleted := True, deletedAt := Some (now env)\<rparr>) c)"
  by (simp add: event_softDelete_def Event_save_unmodified event_validate_lifecycle)

lemma blog_restore_ok:
  "blog_validate e = None \<Longrightarrow>
   blog_restore env c i e = Inr (e\<lparr>isDeleted := False, deletedAt := None\<rparr>,
      updateWhere (\<lambda>k x. k = i) (\<lambda>x. e\<lparr>isDeleted := False, deletedAt := None\<rparr>) c)"
  by (simp add: blog_restore_def Blog_save_unmodified blog_validate_lifecycle)

lemma blog_softDelete_ok:
  "blog_validate e = None \<Longrightarrow>
   blog_softDelete env c i e = Inr (e\<lparr>isDeleted := True, deletedAt := Some (now env)\<rparr>,
      updateWhere (\<lambda>k x. k = i) (\<lambda>x. e\<lparr>isDeleted := True, deletedAt := Some (now env)\<rparr>) c)"
  by (simp add: blog_softDelete_def Blog_save_unmodified blog_validate_lifecycle)

lemma Event_save_Inr:
  assumes "Event_save env c i loaded this = Inr (e', c')"
  shows "e' = eventSchema_pre_save env (event_isModified loaded this) this"
    and "c' = updateWhere (\<lambda>k e. k = i) (\<lambda>e. e') c"
    and "event_validate this = None"
  using assms
  by (auto simp: Event_save_def Let_def split: option.splits if_splits)

lemma Blog_save_Inr:
  assumes "Blog_save env c i loaded this = Inr (e', c')"
  shows "e' = blogSchema_pre_save env (blog_isModified loaded this) this"
    and "c' = updateWhere (\<lambda>k e. k = i) (\<lambda>e. e') c"
    and "blog_validate this = None"
  using assms
  by (auto simp: Blog_save_def Let_def split: option.splits if_splits)

section \<open>The effect of soft delete and restore\<close>

lemma restoreEvent_result:
  assumes "map_of (events st) (params_id req) = Some e" "isDeleted e" "event_validate e = None"
  shows "restoreEvent env req st =
     (let e' = e\<lparr>isDeleted := False, deletedAt := None\<rparr>;
          ms1 = (case heroImage e of None \<Rightarrow> medias st
                 | Some h \<Rightarrow> Media_findByIdAndUpdate h (push_usedIn (usageOf ''Event'' (params_id req) ''heroImage'')) (medias st));
          ms2 = Media_updateMany_in (gallery e) (push_usedIn (usageOf ''Event'' (params_id req) ''gallery'')) ms1
      in (Inr (Response 200 ''Event restored successfully'' (Some (event_populate ms2 e'))),
          st\<lparr>events := updateWhere (\<lambda>k x. k = params_id req) (\<lambda>x. e') (events st), medias := ms2\<rparr>))"
  using assms
  by (simp add: restoreEvent_def Event_findById_def event_restore_ok Let_def updateMany_nil)

lemma deleteEvent_result:
  assumes "map_of (events st) (params_id req) = Some e" "\<not> isDeleted e" "event_validate e = None"
  shows "deleteEvent env req st =
     (let e' = e\<lparr>isDeleted := True, deletedAt := Some (now env)\<rparr>;
          ms1 = Media_updateMany_in ((case heroImage e of None \<Rightarrow> [] | Some h \<Rightarrow> [h]) @ gallery e)
                  (pull_usedIn ''Event'' (params_id req) None) (medias st)
      in (Inr (Response 200 ''Event deleted successfully'' None),
          st\<lparr>events := updateWhere (\<lambda>k x. k = params_id req) (\<lambda>x. e') (events st), medias := ms1\<rparr>))"
  using assms
  by (simp add: deleteEvent_def Event_findById_def event_softDelete_ok Let_def updateMany_nil)

lemma restoreBlog_result:
  assumes "map_of (blogs st) (params_id req) = Some e" "isDeleted e" "blog_validate e = None"
  shows "restoreBlog env req st =
     (let e' = e\<lparr>isDeleted := False, deletedAt := None\<rparr>;
          ms1 = (case heroImage e of None \<Rightarrow> medias st
                 | Some h \<Rightarrow> Media_findByIdAndUpdate h (push_usedIn (usageOf ''Blog'' (params_id req) ''heroImage'')) (medias st));
          ms2 = Media_updateMany_in (gallery e) (push_usedIn (usageOf ''Blog'' (params_id req) ''gallery'')) ms1;
          ms3 = (case video e of None \<Rightarrow> ms2
                 | Some w \<Rightarrow> Media_findByIdAndUpdate w (push_usedIn (usageOf ''Blog'' (params_id req) ''video'')) ms2)
      in (Inr (Response 200 ''Blog restored successfully'' (Some (blog_populate ms3 e'))),
          st\<lparr>blogs := updateWhere (\<lambda>k x. k = params_id req) (\<lambda>x. e') (blogs st), medias := ms3\<rparr>))"
  using assms
  by (simp add: restoreBlog_def Blog_findById_def blog_restore_ok Let_def updateMany_nil
      cong: option.case_cong)

lemma deleteBlog_result:
  assumes "map_of (blogs st) (params_id req) = Some e" "\<not> isDeleted e" "blog_validate e = None"
  shows "deleteBlog env req st =
     (let e' = e\<lparr>isDeleted := True, deletedAt := Some (now env)\<rparr>;
          ms1 = Media_updateMany_in ((case heroImage e of None \<Rightarrow> [] | Some h \<Rightarrow> [h])
                    @ (case video e of None \<Rightarrow> [] | Some w \<Rightarrow> [w]) @ gallery e)
                  (pull_usedIn ''Blog'' (params_id req) None) (medias st)
      in (Inr (Response 200 ''Blog deleted successfully'' None),
          st\<lparr>blogs := updateWhere (\<lambda>k x. k = params_id req) (\<lambda>x. e') (blogs st), medias := ms1\<rparr>))"
  using assms
  by (simp add: deleteBlog_def Blog_findById_def blog_softDelete_ok Let_def updateMany_nil)

lemma restoreEvent_skips:
  assumes "map_of (events st) (params_id req) = Some e" "isDeleted e" "event_validate e = None"
  shows "\<exists>st'. restoreEvent env req st =
           (Inr (Response 200 ''Event restored successfully''
                  (Some (event_populate (medias st') (e\<lparr>isDeleted := False, deletedAt := None\<rparr>)))), st')
     \<and> map_of (events st') (params_id req) = Some (e\<lparr>isDeleted := False, deletedAt := None\<rparr>)
     \<and> (\<forall>a. map_of (medias st) a = None \<longrightarrow> map_of (medias st') a = None)
     \<and> (\<forall>a m. heroImage e = Some a \<and> a \<notin> set (gallery e) \<and> map_of (medias st) a = Some m \<and> media.isDeleted m
            \<longrightarrow> map_of (medias st') a = Some m)
     \<and> (\<forall>a. Media_findById (medias st) a \<noteq> None \<longrightarrow>
            usedInOf (medias st') a = usedInOf (medias st) a @ event_usage_on (params_id req) e a)"
  using assms
  apply (simp add: restoreEvent_result Let_def map_of_updateWhere)
  apply (auto simp: map_of_findByIdAndUpdate map_of_updateMany usedInOf_def Media_findById_def
      event_usage_on_def push_usedIn_def split: option.splits)
  done

lemma restoreBlog_skips:
  assumes "map_of (blogs st) (params_id req) = Some e" "isDeleted e" "blog_validate e = None"
  shows "\<exists>st'. restoreBlog env req st =
           (Inr (Response 200 ''Blog restored successfully''
                  (Some (blog_populate (medias st') (e\<lparr>isDeleted := False, deletedAt := None\<rparr>)))), st')
     \<and> map_of (blogs st') (params_id req) = Some (e\<lparr>isDeleted := False, deletedAt := None\<rparr>)
     \<and> (\<forall>a. map_of (medias st) a = None \<longrightarrow> map_of (medias st') a = None)
     \<and> (\<forall>a m. (heroImage e = Some a \<or> video e = Some a) \<and> a \<notin> set (gallery e)
             \<and> map_of (medias st) a = Some m \<and> media.isDeleted m
            \<longrightarrow> map_of (medias st') a = Some m)
     \<and> (\<forall>a. Media_findById (medias st) a \<noteq> None \<longrightarrow>
            usedInOf (medias st') a = usedInOf (medias st) a @ blog_usage_on (params_id req) e a)"
  using assms
  apply (simp add: restoreBlog_result Let_def map_of_updateWhere)
  apply (auto simp: map_of_findByIdAndUpdate map_of_updateMany usedInOf_def Media_findById_def
      blog_usage_on_def push_usedIn_def split: option.splits)
  done

lemma isDeleted_push [simp]: "media.isDeleted (push_usedIn u m) = media.isDeleted m"
  by (simp add: push_usedIn_def)

lemma isDeleted_pull [simp]: "media.isDeleted (pull_usedIn a b c m) = media.isDeleted m"
  by (simp add: pull_usedIn_def)

lemma usedIn_push [simp]: "usedIn (push_usedIn u m) = usedIn m @ [u]"
  by (simp add: push_usedIn_def)

lemma usedIn_pull [simp]:
  "usedIn (pull_usedIn a b c m) = filter (\<lambda>u. \<not> pull_matches a b c u) (usedIn m)"
  by (simp add: pull_usedIn_def)

lemma usedInOf_Some: "map_of c a = Some m \<Longrightarrow> usedInOf c a = usedIn m"
  by (simp add: usedInOf_def)

lemma restoreBlog_medias:
  assumes "map_of (blogs st) (params_id req) = Some e" "isDeleted e" "blog_validate e = None"
  shows "map_of (medias (snd (restoreBlog env req st))) a =
     map_option (\<lambda>m.
        let m1 = (if heroImage e = Some a \<and> \<not> media.isDeleted m
                  then push_usedIn (usageOf ''Blog'' (params_id req) ''heroImage'') m else m);
            m2 = (if a \<in> set (gallery e)
                  then push_usedIn (usageOf ''Blog'' (params_id req) ''gallery'') m1 else m1)
        in if video e = Some a \<and> \<not> media.isDeleted m
           then push_usedIn (usageOf ''Blog'' (params_id req) ''video'') m2 else m2)
       (map_of (medias st) a)"
proof (cases "map_of (medias st) a")
  case None
  then show ?thesis using assms
    by (simp add: restoreBlog_result Let_def map_of_findByIdAndUpdate map_of_updateMany
        split: option.splits)
next
  case (Some m)
  then show ?thesis using assms
    by (cases "heroImage e"; cases "video e")
       (simp_all add: restoreBlog_result Let_def map_of_findByIdAndUpdate map_of_updateMany)
qed

lemma deleteBlog_medias:
  assumes "map_of (blogs st) (params_id req) = Some e" "\<not> isDeleted e" "blog_validate e = None"
  shows "map_of (medias (snd (deleteBlog env req st))) a =
     map_option (\<lambda>m. if a \<in> blog_refs e then pull_usedIn ''Blog'' (params_id req) None m else m)
       (map_of (medias st) a)"
  using assms
  by (cases "heroImage e"; cases "video e")
     (auto simp add: deleteBlog_result Let_def map_of_updateMany blog_refs_def
       intro!: option.map_cong)

lemma restoreEvent_medias:
  assumes "map_of (events st) (params_id req) = Some e" "isDeleted e" "event_validate e = None"
  shows "map_of (medias (snd (restoreEvent env req st))) a =
     map_option (\<lambda>m.
        let m1 = (if heroImage e = Some a \<and> \<not> media.isDeleted m
                  then push_usedIn (usageOf ''Event'' (params_id req) ''heroImage'') m else m)
        in if a \<in> set (gallery e)
           then push_usedIn (usageOf ''Event'' (params_id req) ''gallery'') m1 else m1)
       (map_of (medias st) a)"
proof (cases "map_of (medias st) a")
  case None
  then show ?thesis using assms
    by (simp add: restoreEvent_result Let_def map_of_findByIdAndUpdate map_of_updateMany
        split: option.splits)
next
  case (Some m)
  then show ?thesis using assms
    by (cases "heroImage e")
       (simp_all add: restoreEvent_result Let_def map_of_findByIdAndUpdate map_of_updateMany)
qed

lemma deleteEvent_medias:
  assumes "map_of (events st) (params_id req) = Some e" "\<not> isDeleted e" "event_validate e = None"
  shows "map_of (medias (snd (deleteEvent env req st))) a =
     map_option (\<lambda>m. if a \<in> event_refs e then pull_usedIn ''Event'' (params_id req) None m else m)
       (map_of (medias st) a)"
  using assms
  by (cases "heroImage e")
     (auto simp add: deleteEvent_result Let_def map_of_updateMany event_refs_def
       intro!: option.map_cong)

lemma deleteEvent_events:
  assumes "map_of (events st) (params_id req) = Some e" "\<not> isDeleted e" "event_validate e = None"
  shows "map_of (events (snd (deleteEvent env req st))) (params_id req)
           = Some (e\<lparr>isDeleted := True, deletedAt := Some (now env)\<rparr>)"
    and "fst (deleteEvent env req st) = Inr (Response 200 ''Event deleted successfully'' None)"
  using assms by (simp_all add: deleteEvent_result Let_def map_of_updateWhere)

lemma deleteBlog_blogs:
  assumes "map_of (blogs st) (params_id req) = Some e" "\<not> isDeleted e" "blog_validate e = None"
  shows "map_of (blogs (snd (deleteBlog env req st))) (params_id req)
           = Some (e\<lparr>isDeleted := True, deletedAt := Some (now env)\<rparr>)"
    and "fst (deleteBlog env req st) = Inr (Response 200 ''Blog deleted successfully'' None)"
  using assms by (simp_all add: deleteBlog_result Let_def map_of_updateWhere)

lemma restoreEvent_events:
  assumes "map_of (events st) (params_id req) = Some e" "isDeleted e" "event_validate e = None"
  shows "map_of (events (snd (restoreEvent env req st))) (params_id req)
           = Some (e\<lparr>isDeleted := False, deletedAt := None\<rparr>)"
    and "fst (restoreEvent env req st) = Inr (Response 200 ''Event restored successfully''
           (Some (event_populate (medias (snd (restoreEvent env req st)))
                    (e\<lparr>isDeleted := False, deletedAt := None\<rparr>))))"
  using assms by (simp_all add: restoreEvent_result Let_def map_of_updateWhere)

lemma restoreBlog_blogs:
  assumes "map_of (blogs st) (params_id req) = Some e" "isDeleted e" "blog_validate e = None"
  shows "map_of (blogs (snd (restoreBlog env req st))) (params_id req)
           = Some (e\<lparr>isDeleted := False, deletedAt := None\<rparr>)"
    and "fst (restoreBlog env req st) = Inr (Response 200 ''Blog restored successfully''
           (Some (blog_populate (medias (snd (restoreBlog env req st)))
                    (e\<lparr>isDeleted := False, deletedAt := None\<rparr>))))"
  using assms by (simp_all add: restoreBlog_result Let_def map_of_updateWhere)

lemma count_list_split:
  "count_list (filter (\<lambda>u. \<not> P u) xs) x + count_list (filter P xs) x = count_list xs x"
  by (induction xs) auto

lemma event_roundtrip:
  assumes found: "map_of (events st) (params_id req) = Some e"
      and live: "\<not> isDeleted e"
      and valid: "event_validate e = None"
      and assets: "\<forall>a \<in> event_refs e. Media_findById (medias st) a \<noteq> None"
      and tracked: "\<forall>a \<in> event_refs e.
            (\<forall>u. count_list (filter (pull_matches ''Event'' (params_id req) None) (usedInOf (medias st) a)) u
                  = count_list (event_usage_on (params_id req) e a) u)"
  shows "\<exists>r1 st1 r2 st2.
            deleteEvent env1 req st = (Inr r1, st1)
          \<and> restoreEvent env2 req st1 = (Inr r2, st2)
          \<and> map_of (events st2) (params_id req) = Some (e\<lparr>isDeleted := False, deletedAt := None\<rparr>)
          \<and> (\<forall>a \<in> event_refs e. \<forall>u. count_list (usedInOf (medias st2) a) u = count_list (usedInOf (medias st) a) u)
          \<and> (\<forall>a. a \<notin> event_refs e \<longrightarrow> map_of (medias st2) a = map_of (medias st) a)"
proof -
  let ?i = "params_id req"
  let ?e1 = "e\<lparr>isDeleted := True, deletedAt := Some (now env1)\<rparr>"
  let ?st1 = "snd (deleteEvent env1 req st)"
  let ?st2 = "snd (restoreEvent env2 req ?st1)"
  note d = deleteEvent_events [OF found live valid, of env1]
  have del1: "isDeleted ?e1" and val1: "event_validate ?e1 = None"
    using valid by (simp_all add: event_validate_lifecycle)
  note r = restoreEvent_events [OF d(1) del1 val1, of env2]
  have ms: "map_of (medias ?st2) a =
      map_option (\<lambda>m.
        let m0 = (if a \<in> event_refs e then pull_usedIn ''Event'' ?i None m else m);
            m1 = (if heroImage e = Some a \<and> \<not> media.isDeleted m
                  then push_usedIn (usageOf ''Event'' ?i ''heroImage'') m0 else m0)
        in if a \<in> set (gallery e)
           then push_usedIn (usageOf ''Event'' ?i ''gallery'') m1 else m1) (map_of (medias st) a)" for a
    by (cases "a \<in> event_refs e")
       (simp_all add: restoreEvent_medias [OF d(1) del1 val1] deleteEvent_medias [OF found live valid]
        option.map_comp o_def Let_def cong: if_cong)
  have other: "\<forall>a. a \<notin> event_refs e \<longrightarrow> map_of (medias ?st2) a = map_of (medias st) a"
    by (auto simp: ms event_refs_def option.map_ident)
  have same: "\<forall>a \<in> event_refs e. \<forall>u. count_list (usedInOf (medias ?st2) a) u = count_list (usedInOf (medias st) a) u"
  proof (intro ballI allI)
    fix a u assume a: "a \<in> event_refs e"
    then obtain m where m: "map_of (medias st) a = Some m" "\<not> media.isDeleted m"
      using assets by (auto simp: Media_findById_def split: option.splits if_splits)
    have uo: "usedInOf (medias st) a = usedIn m"
      using m by (simp add: usedInOf_def)
    from tracked a
    have "count_list (filter (pull_matches ''Event'' ?i None) (usedInOf (medias st) a)) u
            = count_list (event_usage_on ?i e a) u"
      by blast
    then have t: "count_list (event_usage_on ?i e a) u
            = count_list (filter (pull_matches ''Event'' ?i None) (usedIn m)) u"
      by (simp only: uo)
    have u2: "usedInOf (medias ?st2) a
             = filter (\<lambda>u. \<not> pull_matches ''Event'' ?i None u) (usedIn m) @ event_usage_on ?i e a"
      using m a by (simp add: usedInOf_def ms Let_def event_usage_on_def)
    have "count_list (usedInOf (medias ?st2) a) u
          = count_list (filter (\<lambda>u. \<not> pull_matches ''Event'' ?i None u) (usedIn m)) u
            + count_list (filter (pull_matches ''Event'' ?i None) (usedIn m)) u"
      by (simp only: u2 t count_list_append)
    also have "\<dots> = count_list (usedIn m) u" by (rule count_list_split)
    finally show "count_list (usedInOf (medias ?st2) a) u = count_list (usedInOf (medias st) a) u"
      by (simp only: uo)
  qed
  have "deleteEvent env1 req st = (Inr (Response 200 ''Event deleted successfully'' None), ?st1)"
    using d(2) by (simp add: prod_eq_iff)
  moreover have "restoreEvent env2 req ?st1 = (Inr (Response 200 ''Event restored successfully''
           (Some (event_populate (medias ?st2) (?e1\<lparr>isDeleted := False, deletedAt := None\<rparr>)))), ?st2)"
    using r(2) by (simp add: prod_eq_iff)
  moreover have "map_of (events ?st2) ?i = Some (e\<lparr>isDeleted := False, deletedAt := None\<rparr>)"
    using r(1) by simp
  ultimately show ?thesis using same other by blast
qed

lemma blog_roundtrip:
  assumes found: "map_of (blogs st) (params_id req) = Some e"
      and live: "\<not> isDeleted e"
      and valid: "blog_validate e = None"
      and assets: "\<forall>a \<in> blog_refs e. Media_findById (medias st) a \<noteq> None"
      and tracked: "\<forall>a \<in> blog_refs e.
            (\<forall>u. count_list (filter (pull_matches ''Blog'' (params_id req) None) (usedInOf (medias st) a)) u
                  = count_list (blog_usage_on (params_id req) e a) u)"
  shows "\<exists>r1 st1 r2 st2.
            deleteBlog env1 req st = (Inr r1, st1)
          \<and> restoreBlog env2 req st1 = (Inr r2, st2)
          \<and> map_of (blogs st2) (params_id req) = Some (e\<lparr>isDeleted := False, deletedAt := None\<rparr>)
          \<and> (\<forall>a \<in> blog_refs e. \<forall>u. count_list (usedInOf (medias st2) a) u = count_list (usedInOf (medias st) a) u)
          \<and> (\<forall>a. a \<notin> blog_refs e \<longrightarrow> map_of (medias st2) a = map_of (medias st) a)"
proof -
  let ?i = "params_id req"
  let ?e1 = "e\<lparr>isDeleted := True, deletedAt := Some (now env1)\<rparr>"
  let ?st1 = "snd (deleteBlog env1 req st)"
  let ?st2 = "snd (restoreBlog env2 req ?st1)"
  note d = deleteBlog_blogs [OF found live valid, of env1]
  have del1: "isDeleted ?e1" and val1: "blog_validate ?e1 = None"
    using valid by (simp_all add: blog_validate_lifecycle)
  note r = restoreBlog_blogs [OF d(1) del1 val1, of env2]
  have ms: "map_of (medias ?st2) a =
      map_option (\<lambda>m.
        let m0 = (if a \<in> blog_refs e then pull_usedIn ''Blog'' ?i None m else m);
            m1 = (if heroImage e = Some a \<and> \<not> media.isDeleted m
                  then push_usedIn (usageOf ''Blog'' ?i ''heroImage'') m0 else m0);
            m2 = (if a \<in> set (gallery e)
                  then push_usedIn (usageOf ''Blog'' ?i ''gallery'') m1 else m1)
        in if video e = Some a \<and> \<not> media.isDeleted m
           then push_usedIn (usageOf ''Blog'' ?i ''video'') m2 else m2) (map_of (medias st) a)" for a
    by (cases "a \<in> blog_refs e")
       (simp_all add: restoreBlog_medias [OF d(1) del1 val1] deleteBlog_medias [OF found live valid]
        option.map_comp o_def Let_def cong: if_cong)
  have other: "\<forall>a. a \<notin> blog_refs e \<longrightarrow> map_of (medias ?st2) a = map_of (medias st) a"
    by (auto simp: ms blog_refs_def option.map_ident)
  have same: "\<forall>a \<in> blog_refs e. \<forall>u. count_list (usedInOf (medias ?st2) a) u = count_list (usedInOf (medias st) a) u"
  proof (intro ballI allI)
    fix a u assume a: "a \<in> blog_refs e"
    then obtain m where m: "map_of (medias st) a = Some m" "\<not> media.isDeleted m"
      using assets by (auto simp: Media_findById_def split: option.splits if_splits)
    have uo: "usedInOf (medias st) a = usedIn m"
      using m by (simp add: usedInOf_def)
    from tracked a
    have "count_list (filter (pull_matches ''Blog'' ?i None) (usedInOf (medias st) a)) u
            = count_list (blog_usage_on ?i e a) u"
      by blast
    then have t: "count_list (blog_usage_on ?i e a) u
            = count_list (filter (pull_matches ''Blog'' ?i None) (usedIn m)) u"
      by (simp only: uo)
    have u2: "usedInOf (medias ?st2) a
             = filter (\<lambda>u. \<not> pull_matches ''Blog'' ?i None u) (usedIn m) @ blog_usage_on ?i e a"
      using m a by (simp add: usedInOf_def ms Let_def blog_usage_on_def)
    have "count_list (usedInOf (medias ?st2) a) u
          = count_list (filter (\<lambda>u. \<not> pull_matches ''Blog'' ?i None u) (usedIn m)) u
            + count_list (filter (pull_matches ''Blog'' ?i None) (usedIn m)) u"
      by (simp only: u2 t count_list_append)
    also have "\<dots> = count_list (usedIn m) u" by (rule count_list_split)
    finally show "count_list (usedInOf (medias ?st2) a) u = count_list (usedInOf (medias st) a) u"
      by (simp only: uo)
  qed
  have "deleteBlog env1 req st = (Inr (Response 200 ''Blog deleted successfully'' None), ?st1)"
    using d(2) by (simp add: prod_eq_iff)
  moreover have "restoreBlog env2 req ?st1 = (Inr (Response 200 ''Blog restored successfully''
           (Some (blog_populate (medias ?st2) (?e1\<lparr>isDeleted := False, deletedAt := None\<rparr>)))), ?st2)"
    using r(2) by (simp add: prod_eq_iff)
  moreover have "map_of (blogs ?st2) ?i = Some (e\<lparr>isDeleted := False, deletedAt := None\<rparr>)"
    using r(1) by simp
  ultimately show ?thesis using same other by blast
qed

section \<open>The effect of an update on the usage entries\<close>

lemma updateMany_guard:
  "(if ids \<noteq> [] then Media_updateMany_in ids upd c else c) = Media_updateMany_in ids upd c"
  by (simp add: updateMany_nil)

lemma updateEvent_Inr:
  assumes "updateEvent env req st = (Inr r, st')"
  shows "\<exists>e0 e1. Event_findById False (events st) (params_id req) = Some e0
          \<and> map_of (events st') (params_id req) = Some e1
          \<and> medias st' =
             (let i = params_id req;
                  ms1 = (case heroImage e0 of None \<Rightarrow> medias st
                         | Some a \<Rightarrow> if Some a \<noteq> heroImage e1
                             then Media_findByIdAndUpdate a (pull_usedIn ''Event'' i (Some ''heroImage'')) (medias st)
                             else medias st);
                  ms2 = (case heroImage e1 of None \<Rightarrow> ms1
                         | Some b \<Rightarrow> if heroImage e0 \<noteq> Some b
                             then Media_findByIdAndUpdate b (push_usedIn (usageOf ''Event'' i ''heroImage'')) ms1
                             else ms1);
                  ms3 = Media_updateMany_in (filter (\<lambda>g. g \<notin> set (gallery e1)) (gallery e0))
                          (pull_usedIn ''Event'' i (Some ''gallery'')) ms2
              in Media_updateMany_in (filter (\<lambda>g. g \<notin> set (gallery e0)) (gallery e1))
                          (push_usedIn (usageOf ''Event'' i ''gallery'')) ms3)"
proof -
  from assms obtain e0 where f: "Event_findById False (events st) (params_id req) = Some e0"
    by (auto simp: updateEvent_def split: option.splits)
  then have k: "map_of (events st) (params_id req) = Some e0"
    by (auto simp: Event_findById_def split: option.splits if_splits)
  from assms f obtain asg where a: "event_assign e0 (filter (\<lambda>(k, v). k \<noteq> ''updatedBy'') (body req)
                      @ [(''updatedBy'', JStr (user_id req))]) = Some asg"
    by (auto simp: updateEvent_def Let_def split: option.splits)
  from assms f a obtain e1 evs where s: "Event_save env (events st) (params_id req) e0 asg = Inr (e1, evs)"
    by (auto simp: updateEvent_def Let_def split: option.splits sum.splits)
  have evs: "evs = updateWhere (\<lambda>k e. k = params_id req) (\<lambda>e. e1) (events st)"
    using Event_save_Inr(2) [OF s] .
  have m: "map_of evs (params_id req) = Some e1"
    using k by (simp add: evs map_of_updateWhere)
  have "updateEvent env req st = (Inr (Response 200 ''Event updated successfully''
            (Some (event_populate (let i = params_id req;
                  ms1 = (case heroImage e0 of None \<Rightarrow> medias st
                         | Some a \<Rightarrow> if Some a \<noteq> heroImage e1
                             then Media_findByIdAndUpdate a (pull_usedIn ''Event'' i (Some ''heroImage'')) (medias st)
                             else medias st);
                  ms2 = (case heroImage e1 of None \<Rightarrow> ms1
                         | Some b \<Rightarrow> if heroImage e0 \<noteq> Some b
                             then Media_findByIdAndUpdate b (push_usedIn (usageOf ''Event'' i ''heroImage'')) ms1
                             else ms1);
                  ms3 = Media_updateMany_in (filter (\<lambda>g. g \<notin> set (gallery e1)) (gallery e0))
                          (pull_usedIn ''Event'' i (Some ''gallery'')) ms2
              in Media_updateMany_in (filter (\<lambda>g. g \<notin> set (gallery e0)) (gallery e1))
                          (push_usedIn (usageOf ''Event'' i ''gallery'')) ms3) e1))),
          st\<lparr>events := evs, medias :=
             (let i = params_id req;
                  ms1 = (case heroImage e0 of None \<Rightarrow> medias st
                         | Some a \<Rightarrow> if Some a \<noteq> heroImage e1
                             then Media_findByIdAndUpdate a (pull_usedIn ''Event'' i (Some ''heroImage'')) (medias st)
                             else medias st);
                  ms2 = (case heroImage e1 of None \<Rightarrow> ms1
                         | Some b \<Rightarrow> if heroImage e0 \<noteq> Some b
                             then Media_findByIdAndUpdate b (push_usedIn (usageOf ''Event'' i ''heroImage'')) ms1
                             else ms1);
                  ms3 = Media_updateMany_in (filter (\<lambda>g. g \<notin> set (gallery e1)) (gallery e0))
                          (pull_usedIn ''Event'' i (Some ''gallery'')) ms2
              in Media_updateMany_in (filter (\<lambda>g. g \<notin> set (gallery e0)) (gallery e1))
                          (push_usedIn (usageOf ''Event'' i ''gallery'')) ms3)\<rparr>)"
    unfolding updateEvent_def
    by (simp add: f a s Let_def list_ex_iff updateMany_guard cong: option.case_cong)
  with assms have st': "st' = st\<lparr>events := evs, medias :=
             (let i = params_id req;
                  ms1 = (case heroImage e0 of None \<Rightarrow> medias st
                         | Some a \<Rightarrow> if Some a \<noteq> heroImage e1
                             then Media_findByIdAndUpdate a (pull_usedIn ''Event'' i (Some ''heroImage'')) (medias st)
                             else medias st);
                  ms2 = (case heroImage e1 of None \<Rightarrow> ms1
                         | Some b \<Rightarrow> if heroImage e0 \<noteq> Some b
                             then Media_findByIdAndUpdate b (push_usedIn (usageOf ''Event'' i ''heroImage'')) ms1
                             else ms1);
                  ms3 = Media_updateMany_in (filter (\<lambda>g. g \<notin> set (gallery e1)) (gallery e0))
                          (pull_usedIn ''Event'' i (Some ''gallery'')) ms2
              in Media_updateMany_in (filter (\<lambda>g. g \<notin> set (gallery e0)) (gallery e1))
                          (push_usedIn (usageOf ''Event'' i ''gallery'')) ms3)\<rparr>"
    by simp
  show ?thesis
    using f m by (subst st', subst st') (simp add: Let_def)
qed


lemma updateBlog_Inr:
  assumes "updateBlog env req st = (Inr r, st')"
  shows "\<exists>e0 e1. Blog_findById False (blogs st) (params_id req) = Some e0
          \<and> map_of (blogs st') (params_id req) = Some e1
          \<and> medias st' =
             (let i = params_id req;
                  ms1 = (case heroImage e0 of None \<Rightarrow> medias st
                         | Some a \<Rightarrow> if Some a \<noteq> heroImage e1
                             then Media_findByIdAndUpdate a (pull_usedIn ''Blog'' i (Some ''heroImage'')) (medias st)
                             else medias st);
                  ms2 = (case heroImage e1 of None \<Rightarrow> ms1
                         | Some b \<Rightarrow> if heroImage e0 \<noteq> Some b
                             then Media_findByIdAndUpdate b (push_usedIn (usageOf ''Blog'' i ''heroImage'')) ms1
                             else ms1);
                  ms3 = Media_updateMany_in (filter (\<lambda>g. g \<notin> set (gallery e1)) (gallery e0))
                          (pull_usedIn ''Blog'' i (Some ''gallery'')) ms2;
                  ms4 = Media_updateMany_in (filter (\<lambda>g. g \<notin> set (gallery e0)) (gallery e1))
                          (push_usedIn (usageOf ''Blog'' i ''gallery'')) ms3;
                  ms5 = (case video e0 of None \<Rightarrow> ms4
                         | Some a \<Rightarrow> if Some a \<noteq> video e1
                             then Media_findByIdAndUpdate a (pull_usedIn ''Blog'' i (Some ''video'')) ms4
                             else ms4)
              in (case video e1 of None \<Rightarrow> ms5
                         | Some b \<Rightarrow> if video e0 \<noteq> Some b
                             then Media_findByIdAndUpdate b (push_usedIn (usageOf ''Blog'' i ''video'')) ms5
                             else ms5))"
proof -
  from assms obtain e0 where f: "Blog_findById False (blogs st) (params_id req) = Some e0"
    by (auto simp: updateBlog_def split: option.splits)
  then have k: "map_of (blogs st) (params_id req) = Some e0"
    by (auto simp: Blog_findById_def split: option.splits if_splits)
  from assms f obtain asg where a: "blog_assign e0 (filter (\<lambda>(k, v). k \<noteq> ''updatedBy'') (body req)
                      @ [(''updatedBy'', JStr (user_id req))]) = Some asg"
    by (auto simp: updateBlog_def Let_def split: option.splits)
  from assms f a obtain e1 evs where s: "Blog_save env (blogs st) (params_id req) e0 asg = Inr (e1, evs)"
    by (auto simp: updateBlog_def Let_def split: option.splits sum.splits)
  have evs: "evs = updateWhere (\<lambda>k e. k = params_id req) (\<lambda>e. e1) (blogs st)"
    using Blog_save_Inr(2) [OF s] .
  have m: "map_of evs (params_id req) = Some e1"
    using k by (simp add: evs map_of_updateWhere)
  have "updateBlog env req st = (Inr (Response 200 ''Blog updated successfully''
            (Some (blog_populate (let i = params_id req;
                  ms1 = (case heroImage e0 of None \<Rightarrow> medias st
                         | Some a \<Rightarrow> if Some a \<noteq> heroImage e1
                             then Media_findByIdAndUpdate a (pull_usedIn ''Blog'' i (Some ''heroImage'')) (medias st)
                             else medias st);
                  ms2 = (case heroImage e1 of None \<Rightarrow> ms1
                         | Some b \<Rightarrow> if heroImage e0 \<noteq> Some b
                             then Media_findByIdAndUpdate b (push_usedIn (usageOf ''Blog'' i ''heroImage'')) ms1
                             else ms1);
                  ms3 = Media_updateMany_in (filter (\<lambda>g. g \<notin> set (gallery e1)) (gallery e0))
                          (pull_usedIn ''Blog'' i (Some ''gallery'')) ms2;
                  ms4 = Media_updateMany_in (filter (\<lambda>g. g \<notin> set (gallery e0)) (gallery e1))
                          (push_usedIn (usageOf ''Blog'' i ''gallery'')) ms3;
                  ms5 = (case video e0 of None \<Rightarrow> ms4
                         | Some a \<Rightarrow> if Some a \<noteq> video e1
                             then Media_findByIdAndUpdate a (pull_usedIn ''Blog'' i (Some ''video'')) ms4
                             else ms4)
              in (case video e1 of None \<Rightarrow> ms5
                         | Some b \<Rightarrow> if video e0 \<noteq> Some b
                             then Media_findByIdAndUpdate b (push_usedIn (usageOf ''Blog'' i ''video'')) ms5
                             else ms5)) e1))),
          st\<lparr>blogs := evs, medias :=
             (let i = params_id req;
                  ms1 = (case heroImage e0 of None \<Rightarrow> medias st
                         | Some a \<Rightarrow> if Some a \<noteq> heroImage e1
                             then Media_findByIdAndUpdate a (pull_usedIn ''Blog'' i (Some ''heroImage'')) (medias st)
                             else medias st);
                  ms2 = (case heroImage e1 of None \<Rightarrow> ms1
                         | Some b \<Rightarrow> if heroImage e0 \<noteq> Some b
                             then Media_findByIdAndUpdate b (push_usedIn (usageOf ''Blog'' i ''heroImage'')) ms1
                             else ms1);
                  ms3 = Media_updateMany_in (filter (\<lambda>g. g \<notin> set (gallery e1)) (gallery e0))
                          (pull_usedIn ''Blog'' i (Some ''gallery'')) ms2;
                  ms4 = Media_updateMany_in (filter (\<lambda>g. g \<notin> set (gallery e0)) (gallery e1))
                          (push_usedIn (usageOf ''Blog'' i ''gallery'')) ms3;
                  ms5 = (case video e0 of None \<Rightarrow> ms4
                         | Some a \<Rightarrow> if Some a \<noteq> video e1
                             then Media_findByIdAndUpdate a (pull_usedIn ''Blog'' i (Some ''video'')) ms4
                             else ms4)
              in (case video e1 of None \<Rightarrow> ms5
                         | Some b \<Rightarrow> if video e0 \<noteq> Some b
                             then Media_findByIdAndUpdate b (push_usedIn (usageOf ''Blog'' i ''video'')) ms5
                             else ms5))\<rparr>)"
    unfolding updateBlog_def
    by (simp add: f a s Let_def list_ex_iff updateMany_guard cong: option.case_cong)
  with assms have st': "st' = st\<lparr>blogs := evs, medias :=
             (let i = params_id req;
                  ms1 = (case heroImage e0 of None \<Rightarrow> medias st
                         | Some a \<Rightarrow> if Some a \<noteq> heroImage e1
                             then Media_findByIdAndUpdate a (pull_usedIn ''Blog'' i (Some ''heroImage'')) (medias st)
                             else medias st);
                  ms2 = (case heroImage e1 of None \<Rightarrow> ms1
                         | Some b \<Rightarrow> if heroImage e0 \<noteq> Some b
                             then Media_findByIdAndUpdate b (push_usedIn (usageOf ''Blog'' i ''heroImage'')) ms1
                             else ms1);
                  ms3 = Media_updateMany_in (filter (\<lambda>g. g \<notin> set (gallery e1)) (gallery e0))
                          (pull_usedIn ''Blog'' i (Some ''gallery'')) ms2;
                  ms4 = Media_updateMany_in (filter (\<lambda>g. g \<notin> set (gallery e0)) (gallery e1))
                          (push_usedIn (usageOf ''Blog'' i ''gallery'')) ms3;
                  ms5 = (case video e0 of None \<Rightarrow> ms4
                         | Some a \<Rightarrow> if Some a \<noteq> video e1
                             then Media_findByIdAndUpdate a (pull_usedIn ''Blog'' i (Some ''video'')) ms4
                             else ms4)
              in (case video e1 of None \<Rightarrow> ms5
                         | Some b \<Rightarrow> if video e0 \<noteq> Some b
                             then Media_findByIdAndUpdate b (push_usedIn (usageOf ''Blog'' i ''video'')) ms5
                             else ms5))\<rparr>"
    by simp
  show ?thesis
    using f m by (subst st', subst st') (simp add: Let_def)
qed

lemma map_of_guarded:
  "map_of (if g then Media_findByIdAndUpdate i upd c else c) a =
     map_option (\<lambda>m. if g \<and> a = i \<and> \<not> media.isDeleted m then upd m else m) (map_of c a)"
  by (simp add: map_of_findByIdAndUpdate option.map_ident)

lemma ref_step:
  "map_of (case new of
             None \<Rightarrow> (case old of None \<Rightarrow> ms
                      | Some a \<Rightarrow> if Some a \<noteq> new
                          then Media_findByIdAndUpdate a (pull_usedIn mdl i (Some fld)) ms else ms)
           | Some b \<Rightarrow>
               if old \<noteq> Some b
               then Media_findByIdAndUpdate b (push_usedIn (usageOf mdl i fld))
                      (case old of None \<Rightarrow> ms
                       | Some a \<Rightarrow> if Some a \<noteq> new
                           then Media_findByIdAndUpdate a (pull_usedIn mdl i (Some fld)) ms else ms)
               else (case old of None \<Rightarrow> ms
                     | Some a \<Rightarrow> if Some a \<noteq> new
                         then Media_findByIdAndUpdate a (pull_usedIn mdl i (Some fld)) ms else ms)) k =
     map_option (\<lambda>m.
        let m1 = (if old = Some k \<and> new \<noteq> Some k \<and> \<not> media.isDeleted m
                  then pull_usedIn mdl i (Some fld) m else m)
        in if new = Some k \<and> old \<noteq> Some k \<and> \<not> media.isDeleted m
           then push_usedIn (usageOf mdl i fld) m1 else m1)
       (map_of ms k)"
  by (cases old; cases new)
     (auto simp add: map_of_guarded map_of_findByIdAndUpdate Let_def
          option.map_comp o_def option.map_ident intro!: option.map_cong)

lemma gallery_step:
  "map_of (Media_updateMany_in (filter (\<lambda>g. g \<notin> set old) new) (push_usedIn (usageOf mdl i fld))
            (Media_updateMany_in (filter (\<lambda>g. g \<notin> set new) old) (pull_usedIn mdl i (Some fld)) ms)) k =
     map_option (\<lambda>m.
        let m1 = (if k \<in> set old \<and> k \<notin> set new then pull_usedIn mdl i (Some fld) m else m)
        in if k \<in> set new \<and> k \<notin> set old then push_usedIn (usageOf mdl i fld) m1 else m1)
       (map_of ms k)"
  by (auto simp add: map_of_updateMany Let_def option.map_comp o_def intro!: option.map_cong)

lemma updateEvent_medias:
  assumes ok: "updateEvent env req st = (Inr r, st')"
      and old: "map_of (events st) (params_id req) = Some e0"
      and new: "map_of (events st') (params_id req) = Some e1"
  shows "map_of (medias st') a =
     map_option (\<lambda>m.
        let i = params_id req;
            m1 = (if heroImage e0 = Some a \<and> heroImage e1 \<noteq> Some a \<and> \<not> media.isDeleted m
                  then pull_usedIn ''Event'' i (Some ''heroImage'') m else m);
            m2 = (if heroImage e1 = Some a \<and> heroImage e0 \<noteq> Some a \<and> \<not> media.isDeleted m
                  then push_usedIn (usageOf ''Event'' i ''heroImage'') m1 else m1);
            m3 = (if a \<in> set (gallery e0) \<and> a \<notin> set (gallery e1)
                  then pull_usedIn ''Event'' i (Some ''gallery'') m2 else m2)
        in if a \<in> set (gallery e1) \<and> a \<notin> set (gallery e0)
           then push_usedIn (usageOf ''Event'' i ''gallery'') m3 else m3)
       (map_of (medias st) a)"
proof -
  from updateEvent_Inr [OF ok] obtain x0 x1 where
    f: "Event_findById False (events st) (params_id req) = Some x0"
    and m: "map_of (events st') (params_id req) = Some x1"
    and ms: "medias st' =
             (let i = params_id req;
                  ms1 = (case heroImage x0 of None \<Rightarrow> medias st
                         | Some a \<Rightarrow> if Some a \<noteq> heroImage x1
                             then Media_findByIdAndUpdate a (pull_usedIn ''Event'' i (Some ''heroImage'')) (medias st)
                             else medias st);
                  ms2 = (case heroImage x1 of None \<Rightarrow> ms1
                         | Some b \<Rightarrow> if heroImage x0 \<noteq> Some b
                             then Media_findByIdAndUpdate b (push_usedIn (usageOf ''Event'' i ''heroImage'')) ms1
                             else ms1);
                  ms3 = Media_updateMany_in (filter (\<lambda>g. g \<notin> set (gallery x1)) (gallery x0))
                          (pull_usedIn ''Event'' i (Some ''gallery'')) ms2
              in Media_updateMany_in (filter (\<lambda>g. g \<notin> set (gallery x0)) (gallery x1))
                          (push_usedIn (usageOf ''Event'' i ''gallery'')) ms3)"
    by blast
  have x0: "x0 = e0" using f old by (auto simp: Event_findById_def split: if_splits)
  have x1: "x1 = e1" using m new by simp
  note ms' = ms [unfolded x0 x1 Let_def]
  show ?thesis
    unfolding ms' gallery_step ref_step
    by (simp add: option.map_comp o_def Let_def)
qed

lemma updateBlog_medias:
  assumes ok: "updateBlog env req st = (Inr r, st')"
      and old: "map_of (blogs st) (params_id req) = Some e0"
      and new: "map_of (blogs st') (params_id req) = Some e1"
  shows "map_of (medias st') a =
     map_option (\<lambda>m.
        let i = params_id req;
            m1 = (if heroImage e0 = Some a \<and> heroImage e1 \<noteq> Some a \<and> \<not> media.isDeleted m
                  then pull_usedIn ''Blog'' i (Some ''heroImage'') m else m);
            m2 = (if heroImage e1 = Some a \<and> heroImage e0 \<noteq> Some a \<and> \<not> media.isDeleted m
                  then push_usedIn (usageOf ''Blog'' i ''heroImage'') m1 else m1);
            m3 = (if a \<in> set (gallery e0) \<and> a \<notin> set (gallery e1)
                  then pull_usedIn ''Blog'' i (Some ''gallery'') m2 else m2);
            m4 = (if a \<in> set (gallery e1) \<and> a \<notin> set (gallery e0)
                  then push_usedIn (usageOf ''Blog'' i ''gallery'') m3 else m3);
            m5 = (if video e0 = Some a \<and> video e1 \<noteq> Some a \<and> \<not> media.isDeleted m
                  then pull_usedIn ''Blog'' i (Some ''video'') m4 else m4)
        in if video e1 = Some a \<and> video e0 \<noteq> Some a \<and> \<not> media.isDeleted m
           then push_usedIn (usageOf ''Blog'' i ''video'') m5 else m5)
       (map_of (medias st) a)"
proof -
  from updateBlog_Inr [OF ok] obtain x0 x1 where
    f: "Blog_findById False (blogs st) (params_id req) = Some x0"
    and m: "map_of (blogs st') (params_id req) = Some x1"
    and ms: "medias st' =
             (let i = params_id req;
                  ms1 = (case heroImage x0 of None \<Rightarrow> medias st
                         | Some a \<Rightarrow> if Some a \<noteq> heroImage x1
                             then Media_findByIdAndUpdate a (pull_usedIn ''Blog'' i (Some ''heroImage'')) (medias st)
                             else medias st);
                  ms2 = (case heroImage x1 of None \<Rightarrow> ms1
                         | Some b \<Rightarrow> if heroImage x0 \<noteq> Some b
                             then Media_findByIdAndUpdate b (push_usedIn (usageOf ''Blog'' i ''heroImage'')) ms1
                             else ms1);
                  ms3 = Media_updateMany_in (filter (\<lambda>g. g \<notin> set (gallery x1)) (gallery x0))
                          (pull_usedIn ''Blog'' i (Some ''gallery'')) ms2;
                  ms4 = Media_updateMany_in (filter (\<lambda>g. g \<notin> set (gallery x0)) (gallery x1))
                          (push_usedIn (usageOf ''Blog'' i ''gallery'')) ms3;
                  ms5 = (case video x0 of None \<Rightarrow> ms4
                         | Some a \<Rightarrow> if Some a \<noteq> video x1
                             then Media_findByIdAndUpdate a (pull_usedIn ''Blog'' i (Some ''video'')) ms4
                             else ms4)
              in (case video x1 of None \<Rightarrow> ms5
                         | Some b \<Rightarrow> if video x0 \<noteq> Some b
                             then Media_findByIdAndUpdate b (push_usedIn (usageOf ''Blog'' i ''video'')) ms5
                             else ms5))"
    by blast
  have x0: "x0 = e0" using f old by (auto simp: Blog_findById_def split: if_splits)
  have x1: "x1 = e1" using m new by simp
  note ms' = ms [unfolded x0 x1 Let_def]
  show ?thesis
    unfolding ms' ref_step gallery_step option.map_comp
  proof (rule option.map_cong [OF refl])
    fix m
    show "((\<lambda>m.
        let m1 = (if video e0 = Some a \<and> video e1 \<noteq> Some a \<and> \<not> media.isDeleted m
                  then pull_usedIn ''Blog'' (params_id req) (Some ''video'') m else m)
        in if video e1 = Some a \<and> video e0 \<noteq> Some a \<and> \<not> media.isDeleted m
           then push_usedIn (usageOf ''Blog'' (params_id req) ''video'') m1 else m1) \<circ>
      ((\<lambda>m.
        let m1 = (if a \<in> set (gallery e0) \<and> a \<notin> set (gallery e1)
                  then pull_usedIn ''Blog'' (params_id req) (Some ''gallery'') m else m)
        in if a \<in> set (gallery e1) \<and> a \<notin> set (gallery e0)
           then push_usedIn (usageOf ''Blog'' (params_id req) ''gallery'') m1 else m1) \<circ>
       (\<lambda>m.
        let m1 = (if heroImage e0 = Some a \<and> heroImage e1 \<noteq> Some a \<and> \<not> media.isDeleted m
                  then pull_usedIn ''Blog'' (params_id req) (Some ''heroImage'') m else m)
        in if heroImage e1 = Some a \<and> heroImage e0 \<noteq> Some a \<and> \<not> media.isDeleted m
           then push_usedIn (usageOf ''Blog'' (params_id req) ''heroImage'') m1 else m1))) m =
     (let i = params_id req;
            m1 = (if heroImage e0 = Some a \<and> heroImage e1 \<noteq> Some a \<and> \<not> media.isDeleted m
                  then pull_usedIn ''Blog'' i (Some ''heroImage'') m else m);
            m2 = (if heroImage e1 = Some a \<and> heroImage e0 \<noteq> Some a \<and> \<not> media.isDeleted m
                  then push_usedIn (usageOf ''Blog'' i ''heroImage'') m1 else m1);
            m3 = (if a \<in> set (gallery e0) \<and> a \<notin> set (gallery e1)
                  then pull_usedIn ''Blog'' i (Some ''gallery'') m2 else m2);
            m4 = (if a \<in> set (gallery e1) \<and> a \<notin> set (gallery e0)
                  then push_usedIn (usageOf ''Blog'' i ''gallery'') m3 else m3);
            m5 = (if video e0 = Some a \<and> video e1 \<noteq> Some a \<and> \<not> media.isDeleted m
                  then pull_usedIn ''Blog'' i (Some ''video'') m4 else m4)
        in if video e1 = Some a \<and> video e0 \<noteq> Some a \<and> \<not> media.isDeleted m
           then push_usedIn (usageOf ''Blog'' i ''video'') m5 else m5)"
      by (cases "media.isDeleted m")
         (simp_all add: Let_def if_distrib [of media.isDeleted] cong: if_cong)
  qed
qed

lemma updateEvent_delta:
  assumes ok: "updateEvent env req st = (Inr r, st')"
      and old: "map_of (events st) (params_id req) = Some e0"
      and new: "map_of (events st') (params_id req) = Some e1"
  shows "(\<forall>a b. heroImage e0 = Some a \<and> heroImage e1 = Some b \<and> a \<noteq> b \<longrightarrow>
            ((\<forall>m. map_of (medias st) a = Some m \<longrightarrow> \<not> media.isDeleted m) \<longrightarrow>
               usageOf ''Event'' (params_id req) ''heroImage'' \<notin> set (usedInOf (medias st') a))
          \<and> (Media_findById (medias st) b \<noteq> None \<longrightarrow>
               usageOf ''Event'' (params_id req) ''heroImage'' \<in> set (usedInOf (medias st') b)))
       \<and> (\<forall>g. g \<in> set (gallery e0) \<and> g \<in> set (gallery e1) \<longrightarrow>
            count_list (usedInOf (medias st') g) (usageOf ''Event'' (params_id req) ''gallery'')
              = count_list (usedInOf (medias st) g) (usageOf ''Event'' (params_id req) ''gallery''))
       \<and> (heroImage e1 = heroImage e0 \<and> set (gallery e1) = set (gallery e0) \<longrightarrow>
            (\<forall>a. map_of (medias st') a = map_of (medias st) a))"
proof -
  note ms = updateEvent_medias [OF ok old new]
  have hero: "\<forall>a b. heroImage e0 = Some a \<and> heroImage e1 = Some b \<and> a \<noteq> b \<longrightarrow>
            ((\<forall>m. map_of (medias st) a = Some m \<longrightarrow> \<not> media.isDeleted m) \<longrightarrow>
               usageOf ''Event'' (params_id req) ''heroImage'' \<notin> set (usedInOf (medias st') a))
          \<and> (Media_findById (medias st) b \<noteq> None \<longrightarrow>
               usageOf ''Event'' (params_id req) ''heroImage'' \<in> set (usedInOf (medias st') b))"
    by (auto simp: ms usedInOf_def Media_findById_def Let_def pull_matches_def usageOf_def
        split: option.splits if_splits)
  have gal: "\<forall>g. g \<in> set (gallery e0) \<and> g \<in> set (gallery e1) \<longrightarrow>
            count_list (usedInOf (medias st') g) (usageOf ''Event'' (params_id req) ''gallery'')
              = count_list (usedInOf (medias st) g) (usageOf ''Event'' (params_id req) ''gallery'')"
    by (auto simp: ms usedInOf_def Let_def pull_matches_def usageOf_def count_list_filter
        split: option.splits)
  have same: "heroImage e1 = heroImage e0 \<and> set (gallery e1) = set (gallery e0) \<longrightarrow>
            (\<forall>a. map_of (medias st') a = map_of (medias st) a)"
  proof (intro impI allI)
    fix a assume h: "heroImage e1 = heroImage e0 \<and> set (gallery e1) = set (gallery e0)"
    have "map_of (medias st') a = map_option (\<lambda>m. m) (map_of (medias st) a)"
      unfolding ms using h by (intro option.map_cong refl) (auto simp: Let_def)
    then show "map_of (medias st') a = map_of (medias st) a"
      by (simp add: option.map_ident)
  qed
  from hero gal same show ?thesis by blast
qed

lemma updateBlog_delta:
  assumes ok: "updateBlog env req st = (Inr r, st')"
      and old: "map_of (blogs st) (params_id req) = Some e0"
      and new: "map_of (blogs st') (params_id req) = Some e1"
  shows "(\<forall>a b. heroImage e0 = Some a \<and> heroImage e1 = Some b \<and> a \<noteq> b \<longrightarrow>
            ((\<forall>m. map_of (medias st) a = Some m \<longrightarrow> \<not> media.isDeleted m) \<longrightarrow>
               usageOf ''Blog'' (params_id req) ''heroImage'' \<notin> set (usedInOf (medias st') a))
          \<and> (Media_findById (medias st) b \<noteq> None \<longrightarrow>
               usageOf ''Blog'' (params_id req) ''heroImage'' \<in> set (usedInOf (medias st') b)))
       \<and> (\<forall>g. g \<in> set (gallery e0) \<and> g \<in> set (gallery e1) \<longrightarrow>
            count_list (usedInOf (medias st') g) (usageOf ''Blog'' (params_id req) ''gallery'')
              = count_list (usedInOf (medias st) g) (usageOf ''Blog'' (params_id req) ''gallery''))
       \<and> (heroImage e1 = heroImage e0 \<and> set (gallery e1) = set (gallery e0) \<and> video e1 = video e0 \<longrightarrow>
            (\<forall>a. map_of (medias st') a = map_of (medias st) a))"
proof -
  note ms = updateBlog_medias [OF ok old new]
  have hero: "\<forall>a b. heroImage e0 = Some a \<and> heroImage e1 = Some b \<and> a \<noteq> b \<longrightarrow>
            ((\<forall>m. map_of (medias st) a = Some m \<longrightarrow> \<not> media.isDeleted m) \<longrightarrow>
               usageOf ''Blog'' (params_id req) ''heroImage'' \<notin> set (usedInOf (medias st') a))
          \<and> (Media_findById (medias st) b \<noteq> None \<longrightarrow>
               usageOf ''Blog'' (params_id req) ''heroImage'' \<in> set (usedInOf (medias st') b))"
    by (auto simp: ms usedInOf_def Media_findById_def Let_def pull_matches_def usageOf_def
        split: option.splits if_splits)
  have gal: "\<forall>g. g \<in> set (gallery e0) \<and> g \<in> set (gallery e1) \<longrightarrow>
            count_list (usedInOf (medias st') g) (usageOf ''Blog'' (params_id req) ''gallery'')
              = count_list (usedInOf (medias st) g) (usageOf ''Blog'' (params_id req) ''gallery'')"
    by (auto simp: ms usedInOf_def Let_def pull_matches_def usageOf_def count_list_filter
        split: option.splits)
  have same: "heroImage e1 = heroImage e0 \<and> set (gallery e1) = set (gallery e0) \<and> video e1 = video e0 \<longrightarrow>
            (\<forall>a. map_of (medias st') a = map_of (medias st) a)"
  proof (intro impI allI)
    fix a assume h: "heroImage e1 = heroImage e0 \<and> set (gallery e1) = set (gallery e0) \<and> video e1 = video e0"
    have "map_of (medias st') a = map_option (\<lambda>m. m) (map_of (medias st) a)"
      unfolding ms using h by (intro option.map_cong refl) (auto simp: Let_def)
    then show "map_of (medias st') a = map_of (medias st) a"
      by (simp add: option.map_ident)
  qed
  from hero gal same show ?thesis by blast
qed

section \<open>Evaluating the handlers on the sample state\<close>

lemma castObjectId_samples:
  "castObjectId (JStr idA) = Some idA" "castObjectId (JStr idB) = Some idB"
  "castObjectId (JStr idG) = Some idG" "castObjectId (JStr idU) = Some idU"
  by (simp_all add: castObjectId_def isHex_def toLowerCase_def toLowerCase_char_def)

lemma sample_event_valid: "event_validate (sample_event h g del) = None"
  by (simp add: event_validate_def sample_event_def string_path_ok_def)

lemma sample_blog_valid: "blog_validate (sample_blog (Some h) g w del) = None"
  by (simp add: blog_validate_def sample_blog_def string_path_ok_def)

lemma updateEvent_sample:
  "updateEvent (sample_env 1000 idB) \<lparr>params_id = idE, body = [(''heroImage'', JStr idB)], user_id = idU\<rparr>
     (sample_state False mdel)
   = (Inr (Response 200 ''Event updated successfully''
        (Some (event_populate
           (if mdel then sample_store True
            else [(idA, sample_media ''a.png'' [usageOf ''Blog'' idF ''heroImage''] False),
                  (idB, sample_media ''b.png'' [usageOf ''Event'' idE ''heroImage''] False),
                  (idG, sample_media ''g.png'' [usageOf ''Event'' idE ''gallery'', usageOf ''Blog'' idF ''gallery''] False)])
           (sample_event (Some idB) [idG] False)))),
      (sample_state False mdel)\<lparr>events := [(idE, sample_event (Some idB) [idG] False)],
         medias := (if mdel then sample_store True
            else [(idA, sample_media ''a.png'' [usageOf ''Blog'' idF ''heroImage''] False),
                  (idB, sample_media ''b.png'' [usageOf ''Event'' idE ''heroImage''] False),
                  (idG, sample_media ''g.png'' [usageOf ''Event'' idE ''gallery'', usageOf ''Blog'' idF ''gallery''] False)])\<rparr>)"
  by (simp add: updateEvent_def sample_state_def Event_findById_def sample_event_def event_set_def castRef_def
      castObjectId_samples Event_save_def event_validate_def string_path_ok_def eventSchema_pre_save_def
      event_isModified_def Let_def updateWhere_def Media_findByIdAndUpdate_def Media_updateMany_in_def
      sample_media_def sample_store_def pull_usedIn_def push_usedIn_def pull_matches_def usageOf_def)

lemma updateBlog_sample:
  "updateBlog (sample_env 1000 idB) \<lparr>params_id = idF, body = [(''heroImage'', JStr idB)], user_id = idU\<rparr>
     (sample_state False False)
   = (Inr (Response 200 ''Blog updated successfully''
        (Some (blog_populate
           [(idA, sample_media ''a.png'' [usageOf ''Event'' idE ''heroImage''] False),
            (idB, sample_media ''b.png'' [usageOf ''Blog'' idF ''heroImage''] False),
            (idG, sample_media ''g.png'' [usageOf ''Event'' idE ''gallery'', usageOf ''Blog'' idF ''gallery''] False)]
           (sample_blog (Some idB) [idG] None False)))),
      (sample_state False False)\<lparr>blogs := [(idF, sample_blog (Some idB) [idG] None False)],
         medias :=
           [(idA, sample_media ''a.png'' [usageOf ''Event'' idE ''heroImage''] False),
            (idB, sample_media ''b.png'' [usageOf ''Blog'' idF ''heroImage''] False),
            (idG, sample_media ''g.png'' [usageOf ''Event'' idE ''gallery'', usageOf ''Blog'' idF ''gallery''] False)]\<rparr>)"
  by (simp add: updateBlog_def sample_state_def Blog_findById_def sample_blog_def blog_set_def castRef_def
      castObjectId_samples Blog_save_def blog_validate_def string_path_ok_def blogSchema_pre_save_def
      blog_isModified_def Let_def updateWhere_def Media_findByIdAndUpdate_def Media_updateMany_in_def
      sample_media_def sample_store_def pull_usedIn_def push_usedIn_def pull_matches_def usageOf_def)

section \<open>Updating the references of an event or a blog\<close>

text \<open>
  C1, as the code has it. When \<^verbatim>\<open>updateEvent\<close> (\<^verbatim>\<open>updateBlog\<close>) succeeds and
  changes the hero image from \<open>a\<close> to a different \<open>b\<close>: if \<open>a\<close> is not soft-deleted,
  its \<^verbatim>\<open>usedIn\<close> no longer holds the hero-image entry of the document, and if \<open>b\<close> is
  stored and not soft-deleted, its \<^verbatim>\<open>usedIn\<close> holds it. A file that is in the gallery
  before and after keeps as many gallery entries of the document as it had, so exactly one
  if it had one. An update that leaves the references as they were leaves every stored
  file as it was.
\<close>

theorem update_reference_delta:
  "(updateEvent env req st = (Inr r, st') \<and> map_of (events st) (params_id req) = Some e0
      \<and> map_of (events st') (params_id req) = Some e1 \<longrightarrow>
      (\<forall>a b. heroImage e0 = Some a \<and> heroImage e1 = Some b \<and> a \<noteq> b \<longrightarrow>
            ((\<forall>m. map_of (medias st) a = Some m \<longrightarrow> \<not> media.isDeleted m) \<longrightarrow>
               usageOf ''Event'' (params_id req) ''heroImage'' \<notin> set (usedInOf (medias st') a))
          \<and> (Media_findById (medias st) b \<noteq> None \<longrightarrow>
               usageOf ''Event'' (params_id req) ''heroImage'' \<in> set (usedInOf (medias st') b)))
       \<and> (\<forall>g. g \<in> set (gallery e0) \<and> g \<in> set (gallery e1) \<longrightarrow>
            count_list (usedInOf (medias st') g) (usageOf ''Event'' (params_id req) ''gallery'')
              = count_list (usedInOf (medias st) g) (usageOf ''Event'' (params_id req) ''gallery''))
       \<and> (heroImage e1 = heroImage e0 \<and> set (gallery e1) = set (gallery e0) \<longrightarrow>
            (\<forall>a. map_of (medias st') a = map_of (medias st) a)))
   \<and> (updateBlog env req st = (Inr r, st') \<and> map_of (blogs st) (params_id req) = Some b0
      \<and> map_of (blogs st') (params_id req) = Some b1 \<longrightarrow>
      (\<forall>a b. heroImage b0 = Some a \<and> heroImage b1 = Some b \<and> a \<noteq> b \<longrightarrow>
            ((\<forall>m. map_of (medias st) a = Some m \<longrightarrow> \<not> media.isDeleted m) \<longrightarrow>
               usageOf ''Blog'' (params_id req) ''heroImage'' \<notin> set (usedInOf (medias st') a))
          \<and> (Media_findById (medias st) b \<noteq> None \<longrightarrow>
               usageOf ''Blog'' (params_id req) ''heroImage'' \<in> set (usedInOf (medias st') b)))
       \<and> (\<forall>g. g \<in> set (gallery b0) \<and> g \<in> set (gallery b1) \<longrightarrow>
            count_list (usedInOf (medias st') g) (usageOf ''Blog'' (params_id req) ''gallery'')
              = count_list (usedInOf (medias st) g) (usageOf ''Blog'' (params_id req) ''gallery''))
       \<and> (heroImage b1 = heroImage b0 \<and> set (gallery b1) = set (gallery b0) \<and> video b1 = video b0 \<longrightarrow>
            (\<forall>a. map_of (medias st') a = map_of (medias st) a)))"
  using updateEvent_delta [of env req st r st' e0 e1] updateBlog_delta [of env req st r st' b0 b1]
  by blast

theorem update_reference_delta_witness:
  "(\<exists>r st'. updateEvent (sample_env 1000 idB)
                \<lparr>params_id = idE, body = [(''heroImage'', JStr idB)], user_id = idU\<rparr>
                (sample_state False False) = (Inr r, st')
       \<and> usageOf ''Event'' idE ''heroImage'' \<notin> set (usedInOf (medias st') idA)
       \<and> usageOf ''Event'' idE ''heroImage'' \<in> set (usedInOf (medias st') idB)
       \<and> count_list (usedInOf (medias st') idG) (usageOf ''Event'' idE ''gallery'') = 1)
   \<and> (\<exists>r st'. updateBlog (sample_env 1000 idB)
                \<lparr>params_id = idF, body = [(''heroImage'', JStr idB)], user_id = idU\<rparr>
                (sample_state False False) = (Inr r, st')
       \<and> usageOf ''Blog'' idF ''heroImage'' \<notin> set (usedInOf (medias st') idA)
       \<and> usageOf ''Blog'' idF ''heroImage'' \<in> set (usedInOf (medias st') idB)
       \<and> count_list (usedInOf (medias st') idG) (usageOf ''Blog'' idF ''gallery'') = 1)"
proof -
  let ?env = "sample_env 1000 idB"
  let ?st = "sample_state False False"
  let ?reqE = "\<lparr>params_id = idE, body = [(''heroImage'', JStr idB)], user_id = idU\<rparr>"
  let ?reqF = "\<lparr>params_id = idF, body = [(''heroImage'', JStr idB)], user_id = idU\<rparr>"
  let ?stE = "snd (updateEvent ?env ?reqE ?st)"
  let ?stF = "snd (updateBlog ?env ?reqF ?st)"
  let ?rE = "Response 200 ''Event updated successfully''
        (Some (event_populate (medias ?stE) (sample_event (Some idB) [idG] False)))"
  let ?rF = "Response 200 ''Blog updated successfully''
        (Some (blog_populate (medias ?stF) (sample_blog (Some idB) [idG] None False)))"
  have okE: "updateEvent ?env ?reqE ?st = (Inr ?rE, ?stE)"
    by (simp add: updateEvent_sample [where mdel = False, simplified])
  have okF: "updateBlog ?env ?reqF ?st = (Inr ?rF, ?stF)"
    by (simp add: updateBlog_sample)
  have oldE: "map_of (events ?st) (params_id ?reqE) = Some (sample_event (Some idA) [idG] False)"
    by (simp add: sample_state_def)
  have oldF: "map_of (blogs ?st) (params_id ?reqF) = Some (sample_blog (Some idA) [idG] None False)"
    by (simp add: sample_state_def)
  have newE: "map_of (events ?stE) (params_id ?reqE) = Some (sample_event (Some idB) [idG] False)"
    by (simp add: updateEvent_sample [where mdel = False, simplified])
  have newF: "map_of (blogs ?stF) (params_id ?reqF) = Some (sample_blog (Some idB) [idG] None False)"
    by (simp add: updateBlog_sample)
  have facts: "heroImage (sample_event (Some idA) [idG] False) = Some idA"
    "heroImage (sample_event (Some idB) [idG] False) = Some idB"
    "heroImage (sample_blog (Some idA) [idG] None False) = Some idA"
    "heroImage (sample_blog (Some idB) [idG] None False) = Some idB"
    "gallery (sample_event (Some idA) [idG] False) = [idG]"
    "gallery (sample_event (Some idB) [idG] False) = [idG]"
    "gallery (sample_blog (Some idA) [idG] None False) = [idG]"
    "gallery (sample_blog (Some idB) [idG] None False) = [idG]"
    "\<forall>m. map_of (medias ?st) idA = Some m \<longrightarrow> \<not> media.isDeleted m"
    "Media_findById (medias ?st) idB \<noteq> None"
    "count_list (usedInOf (medias ?st) idG) (usageOf ''Event'' idE ''gallery'') = 1"
    "count_list (usedInOf (medias ?st) idG) (usageOf ''Blog'' idF ''gallery'') = 1"
    by (simp_all add: sample_event_def sample_blog_def sample_state_def sample_store_def
        sample_media_def Media_findById_def usedInOf_def usageOf_def)
  have E: "usageOf ''Event'' idE ''heroImage'' \<notin> set (usedInOf (medias ?stE) idA)
       \<and> usageOf ''Event'' idE ''heroImage'' \<in> set (usedInOf (medias ?stE) idB)
       \<and> count_list (usedInOf (medias ?stE) idG) (usageOf ''Event'' idE ''gallery'') = 1"
    using update_reference_delta [of ?env ?reqE ?st ?rE ?stE "sample_event (Some idA) [idG] False"
        "sample_event (Some idB) [idG] False"] okE oldE newE facts
    by simp
  have F: "usageOf ''Blog'' idF ''heroImage'' \<notin> set (usedInOf (medias ?stF) idA)
       \<and> usageOf ''Blog'' idF ''heroImage'' \<in> set (usedInOf (medias ?stF) idB)
       \<and> count_list (usedInOf (medias ?stF) idG) (usageOf ''Blog'' idF ''gallery'') = 1"
    using update_reference_delta [of ?env ?reqF ?st ?rF ?stF _ _ "sample_blog (Some idA) [idG] None False"
        "sample_blog (Some idB) [idG] None False"] okF oldF newF facts
    by simp
  from okE E okF F show ?thesis by blast
qed

text \<open>
  C1 as stated fails when the files are soft-deleted: \<^verbatim>\<open>findByIdAndUpdate\<close> passes
  through the \<^verbatim>\<open>find\<close> hook of the Media model and updates nothing. With \<open>idA\<close> and
  \<open>idB\<close> soft-deleted, the update of the hero image from \<open>idA\<close> to \<open>idB\<close> succeeds,
  \<open>idA\<close> still holds the entry and \<open>idB\<close> does not hold it.
\<close>

theorem update_reference_delta_counterexample:
  "fst (updateEvent (sample_env 1000 idB)
          \<lparr>params_id = idE, body = [(''heroImage'', JStr idB)], user_id = idU\<rparr>
          (sample_state False True))
     = Inr (Response 200 ''Event updated successfully''
             (Some (EventData (sample_event (Some idB) [idG] False) None
                [sample_media ''g.png'' [usageOf ''Event'' idE ''gallery'', usageOf ''Blog'' idF ''gallery''] False])))
   \<and> map_of (events (snd (updateEvent (sample_env 1000 idB)
          \<lparr>params_id = idE, body = [(''heroImage'', JStr idB)], user_id = idU\<rparr>
          (sample_state False True)))) idE = Some (sample_event (Some idB) [idG] False)
   \<and> usedInOf (medias (snd (updateEvent (sample_env 1000 idB)
          \<lparr>params_id = idE, body = [(''heroImage'', JStr idB)], user_id = idU\<rparr>
          (sample_state False True)))) idA
       = [usageOf ''Event'' idE ''heroImage'', usageOf ''Blog'' idF ''heroImage'']
   \<and> usedInOf (medias (snd (updateEvent (sample_env 1000 idB)
          \<lparr>params_id = idE, body = [(''heroImage'', JStr idB)], user_id = idU\<rparr>
          (sample_state False True)))) idB = []"
  by (simp add: updateEvent_sample [where mdel = True, simplified] event_populate_def
      sample_store_def sample_media_def sample_event_def Media_findById_def usedInOf_def
      List.map_filter_def)

section \<open>Soft delete followed by restore\<close>

text \<open>
  C2. Take an event (a blog) that is stored, not deleted and valid for its schema, whose
  referenced files are all stored and not soft-deleted, and whose entries on those files
  are the ones its references call for, each as many times as they call for it (once).
  Then \<^verbatim>\<open>deleteEvent\<close> followed by \<^verbatim>\<open>restoreEvent\<close> (\<^verbatim>\<open>deleteBlog\<close>,
  \<^verbatim>\<open>restoreBlog\<close>) both succeed, the document is active again, every entry occurs in
  the \<^verbatim>\<open>usedIn\<close> array of every referenced file exactly as many times as before the
  delete, and no other file has changed. (The document's own entries are removed and
  appended again, so they end up last in the array; nothing is added, lost or doubled.)
\<close>

theorem softDelete_restore_roundtrip:
  "(map_of (events st) (params_id req) = Some e \<and> \<not> isDeleted e \<and> event_validate e = None
      \<and> (\<forall>a \<in> event_refs e. Media_findById (medias st) a \<noteq> None)
      \<and> (\<forall>a \<in> event_refs e.
            (\<forall>u. count_list (filter (pull_matches ''Event'' (params_id req) None) (usedInOf (medias st) a)) u
                  = count_list (event_usage_on (params_id req) e a) u))
     \<longrightarrow> (\<exists>r1 st1 r2 st2.
            deleteEvent env1 req st = (Inr r1, st1)
          \<and> restoreEvent env2 req st1 = (Inr r2, st2)
          \<and> map_of (events st2) (params_id req) = Some (e\<lparr>isDeleted := False, deletedAt := None\<rparr>)
          \<and> (\<forall>a \<in> event_refs e. \<forall>u. count_list (usedInOf (medias st2) a) u = count_list (usedInOf (medias st) a) u)
          \<and> (\<forall>a. a \<notin> event_refs e \<longrightarrow> map_of (medias st2) a = map_of (medias st) a)))
   \<and> (map_of (blogs st) (params_id req) = Some b \<and> \<not> isDeleted b \<and> blog_validate b = None
      \<and> (\<forall>a \<in> blog_refs b. Media_findById (medias st) a \<noteq> None)
      \<and> (\<forall>a \<in> blog_refs b.
            (\<forall>u. count_list (filter (pull_matches ''Blog'' (params_id req) None) (usedInOf (medias st) a)) u
                  = count_list (blog_usage_on (params_id req) b a) u))
     \<longrightarrow> (\<exists>r1 st1 r2 st2.
            deleteBlog env1 req st = (Inr r1, st1)
          \<and> restoreBlog env2 req st1 = (Inr r2, st2)
          \<and> map_of (blogs st2) (params_id req) = Some (b\<lparr>isDeleted := False, deletedAt := None\<rparr>)
          \<and> (\<forall>a \<in> blog_refs b. \<forall>u. count_list (usedInOf (medias st2) a) u = count_list (usedInOf (medias st) a) u)
          \<and> (\<forall>a. a \<notin> blog_refs b \<longrightarrow> map_of (medias st2) a = map_of (medias st) a)))"
  using event_roundtrip [of st req e env1 env2] blog_roundtrip [of st req b env1 env2]
  by blast

theorem softDelete_restore_roundtrip_witness:
  "(\<exists>r1 st1 r2 st2.
       deleteEvent (sample_env 1000 idB) \<lparr>params_id = idE, body = [], user_id = idU\<rparr> (sample_state False False)
         = (Inr r1, st1)
     \<and> restoreEvent (sample_env 2000 idB) \<lparr>params_id = idE, body = [], user_id = idU\<rparr> st1 = (Inr r2, st2)
     \<and> (\<forall>u. count_list (usedInOf (medias st2) idA) u = count_list (usedInOf (sample_store False) idA) u)
     \<and> (\<forall>u. count_list (usedInOf (medias st2) idG) u = count_list (usedInOf (sample_store False) idG) u))
   \<and> (\<exists>r1 st1 r2 st2.
       deleteBlog (sample_env 1000 idB) \<lparr>params_id = idF, body = [], user_id = idU\<rparr> (sample_state False False)
         = (Inr r1, st1)
     \<and> restoreBlog (sample_env 2000 idB) \<lparr>params_id = idF, body = [], user_id = idU\<rparr> st1 = (Inr r2, st2)
     \<and> (\<forall>u. count_list (usedInOf (medias st2) idA) u = count_list (usedInOf (sample_store False) idA) u)
     \<and> (\<forall>u. count_list (usedInOf (medias st2) idG) u = count_list (usedInOf (sample_store False) idG) u))"
proof -
  let ?st = "sample_state False False"
  let ?reqE = "\<lparr>params_id = idE, body = [], user_id = idU\<rparr>"
  let ?reqF = "\<lparr>params_id = idF, body = [], user_id = idU\<rparr>"
  let ?e = "sample_event (Some idA) [idG] False"
  let ?b = "sample_blog (Some idA) [idG] None False"
  have refs: "event_refs ?e = {idA, idG}" "blog_refs ?b = {idA, idG}"
    by (auto simp: event_refs_def blog_refs_def sample_event_def sample_blog_def)
  have ms: "medias ?st = sample_store False"
    by (simp add: sample_state_def)
  have tE: "filter (pull_matches ''Event'' idE None) (usedInOf (sample_store False) idA)
              = event_usage_on idE ?e idA"
    "filter (pull_matches ''Event'' idE None) (usedInOf (sample_store False) idG)
              = event_usage_on idE ?e idG"
    by (simp_all add: sample_store_def sample_media_def sample_event_def usedInOf_def
        event_usage_on_def pull_matches_def usageOf_def)
  have tF: "filter (pull_matches ''Blog'' idF None) (usedInOf (sample_store False) idA)
              = blog_usage_on idF ?b idA"
    "filter (pull_matches ''Blog'' idF None) (usedInOf (sample_store False) idG)
              = blog_usage_on idF ?b idG"
    by (simp_all add: sample_store_def sample_media_def sample_blog_def usedInOf_def
        blog_usage_on_def pull_matches_def usageOf_def)
  have live: "Media_findById (sample_store False) idA \<noteq> None"
    "Media_findById (sample_store False) idG \<noteq> None"
    by (simp_all add: sample_store_def sample_media_def Media_findById_def)
  have docs: "map_of (events ?st) idE = Some ?e" "\<not> isDeleted ?e"
    "map_of (blogs ?st) idF = Some ?b" "\<not> isDeleted ?b"
    by (simp_all add: sample_state_def sample_event_def sample_blog_def)
  have hE: "map_of (events ?st) (params_id ?reqE) = Some ?e \<and> \<not> isDeleted ?e \<and> event_validate ?e = None
      \<and> (\<forall>a \<in> event_refs ?e. Media_findById (medias ?st) a \<noteq> None)
      \<and> (\<forall>a \<in> event_refs ?e.
            (\<forall>u. count_list (filter (pull_matches ''Event'' (params_id ?reqE) None) (usedInOf (medias ?st) a)) u
                  = count_list (event_usage_on (params_id ?reqE) ?e a) u))"
    unfolding refs ms using docs live tE by (simp add: sample_event_valid)
  have hF: "map_of (blogs ?st) (params_id ?reqF) = Some ?b \<and> \<not> isDeleted ?b \<and> blog_validate ?b = None
      \<and> (\<forall>a \<in> blog_refs ?b. Media_findById (medias ?st) a \<noteq> None)
      \<and> (\<forall>a \<in> blog_refs ?b.
            (\<forall>u. count_list (filter (pull_matches ''Blog'' (params_id ?reqF) None) (usedInOf (medias ?st) a)) u
                  = count_list (blog_usage_on (params_id ?reqF) ?b a) u))"
    unfolding refs ms using docs live tF by (simp add: sample_blog_valid)
  have inE: "idA \<in> event_refs ?e" "idG \<in> event_refs ?e"
    and inF: "idA \<in> blog_refs ?b" "idG \<in> blog_refs ?b"
    by (simp_all add: refs)
  from softDelete_restore_roundtrip [of ?st ?reqE ?e "sample_env 1000 idB" "sample_env 2000 idB" ?b,
      THEN conjunct1, THEN mp, OF hE]
  obtain r1 st1 r2 st2 where
        E: "deleteEvent (sample_env 1000 idB) ?reqE ?st = (Inr r1, st1)"
          "restoreEvent (sample_env 2000 idB) ?reqE st1 = (Inr r2, st2)"
          "\<forall>a \<in> event_refs ?e. \<forall>u. count_list (usedInOf (medias st2) a) u = count_list (usedInOf (medias ?st) a) u"
    by blast
  have E': "\<exists>r1 st1 r2 st2.
       deleteEvent (sample_env 1000 idB) ?reqE ?st = (Inr r1, st1)
     \<and> restoreEvent (sample_env 2000 idB) ?reqE st1 = (Inr r2, st2)
     \<and> (\<forall>u. count_list (usedInOf (medias st2) idA) u = count_list (usedInOf (sample_store False) idA) u)
     \<and> (\<forall>u. count_list (usedInOf (medias st2) idG) u = count_list (usedInOf (sample_store False) idG) u)"
    using E(1,2) E(3) [THEN bspec, OF inE(1)] E(3) [THEN bspec, OF inE(2)]
    unfolding ms by (intro exI conjI)
  from softDelete_restore_roundtrip [of ?st ?reqF _ "sample_env 1000 idB" "sample_env 2000 idB" ?b,
      THEN conjunct2, THEN mp, OF hF]
  obtain q1 su1 q2 su2 where
        F: "deleteBlog (sample_env 1000 idB) ?reqF ?st = (Inr q1, su1)"
          "restoreBlog (sample_env 2000 idB) ?reqF su1 = (Inr q2, su2)"
          "\<forall>a \<in> blog_refs ?b. \<forall>u. count_list (usedInOf (medias su2) a) u = count_list (usedInOf (medias ?st) a) u"
    by blast
  have F': "\<exists>r1 st1 r2 st2.
       deleteBlog (sample_env 1000 idB) ?reqF ?st = (Inr r1, st1)
     \<and> restoreBlog (sample_env 2000 idB) ?reqF st1 = (Inr r2, st2)
     \<and> (\<forall>u. count_list (usedInOf (medias st2) idA) u = count_list (usedInOf (sample_store False) idA) u)
     \<and> (\<forall>u. count_list (usedInOf (medias st2) idG) u = count_list (usedInOf (sample_store False) idG) u)"
    using F(1,2) F(3) [THEN bspec, OF inF(1)] F(3) [THEN bspec, OF inF(2)]
    unfolding ms by (intro exI conjI)
  from E' F' show ?thesis by (rule conjI)
qed

section \<open>Illegal transitions of the lifecycle\<close>

text \<open>
  C6, as the code has it. Restoring an event (a blog) that is stored and not deleted fails
  with the 400 error \<^verbatim>\<open>Event is not deleted\<close> (\<^verbatim>\<open>Blog is not deleted\<close>).
  Soft-deleting one that is already deleted fails with the 404 error
  \<^verbatim>\<open>Event not found\<close> (\<^verbatim>\<open>Blog not found\<close>), because the delete handler looks the
  document up through the \<^verbatim>\<open>find\<close> hook that hides deleted documents. In both cases
  the state is unchanged.
\<close>

theorem lifecycle_guards:
  "(map_of (events st) (params_id req) = Some e \<and> \<not> isDeleted e \<longrightarrow>
      restoreEvent env req st = (Inl (ApiError 400 ''Event is not deleted''), st))
   \<and> (map_of (events st) (params_id req) = Some e \<and> isDeleted e \<longrightarrow>
      deleteEvent env req st = (Inl (ApiError 404 ''Event not found''), st))
   \<and> (map_of (blogs st) (params_id req) = Some b \<and> \<not> isDeleted b \<longrightarrow>
      restoreBlog env req st = (Inl (ApiError 400 ''Blog is not deleted''), st))
   \<and> (map_of (blogs st) (params_id req) = Some b \<and> isDeleted b \<longrightarrow>
      deleteBlog env req st = (Inl (ApiError 404 ''Blog not found''), st))"
  by (simp add: restoreEvent_def deleteEvent_def Event_findById_def
      restoreBlog_def deleteBlog_def Blog_findById_def)

theorem lifecycle_guards_witness:
  "restoreEvent (sample_env 1000 idB) \<lparr>params_id = idE, body = [], user_id = idU\<rparr> (sample_state False False)
     = (Inl (ApiError 400 ''Event is not deleted''), sample_state False False)
   \<and> deleteEvent (sample_env 1000 idB) \<lparr>params_id = idE, body = [], user_id = idU\<rparr> (sample_state True False)
     = (Inl (ApiError 404 ''Event not found''), sample_state True False)
   \<and> restoreBlog (sample_env 1000 idB) \<lparr>params_id = idF, body = [], user_id = idU\<rparr> (sample_state False False)
     = (Inl (ApiError 400 ''Blog is not deleted''), sample_state False False)
   \<and> deleteBlog (sample_env 1000 idB) \<lparr>params_id = idF, body = [], user_id = idU\<rparr> (sample_state True False)
     = (Inl (ApiError 404 ''Blog not found''), sample_state True False)"
proof -
  let ?reqE = "\<lparr>params_id = idE, body = [], user_id = idU\<rparr>"
  let ?reqF = "\<lparr>params_id = idF, body = [], user_id = idU\<rparr>"
  have live: "map_of (events (sample_state False False)) (params_id ?reqE)
                = Some (sample_event (Some idA) [idG] False)
              \<and> \<not> isDeleted (sample_event (Some idA) [idG] False)"
    "map_of (blogs (sample_state False False)) (params_id ?reqF)
                = Some (sample_blog (Some idA) [idG] None False)
              \<and> \<not> isDeleted (sample_blog (Some idA) [idG] None False)"
    by (simp_all add: sample_state_def sample_event_def sample_blog_def)
  have gone: "map_of (events (sample_state True False)) (params_id ?reqE)
                = Some (sample_event (Some idA) [idG] True)
              \<and> isDeleted (sample_event (Some idA) [idG] True)"
    "map_of (blogs (sample_state True False)) (params_id ?reqF)
                = Some (sample_blog (Some idA) [idG] None True)
              \<and> isDeleted (sample_blog (Some idA) [idG] None True)"
    by (simp_all add: sample_state_def sample_event_def sample_blog_def)
  note g1 = lifecycle_guards [of "sample_state False False" ?reqE "sample_event (Some idA) [idG] False"
      "sample_env 1000 idB" "sample_blog (Some idA) [idG] None False"]
  note g2 = lifecycle_guards [of "sample_state True False" ?reqE "sample_event (Some idA) [idG] True"
      "sample_env 1000 idB" "sample_blog (Some idA) [idG] None True"]
  note g3 = lifecycle_guards [of "sample_state False False" ?reqF "sample_event (Some idA) [idG] False"
      "sample_env 1000 idB" "sample_blog (Some idA) [idG] None False"]
  note g4 = lifecycle_guards [of "sample_state True False" ?reqF "sample_event (Some idA) [idG] True"
      "sample_env 1000 idB" "sample_blog (Some idA) [idG] None True"]
  show ?thesis
    using g1 [THEN conjunct1, THEN mp, OF live(1)]
      g2 [THEN conjunct2, THEN conjunct1, THEN mp, OF gone(1)]
      g3 [THEN conjunct2, THEN conjunct2, THEN conjunct1, THEN mp, OF live(2)]
      g4 [THEN conjunct2, THEN conjunct2, THEN conjunct2, THEN mp, OF gone(2)]
    by (intro conjI)
qed

text \<open>
  C6 as stated fails in its second part: soft-deleting the deleted sample event is answered
  with 404 \<^verbatim>\<open>Event not found\<close>, the error of a missing document, and not with the 400
  error that the first part uses for an illegal transition.
\<close>

theorem lifecycle_guards_counterexample:
  "fst (deleteEvent (sample_env 1000 idB) \<lparr>params_id = idE, body = [], user_id = idU\<rparr>
          (sample_state True False))
     = Inl (ApiError 404 ''Event not found'')
   \<and> fst (deleteEvent (sample_env 1000 idB) \<lparr>params_id = idE, body = [], user_id = idU\<rparr>
          (sample_state True False))
     = fst (deleteEvent (sample_env 1000 idB) \<lparr>params_id = idB, body = [], user_id = idU\<rparr>
          (sample_state True False))"
  by (simp add: deleteEvent_def Event_findById_def sample_state_def sample_event_def)

section \<open>Restoring when referenced files are gone\<close>

text \<open>
  C7, as the code has it. Restoring a deleted event (blog) that is valid for its schema
  succeeds with the ordinary 200 response, whose data is the restored document with its
  media populated and which carries no list of skipped files. A referenced file that is
  not stored stays absent; a soft-deleted file referred to as hero image (or video) and
  not in the gallery is left as it is; every file that is stored and not soft-deleted gets
  the entries that the references call for appended to its \<^verbatim>\<open>usedIn\<close>.
\<close>

theorem restore_skips_silently:
  "(map_of (events st) (params_id req) = Some e \<and> isDeleted e \<and> event_validate e = None \<longrightarrow>
     (\<exists>st'. restoreEvent env req st =
           (Inr (Response 200 ''Event restored successfully''
                  (Some (event_populate (medias st') (e\<lparr>isDeleted := False, deletedAt := None\<rparr>)))), st')
     \<and> map_of (events st') (params_id req) = Some (e\<lparr>isDeleted := False, deletedAt := None\<rparr>)
     \<and> (\<forall>a. map_of (medias st) a = None \<longrightarrow> map_of (medias st') a = None)
     \<and> (\<forall>a m. heroImage e = Some a \<and> a \<notin> set (gallery e) \<and> map_of (medias st) a = Some m \<and> media.isDeleted m
            \<longrightarrow> map_of (medias st') a = Some m)
     \<and> (\<forall>a. Media_findById (medias st) a \<noteq> None \<longrightarrow>
            usedInOf (medias st') a = usedInOf (medias st) a @ event_usage_on (params_id req) e a)))
   \<and> (map_of (blogs st) (params_id req) = Some b \<and> isDeleted b \<and> blog_validate b = None \<longrightarrow>
     (\<exists>st'. restoreBlog env req st =
           (Inr (Response 200 ''Blog restored successfully''
                  (Some (blog_populate (medias st') (b\<lparr>isDeleted := False, deletedAt := None\<rparr>)))), st')
     \<and> map_of (blogs st') (params_id req) = Some (b\<lparr>isDeleted := False, deletedAt := None\<rparr>)
     \<and> (\<forall>a. map_of (medias st) a = None \<longrightarrow> map_of (medias st') a = None)
     \<and> (\<forall>a m. (heroImage b = Some a \<or> video b = Some a) \<and> a \<notin> set (gallery b)
             \<and> map_of (medias st) a = Some m \<and> media.isDeleted m
            \<longrightarrow> map_of (medias st') a = Some m)
     \<and> (\<forall>a. Media_findById (medias st) a \<noteq> None \<longrightarrow>
            usedInOf (medias st') a = usedInOf (medias st) a @ blog_usage_on (params_id req) b a)))"
  using restoreEvent_skips [of st req e env] restoreBlog_skips [of st req b env]
  by (intro conjI impI) (elim conjE, assumption)+

theorem restore_skips_silently_witness:
  "(\<exists>st'. restoreEvent (sample_env 1000 idB) \<lparr>params_id = idE, body = [], user_id = idU\<rparr>
             (sample_restore_state False)
           = (Inr (Response 200 ''Event restored successfully''
                (Some (event_populate (medias st') (sample_event (Some idA) [idG, idB] False)))), st')
         \<and> map_of (medias st') idB = None
         \<and> map_of (medias st') idA = Some (sample_media ''a.png'' [] True)
         \<and> usedInOf (medias st') idG = [usageOf ''Event'' idE ''gallery''])
   \<and> (\<exists>st'. restoreBlog (sample_env 1000 idB) \<lparr>params_id = idF, body = [], user_id = idU\<rparr>
             (sample_restore_state False)
           = (Inr (Response 200 ''Blog restored successfully''
                (Some (blog_populate (medias st') (sample_blog (Some idA) [idG, idB] None False)))), st')
         \<and> map_of (medias st') idB = None
         \<and> map_of (medias st') idA = Some (sample_media ''a.png'' [] True)
         \<and> usedInOf (medias st') idG = [usageOf ''Blog'' idF ''gallery''])"
proof -
  let ?st = "sample_restore_state False"
  let ?reqE = "\<lparr>params_id = idE, body = [], user_id = idU\<rparr>"
  let ?reqF = "\<lparr>params_id = idF, body = [], user_id = idU\<rparr>"
  let ?e = "sample_event (Some idA) [idG, idB] True"
  let ?b = "sample_blog (Some idA) [idG, idB] None True"
  have hE: "map_of (events ?st) (params_id ?reqE) = Some ?e \<and> isDeleted ?e \<and> event_validate ?e = None"
    by (simp add: sample_event_valid) (simp add: sample_restore_state_def sample_event_def)
  have hF: "map_of (blogs ?st) (params_id ?reqF) = Some ?b \<and> isDeleted ?b \<and> blog_validate ?b = None"
    by (simp add: sample_blog_valid) (simp add: sample_restore_state_def sample_blog_def)
  have docs: "?e\<lparr>isDeleted := False, deletedAt := None\<rparr> = sample_event (Some idA) [idG, idB] False"
    "?b\<lparr>isDeleted := False, deletedAt := None\<rparr> = sample_blog (Some idA) [idG, idB] None False"
    by (simp_all add: sample_event_def sample_blog_def)
  have facts: "map_of (medias ?st) idB = None"
    "map_of (medias ?st) idA = Some (sample_media ''a.png'' [] True)"
    "media.isDeleted (sample_media ''a.png'' [] True)"
    "Media_findById (medias ?st) idG \<noteq> None"
    "usedInOf (medias ?st) idG = []"
    "heroImage ?e = Some idA" "idA \<notin> set (gallery ?e)"
    "heroImage ?b = Some idA" "idA \<notin> set (gallery ?b)"
    "event_usage_on idE ?e idG = [usageOf ''Event'' idE ''gallery'']"
    "blog_usage_on idF ?b idG = [usageOf ''Blog'' idF ''gallery'']"
    by (simp_all add: sample_restore_state_def sample_media_def Media_findById_def usedInOf_def
        sample_event_def sample_blog_def event_usage_on_def blog_usage_on_def)
  from restore_skips_silently [of ?st ?reqE ?e "sample_env 1000 idB" ?b,
      THEN conjunct1, THEN mp, OF hE]
  obtain st' where E:
    "restoreEvent (sample_env 1000 idB) ?reqE ?st =
           (Inr (Response 200 ''Event restored successfully''
                  (Some (event_populate (medias st') (?e\<lparr>isDeleted := False, deletedAt := None\<rparr>)))), st')"
    "\<forall>a. map_of (medias ?st) a = None \<longrightarrow> map_of (medias st') a = None"
    "\<forall>a m. heroImage ?e = Some a \<and> a \<notin> set (gallery ?e) \<and> map_of (medias ?st) a = Some m \<and> media.isDeleted m
            \<longrightarrow> map_of (medias st') a = Some m"
    "\<forall>a. Media_findById (medias ?st) a \<noteq> None \<longrightarrow>
            usedInOf (medias st') a = usedInOf (medias ?st) a @ event_usage_on (params_id ?reqE) ?e a"
    by blast
  have E': "\<exists>st'. restoreEvent (sample_env 1000 idB) ?reqE ?st
           = (Inr (Response 200 ''Event restored successfully''
                (Some (event_populate (medias st') (sample_event (Some idA) [idG, idB] False)))), st')
         \<and> map_of (medias st') idB = None
         \<and> map_of (medias st') idA = Some (sample_media ''a.png'' [] True)
         \<and> usedInOf (medias st') idG = [usageOf ''Event'' idE ''gallery'']"
    using E(1) [unfolded docs] E(2) [rule_format, OF facts(1)]
      E(3) [rule_format, of idA "sample_media ''a.png'' [] True"]
      E(4) [rule_format, OF facts(4)] facts
    by (intro exI [of _ st']) simp
  from restore_skips_silently [of ?st ?reqF _ "sample_env 1000 idB" ?b,
      THEN conjunct2, THEN mp, OF hF]
  obtain su' where F:
    "restoreBlog (sample_env 1000 idB) ?reqF ?st =
           (Inr (Response 200 ''Blog restored successfully''
                  (Some (blog_populate (medias su') (?b\<lparr>isDeleted := False, deletedAt := None\<rparr>)))), su')"
    "\<forall>a. map_of (medias ?st) a = None \<longrightarrow> map_of (medias su') a = None"
    "\<forall>a m. (heroImage ?b = Some a \<or> video ?b = Some a) \<and> a \<notin> set (gallery ?b)
             \<and> map_of (medias ?st) a = Some m \<and> media.isDeleted m
            \<longrightarrow> map_of (medias su') a = Some m"
    "\<forall>a. Media_findById (medias ?st) a \<noteq> None \<longrightarrow>
            usedInOf (medias su') a = usedInOf (medias ?st) a @ blog_usage_on (params_id ?reqF) ?b a"
    by blast
  have F': "\<exists>st'. restoreBlog (sample_env 1000 idB) ?reqF ?st
           = (Inr (Response 200 ''Blog restored successfully''
                (Some (blog_populate (medias st') (sample_blog (Some idA) [idG, idB] None False)))), st')
         \<and> map_of (medias st') idB = None
         \<and> map_of (medias st') idA = Some (sample_media ''a.png'' [] True)
         \<and> usedInOf (medias st') idG = [usageOf ''Blog'' idF ''gallery'']"
    using F(1) [unfolded docs] F(2) [rule_format, OF facts(1)]
      F(3) [rule_format, of idA "sample_media ''a.png'' [] True"]
      F(4) [rule_format, OF facts(4)] facts
    by (intro exI [of _ su']) simp
  from E' F' show ?thesis by (rule conjI)
qed

text \<open>
  C7 as stated fails on both counts. The gallery is re-attached with \<^verbatim>\<open>updateMany\<close>,
  which does not pass through the \<^verbatim>\<open>find\<close> hook: with the gallery file \<open>idG\<close>
  soft-deleted, the restore still appends the entry to it. And nothing is reported: the
  hero image \<open>idA\<close> (soft-deleted) and the gallery file \<open>idB\<close> (not stored) are skipped,
  and the answer is the plain 200 response with the populated document.
\<close>

theorem restore_skips_silently_counterexample:
  "fst (restoreEvent (sample_env 1000 idB) \<lparr>params_id = idE, body = [], user_id = idU\<rparr>
          (sample_restore_state True))
     = Inr (Response 200 ''Event restored successfully''
             (Some (EventData (sample_event (Some idA) [idG, idB] False) None [])))
   \<and> media.isDeleted (sample_media ''g.png'' [] True)
   \<and> map_of (medias (sample_restore_state True)) idG = Some (sample_media ''g.png'' [] True)
   \<and> usedInOf (medias (snd (restoreEvent (sample_env 1000 idB)
          \<lparr>params_id = idE, body = [], user_id = idU\<rparr> (sample_restore_state True)))) idG
       = [usageOf ''Event'' idE ''gallery'']"
  by (simp add: restoreEvent_def Event_findById_def sample_restore_state_def sample_event_def
      event_restore_def Event_save_def event_validate_def string_path_ok_def
      eventSchema_pre_save_def event_isModified_def Let_def updateWhere_def
      Media_findByIdAndUpdate_def Media_updateMany_in_def sample_media_def push_usedIn_def
      event_populate_def Media_findById_def List.map_filter_def usedInOf_def usageOf_def)

section \<open>What a validated patch can write\<close>

lemma map_filter_keys:
  "set (map fst (List.map_filter (\<lambda>(k, r). map_option (Pair k) r) xs)) \<subseteq> set (map fst xs)"
proof (induction xs)
  case Nil
  then show ?case by (simp add: List.map_filter_simps)
next
  case (Cons x xs)
  obtain k r where x: "x = (k, r)" by (cases x)
  from Cons show ?case
    by (cases r) (auto simp: x List.map_filter_simps)
qed

lemma Joi_validate_keys:
  assumes "Joi_validate sch b = Inr val"
  shows "set (map fst val) \<subseteq> set (map fst (rules sch)) \<union> set (map fst (defaults sch))"
proof -
  let ?known = "filter (\<lambda>(k, v). k \<in> set (map fst (rules sch))) b"
  let ?checked = "map (\<lambda>(k, v). (k, case map_of (rules sch) k of None \<Rightarrow> None | Some r \<Rightarrow> r v)) ?known"
  have val: "val = List.map_filter (\<lambda>(k, r). map_option (Pair k) r) ?checked
                @ filter (\<lambda>(k, d). k \<notin> set (map fst ?known)) (defaults sch)"
    using assms by (simp add: Joi_validate_def Let_def split: if_splits)
  have "set (map fst ?checked) \<subseteq> set (map fst (rules sch))"
    by force
  with map_filter_keys [of ?checked]
  have "set (map fst (List.map_filter (\<lambda>(k, r). map_option (Pair k) r) ?checked))
          \<subseteq> set (map fst (rules sch))"
    by blast
  moreover have "set (map fst (filter (\<lambda>(k, d). k \<notin> set (map fst ?known)) (defaults sch)))
          \<subseteq> set (map fst (defaults sch))"
    by auto
  ultimately show ?thesis
    unfolding val by (simp only: map_append set_append) blast
qed


lemma event_set_frame:
  assumes "event_set e k v = Some e'" "k \<notin> set protected_paths"
  shows "views e' = views e \<and> isDeleted e' = isDeleted e \<and> deletedAt e' = deletedAt e
       \<and> createdBy e' = createdBy e \<and> publishedAt e' = publishedAt e \<and> slug e' = slug e"
  using assms
  by (auto simp: event_set_def protected_paths_def split: if_splits jvalue.splits)

lemma event_assign_frame:
  assumes "event_assign e kvs = Some e'" "\<forall>k \<in> set (map fst kvs). k \<notin> set protected_paths"
  shows "views e' = views e \<and> isDeleted e' = isDeleted e \<and> deletedAt e' = deletedAt e
       \<and> createdBy e' = createdBy e \<and> publishedAt e' = publishedAt e \<and> slug e' = slug e"
  using assms
proof (induction kvs arbitrary: e)
  case Nil
  then show ?case by simp
next
  case (Cons kv kvs)
  obtain k v where kv: "kv = (k, v)" by (cases kv)
  from Cons.prems(1) kv obtain e1 where s: "event_set e k v = Some e1" and a: "event_assign e1 kvs = Some e'"
    by (auto split: option.splits)
  from Cons.prems(2) kv have k: "k \<notin> set protected_paths" and ks: "\<forall>k \<in> set (map fst kvs). k \<notin> set protected_paths"
    by auto
  from event_set_frame [OF s k] Cons.IH [OF a ks] show ?case by simp
qed

lemma blog_set_frame:
  assumes "blog_set e k v = Some e'" "k \<notin> set protected_paths"
  shows "views e' = views e \<and> isDeleted e' = isDeleted e \<and> deletedAt e' = deletedAt e
       \<and> createdBy e' = createdBy e \<and> publishedAt e' = publishedAt e \<and> slug e' = slug e"
  using assms
  by (auto simp: blog_set_def protected_paths_def split: if_splits jvalue.splits)

lemma blog_assign_frame:
  assumes "blog_assign e kvs = Some e'" "\<forall>k \<in> set (map fst kvs). k \<notin> set protected_paths"
  shows "views e' = views e \<and> isDeleted e' = isDeleted e \<and> deletedAt e' = deletedAt e
       \<and> createdBy e' = createdBy e \<and> publishedAt e' = publishedAt e \<and> slug e' = slug e"
  using assms
proof (induction kvs arbitrary: e)
  case Nil
  then show ?case by simp
next
  case (Cons kv kvs)
  obtain k v where kv: "kv = (k, v)" by (cases kv)
  from Cons.prems(1) kv obtain e1 where s: "blog_set e k v = Some e1" and a: "blog_assign e1 kvs = Some e'"
    by (auto split: option.splits)
  from Cons.prems(2) kv have k: "k \<notin> set protected_paths" and ks: "\<forall>k \<in> set (map fst kvs). k \<notin> set protected_paths"
    by auto
  from blog_set_frame [OF s k] Cons.IH [OF a ks] show ?case by simp
qed

lemma event_updateSchema_keys:
  "\<forall>k \<in> set (map fst (rules event_updateSchema)) \<union> set (map fst (defaults event_updateSchema)).
     k \<notin> set protected_paths"
  by (simp add: event_updateSchema_def protected_paths_def)

lemma blog_updateSchema_keys:
  "\<forall>k \<in> set (map fst (rules (blog_updateSchema u))) \<union> set (map fst (defaults (blog_updateSchema u))).
     k \<notin> set protected_paths"
  by (simp add: blog_updateSchema_def protected_paths_def)

lemma patch_keys:
  assumes "Joi_validate sch b = Inr val"
      and "\<forall>k \<in> set (map fst (rules sch)) \<union> set (map fst (defaults sch)). k \<notin> set protected_paths"
  shows "\<forall>k \<in> set (map fst (filter (\<lambda>(k, v). k \<noteq> ''updatedBy'') val @ [(''updatedBy'', JStr u)])).
           k \<notin> set protected_paths"
proof -
  have "''updatedBy'' \<notin> set protected_paths" by (simp add: protected_paths_def)
  moreover have "set (map fst (filter (\<lambda>(k, v). k \<noteq> ''updatedBy'') val)) \<subseteq> set (map fst val)"
    by auto
  ultimately show ?thesis
    using Joi_validate_keys [OF assms(1)] assms(2)
    by (simp only: map_append set_append list.map list.set fst_conv) blast
qed

lemma map_of_save_other:
  "map_of (updateWhere (\<lambda>k e. k = i) (\<lambda>e. y) c) j = (if j = i then map_option (\<lambda>e. y) (map_of c j) else map_of c j)"
  by (simp add: map_of_updateWhere option.map_ident split: option.splits)

lemma updateEvent_cases:
  assumes "updateEvent env req st = (res, st')"
  shows "(st' = st \<and> (res = Inl (ApiError 404 ''Event not found'')
                      \<or> (\<exists>m. res = Inl (ValidationError m)) \<or> res = Inl (DuplicateKey ''slug''))) \<or>
     (\<exists>e0 asg. Event_findById False (events st) (params_id req) = Some e0
        \<and> event_assign e0 (filter (\<lambda>(k, v). k \<noteq> ''updatedBy'') (body req)
                             @ [(''updatedBy'', JStr (user_id req))]) = Some asg
        \<and> events st' = updateWhere (\<lambda>k e. k = params_id req)
             (\<lambda>e. eventSchema_pre_save env (event_isModified e0 asg) asg) (events st)
        \<and> blogs st' = blogs st \<and> files st' = files st \<and> (\<exists>r. res = Inr r))"
proof (cases "Event_findById False (events st) (params_id req)")
  case None
  with assms show ?thesis by (auto simp add: updateEvent_def)
next
  case (Some e0)
  note f = this
  show ?thesis
  proof (cases "event_assign e0 (filter (\<lambda>(k, v). k \<noteq> ''updatedBy'') (body req)
                             @ [(''updatedBy'', JStr (user_id req))])")
    case None
    with assms f show ?thesis by (auto simp add: updateEvent_def Let_def)
  next
    case (Some asg)
    note a = this
    show ?thesis
    proof (cases "Event_save env (events st) (params_id req) e0 asg")
      case (Inl err)
      then have "(\<exists>m. err = ValidationError m) \<or> err = DuplicateKey ''slug''"
        by (auto simp: Event_save_def Let_def split: option.splits if_splits)
      with Inl assms f a show ?thesis by (auto simp add: updateEvent_def Let_def)
    next
      case (Inr p)
      obtain e1 evs where p: "p = (e1, evs)" by (cases p)
      note s = Inr [unfolded p]
      have "events st' = evs \<and> blogs st' = blogs st \<and> files st' = files st \<and> (\<exists>r. res = Inr r)"
        using assms unfolding updateEvent_def
        by (simp add: f a s Let_def) auto
      with Event_save_Inr(1,2) [OF s] f a show ?thesis by simp
    qed
  qed
qed

lemma updateBlog_cases:
  assumes "updateBlog env req st = (res, st')"
  shows "(st' = st \<and> (res = Inl (ApiError 404 ''Blog not found'')
                      \<or> (\<exists>m. res = Inl (ValidationError m)) \<or> res = Inl (DuplicateKey ''slug''))) \<or>
     (\<exists>e0 asg. Blog_findById False (blogs st) (params_id req) = Some e0
        \<and> blog_assign e0 (filter (\<lambda>(k, v). k \<noteq> ''updatedBy'') (body req)
                             @ [(''updatedBy'', JStr (user_id req))]) = Some asg
        \<and> blogs st' = updateWhere (\<lambda>k e. k = params_id req)
             (\<lambda>e. blogSchema_pre_save env (blog_isModified e0 asg) asg) (blogs st)
        \<and> events st' = events st \<and> files st' = files st \<and> (\<exists>r. res = Inr r))"
proof (cases "Blog_findById False (blogs st) (params_id req)")
  case None
  with assms show ?thesis by (auto simp add: updateBlog_def)
next
  case (Some e0)
  note f = this
  show ?thesis
  proof (cases "blog_assign e0 (filter (\<lambda>(k, v). k \<noteq> ''updatedBy'') (body req)
                             @ [(''updatedBy'', JStr (user_id req))])")
    case None
    with assms f show ?thesis by (auto simp add: updateBlog_def Let_def)
  next
    case (Some asg)
    note a = this
    show ?thesis
    proof (cases "Blog_save env (blogs st) (params_id req) e0 asg")
      case (Inl err)
      then have "(\<exists>m. err = ValidationError m) \<or> err = DuplicateKey ''slug''"
        by (auto simp: Blog_save_def Let_def split: option.splits if_splits)
      with Inl assms f a show ?thesis by (auto simp add: updateBlog_def Let_def)
    next
      case (Inr p)
      obtain e1 evs where p: "p = (e1, evs)" by (cases p)
      note s = Inr [unfolded p]
      have "blogs st' = evs \<and> events st' = events st \<and> files st' = files st \<and> (\<exists>r. res = Inr r)"
        using assms unfolding updateBlog_def
        by (simp add: f a s Let_def) auto
      with Blog_save_Inr(1,2) [OF s] f a show ?thesis by simp
    qed
  qed
qed

lemma validateRequest_Inr:
  assumes "validateRequest sch req = Inr req'"
  shows "params_id req' = params_id req \<and> user_id req' = user_id req
       \<and> Joi_validate sch (body req) = Inr (body req')"
  using assms by (auto simp: validateRequest_def split: sum.splits)

lemma Event_findById_Some:
  "Event_findById d c i = Some e \<Longrightarrow> map_of c i = Some e"
  by (auto simp: Event_findById_def split: option.splits if_splits)

lemma Blog_findById_Some:
  "Blog_findById d c i = Some e \<Longrightarrow> map_of c i = Some e"
  by (auto simp: Blog_findById_def split: option.splits if_splits)

lemma route_patch_events_frame:
  assumes run: "route_patch_events env req st = (res, st')"
      and old: "map_of (events st) (params_id req) = Some e0"
  shows "\<exists>e1. map_of (events st') (params_id req) = Some e1
          \<and> views e1 = views e0 \<and> isDeleted e1 = isDeleted e0 \<and> deletedAt e1 = deletedAt e0
          \<and> createdBy e1 = createdBy e0
          \<and> (publishedAt e1 = publishedAt e0
              \<or> publishedAt e0 = None \<and> status e0 \<noteq> ''published'' \<and> status e1 = ''published''
                \<and> publishedAt e1 = Some (now env))
          \<and> (slug e1 = slug e0
              \<or> title e1 \<noteq> title e0 \<and> slug e1 = Some (slugify env (title e1) @ ''-'' @ digits (now env)))"
    and "\<forall>k. k \<noteq> params_id req \<longrightarrow> map_of (events st') k = map_of (events st) k"
    and "blogs st' = blogs st"
proof -
  have "(\<exists>e1. map_of (events st') (params_id req) = Some e1
          \<and> views e1 = views e0 \<and> isDeleted e1 = isDeleted e0 \<and> deletedAt e1 = deletedAt e0
          \<and> createdBy e1 = createdBy e0
          \<and> (publishedAt e1 = publishedAt e0
              \<or> publishedAt e0 = None \<and> status e0 \<noteq> ''published'' \<and> status e1 = ''published''
                \<and> publishedAt e1 = Some (now env))
          \<and> (slug e1 = slug e0
              \<or> title e1 \<noteq> title e0 \<and> slug e1 = Some (slugify env (title e1) @ ''-'' @ digits (now env))))
     \<and> (\<forall>k. k \<noteq> params_id req \<longrightarrow> map_of (events st') k = map_of (events st) k)
     \<and> blogs st' = blogs st"
  proof (cases "validateRequest event_updateSchema req")
    case (Inl err)
    with run have "st' = st" by (simp add: route_patch_events_def)
    with old show ?thesis by simp
  next
    case (Inr req')
    note v = validateRequest_Inr [OF Inr]
    from run Inr have u: "updateEvent env req' st = (res, st')"
      by (simp add: route_patch_events_def)
    from updateEvent_cases [OF u]
    have "st' = st \<or> (\<exists>e0 asg. Event_findById False (events st) (params_id req') = Some e0
        \<and> event_assign e0 (filter (\<lambda>(k, v). k \<noteq> ''updatedBy'') (body req')
                             @ [(''updatedBy'', JStr (user_id req'))]) = Some asg
        \<and> events st' = updateWhere (\<lambda>k e. k = params_id req')
             (\<lambda>e. eventSchema_pre_save env (event_isModified e0 asg) asg) (events st)
        \<and> blogs st' = blogs st \<and> files st' = files st \<and> (\<exists>r. res = Inr r))"
      by blast
    then show ?thesis
    proof
      assume "st' = st"
      with old show ?thesis by simp
    next
      assume "\<exists>e0 asg. Event_findById False (events st) (params_id req') = Some e0
        \<and> event_assign e0 (filter (\<lambda>(k, v). k \<noteq> ''updatedBy'') (body req')
                             @ [(''updatedBy'', JStr (user_id req'))]) = Some asg
        \<and> events st' = updateWhere (\<lambda>k e. k = params_id req')
             (\<lambda>e. eventSchema_pre_save env (event_isModified e0 asg) asg) (events st)
        \<and> blogs st' = blogs st \<and> files st' = files st \<and> (\<exists>r. res = Inr r)"
      then obtain x0 asg where
        f: "Event_findById False (events st) (params_id req') = Some x0"
        and a: "event_assign x0 (filter (\<lambda>(k, v). k \<noteq> ''updatedBy'') (body req')
                             @ [(''updatedBy'', JStr (user_id req'))]) = Some asg"
        and e: "events st' = updateWhere (\<lambda>k e. k = params_id req')
             (\<lambda>e. eventSchema_pre_save env (event_isModified x0 asg) asg) (events st)"
        and b: "blogs st' = blogs st"
        by blast
      have x0: "x0 = e0"
        using Event_findById_Some [OF f] old v by simp
      note fr = event_assign_frame [OF a patch_keys [OF v [THEN conjunct2, THEN conjunct2]
            event_updateSchema_keys], unfolded x0]
      let ?e1 = "eventSchema_pre_save env (event_isModified e0 asg) asg"
      have m: "map_of (events st') (params_id req) = Some ?e1"
        using old v by (simp add: e x0 map_of_updateWhere)
      have others: "\<forall>k. k \<noteq> params_id req \<longrightarrow> map_of (events st') k = map_of (events st) k"
        using v by (simp add: e map_of_save_other)
      have p: "publishedAt ?e1 = publishedAt e0
              \<or> publishedAt e0 = None \<and> status e0 \<noteq> ''published'' \<and> status ?e1 = ''published''
                \<and> publishedAt ?e1 = Some (now env)"
        using fr by (auto simp: eventSchema_pre_save_def event_isModified_def Let_def)
      have s: "slug ?e1 = slug e0
              \<or> title ?e1 \<noteq> title e0 \<and> slug ?e1 = Some (slugify env (title ?e1) @ ''-'' @ digits (now env))"
        using fr by (auto simp: eventSchema_pre_save_def event_isModified_def Let_def)
      have fields: "views ?e1 = views e0 \<and> isDeleted ?e1 = isDeleted e0 \<and> deletedAt ?e1 = deletedAt e0
          \<and> createdBy ?e1 = createdBy e0"
        using fr by (simp add: eventSchema_pre_save_def Let_def)
      from m fields p s others b show ?thesis by blast
    qed
  qed
  then show "\<exists>e1. map_of (events st') (params_id req) = Some e1
          \<and> views e1 = views e0 \<and> isDeleted e1 = isDeleted e0 \<and> deletedAt e1 = deletedAt e0
          \<and> createdBy e1 = createdBy e0
          \<and> (publishedAt e1 = publishedAt e0
              \<or> publishedAt e0 = None \<and> status e0 \<noteq> ''published'' \<and> status e1 = ''published''
                \<and> publishedAt e1 = Some (now env))
          \<and> (slug e1 = slug e0
              \<or> title e1 \<noteq> title e0 \<and> slug e1 = Some (slugify env (title e1) @ ''-'' @ digits (now env)))"
    and "\<forall>k. k \<noteq> params_id req \<longrightarrow> map_of (events st') k = map_of (events st) k"
    and "blogs st' = blogs st"
    by blast+
qed

lemma route_patch_blogs_frame:
  assumes run: "route_patch_blogs env req st = (res, st')"
      and old: "map_of (blogs st) (params_id req) = Some e0"
  shows "\<exists>e1. map_of (blogs st') (params_id req) = Some e1
          \<and> views e1 = views e0 \<and> isDeleted e1 = isDeleted e0 \<and> deletedAt e1 = deletedAt e0
          \<and> createdBy e1 = createdBy e0
          \<and> (publishedAt e1 = publishedAt e0
              \<or> publishedAt e0 = None \<and> status e0 \<noteq> ''published'' \<and> status e1 = ''published''
                \<and> publishedAt e1 = Some (now env))
          \<and> (slug e1 = slug e0
              \<or> title e1 \<noteq> title e0 \<and> slug e1 = Some (slugify env (title e1) @ ''-'' @ digits (now env)))"
    and "\<forall>k. k \<noteq> params_id req \<longrightarrow> map_of (blogs st') k = map_of (blogs st) k"
    and "events st' = events st"
proof -
  have "(\<exists>e1. map_of (blogs st') (params_id req) = Some e1
          \<and> views e1 = views e0 \<and> isDeleted e1 = isDeleted e0 \<and> deletedAt e1 = deletedAt e0
          \<and> createdBy e1 = createdBy e0
          \<and> (publishedAt e1 = publishedAt e0
              \<or> publishedAt e0 = None \<and> status e0 \<noteq> ''published'' \<and> status e1 = ''published''
                \<and> publishedAt e1 = Some (now env))
          \<and> (slug e1 = slug e0
              \<or> title e1 \<noteq> title e0 \<and> slug e1 = Some (slugify env (title e1) @ ''-'' @ digits (now env))))
     \<and> (\<forall>k. k \<noteq> params_id req \<longrightarrow> map_of (blogs st') k = map_of (blogs st) k)
     \<and> events st' = events st"
  proof (cases "validateRequest (blog_updateSchema (uri env)) req")
    case (Inl err)
    with run have "st' = st" by (simp add: route_patch_blogs_def)
    with old show ?thesis by simp
  next
    case (Inr req')
    note v = validateRequest_Inr [OF Inr]
    from run Inr have u: "updateBlog env req' st = (res, st')"
      by (simp add: route_patch_blogs_def)
    from updateBlog_cases [OF u]
    have "st' = st \<or> (\<exists>e0 asg. Blog_findById False (blogs st) (params_id req') = Some e0
        \<and> blog_assign e0 (filter (\<lambda>(k, v). k \<noteq> ''updatedBy'') (body req')
                             @ [(''updatedBy'', JStr (user_id req'))]) = Some asg
        \<and> blogs st' = updateWhere (\<lambda>k e. k = params_id req')
             (\<lambda>e. blogSchema_pre_save env (blog_isModified e0 asg) asg) (blogs st)
        \<and> events st' = events st \<and> files st' = files st \<and> (\<exists>r. res = Inr r))"
      by blast
    then show ?thesis
    proof
      assume "st' = st"
      with old show ?thesis by simp
    next
      assume "\<exists>e0 asg. Blog_findById False (blogs st) (params_id req') = Some e0
        \<and> blog_assign e0 (filter (\<lambda>(k, v). k \<noteq> ''updatedBy'') (body req')
                             @ [(''updatedBy'', JStr (user_id req'))]) = Some asg
        \<and> blogs st' = updateWhere (\<lambda>k e. k = params_id req')
             (\<lambda>e. blogSchema_pre_save env (blog_isModified e0 asg) asg) (blogs st)
        \<and> events st' = events st \<and> files st' = files st \<and> (\<exists>r. res = Inr r)"
      then obtain x0 asg where
        f: "Blog_findById False (blogs st) (params_id req') = Some x0"
        and a: "blog_assign x0 (filter (\<lambda>(k, v). k \<noteq> ''updatedBy'') (body req')
                             @ [(''updatedBy'', JStr (user_id req'))]) = Some asg"
        and e: "blogs st' = updateWhere (\<lambda>k e. k = params_id req')
             (\<lambda>e. blogSchema_pre_save env (blog_isModified x0 asg) asg) (blogs st)"
        and b: "events st' = events st"
        by blast
      have x0: "x0 = e0"
        using Blog_findById_Some [OF f] old v by simp
      note fr = blog_assign_frame [OF a patch_keys [OF v [THEN conjunct2, THEN conjunct2]
            blog_updateSchema_keys], unfolded x0]
      let ?e1 = "blogSchema_pre_save env (blog_isModified e0 asg) asg"
      have m: "map_of (blogs st') (params_id req) = Some ?e1"
        using old v by (simp add: e x0 map_of_updateWhere)
      have others: "\<forall>k. k \<noteq> params_id req \<longrightarrow> map_of (blogs st') k = map_of (blogs st) k"
        using v by (simp add: e map_of_save_other)
      have p: "publishedAt ?e1 = publishedAt e0
              \<or> publishedAt e0 = None \<and> status e0 \<noteq> ''published'' \<and> status ?e1 = ''published''
                \<and> publishedAt ?e1 = Some (now env)"
        using fr by (auto simp: blogSchema_pre_save_def blog_isModified_def Let_def)
      have s: "slug ?e1 = slug e0
              \<or> title ?e1 \<noteq> title e0 \<and> slug ?e1 = Some (slugify env (title ?e1) @ ''-'' @ digits (now env))"
        using fr by (auto simp: blogSchema_pre_save_def blog_isModified_def Let_def)
      have fields: "views ?e1 = views e0 \<and> isDeleted ?e1 = isDeleted e0 \<and> deletedAt ?e1 = deletedAt e0
          \<and> createdBy ?e1 = createdBy e0"
        using fr by (simp add: blogSchema_pre_save_def Let_def)
      from m fields p s others b show ?thesis by blast
    qed
  qed
  then show "\<exists>e1. map_of (blogs st') (params_id req) = Some e1
          \<and> views e1 = views e0 \<and> isDeleted e1 = isDeleted e0 \<and> deletedAt e1 = deletedAt e0
          \<and> createdBy e1 = createdBy e0
          \<and> (publishedAt e1 = publishedAt e0
              \<or> publishedAt e0 = None \<and> status e0 \<noteq> ''published'' \<and> status e1 = ''published''
                \<and> publishedAt e1 = Some (now env))
          \<and> (slug e1 = slug e0
              \<or> title e1 \<noteq> title e0 \<and> slug e1 = Some (slugify env (title e1) @ ''-'' @ digits (now env)))"
    and "\<forall>k. k \<noteq> params_id req \<longrightarrow> map_of (blogs st') k = map_of (blogs st) k"
    and "events st' = events st"
    by blast+
qed


lemma route_patch_events_frame_blogs:
  "blogs (snd (route_patch_events env req st)) = blogs st"
proof -
  obtain res st' where r: "route_patch_events env req st = (res, st')"
    by (cases "route_patch_events env req st")
  show ?thesis
  proof (cases "validateRequest event_updateSchema req")
    case (Inl err)
    then show ?thesis by (simp add: route_patch_events_def)
  next
    case (Inr req')
    with r have u: "updateEvent env req' st = (res, st')"
      by (simp add: route_patch_events_def)
    from updateEvent_cases [OF u] have "blogs st' = blogs st" by auto
    with r show ?thesis by simp
  qed
qed

lemma route_patch_blogs_frame_events:
  "events (snd (route_patch_blogs env req st)) = events st"
proof -
  obtain res st' where r: "route_patch_blogs env req st = (res, st')"
    by (cases "route_patch_blogs env req st")
  show ?thesis
  proof (cases "validateRequest (blog_updateSchema (uri env)) req")
    case (Inl err)
    then show ?thesis by (simp add: route_patch_blogs_def)
  next
    case (Inr req')
    with r have u: "updateBlog env req' st = (res, st')"
      by (simp add: route_patch_blogs_def)
    from updateBlog_cases [OF u] have "events st' = events st" by auto
    with r show ?thesis by simp
  qed
qed

section \<open>What an update request cannot write\<close>

text \<open>
  C10. Whatever the body of a \<^verbatim>\<open>PATCH\<close> request on a stored event (blog) holds, and
  whether the request succeeds or fails, afterwards the stored document has the
  \<^verbatim>\<open>views\<close>, \<^verbatim>\<open>isDeleted\<close>, \<^verbatim>\<open>deletedAt\<close> and \<^verbatim>\<open>createdBy\<close> it had.
  \<^verbatim>\<open>publishedAt\<close> is as before unless it was unset and the status has changed to
  \<^verbatim>\<open>published\<close>, in which case it is the time of the request; \<^verbatim>\<open>slug\<close> is as
  before unless the title has changed, in which case it is the slug of the new title and
  the time. No other event (blog) changes.
\<close>

theorem patch_frame:
  "(route_patch_events env req st = (res, st') \<and> map_of (events st) (params_id req) = Some e0 \<longrightarrow>
      (\<exists>e1. map_of (events st') (params_id req) = Some e1
          \<and> views e1 = views e0 \<and> isDeleted e1 = isDeleted e0 \<and> deletedAt e1 = deletedAt e0
          \<and> createdBy e1 = createdBy e0
          \<and> (publishedAt e1 = publishedAt e0
              \<or> publishedAt e0 = None \<and> status e0 \<noteq> ''published'' \<and> status e1 = ''published''
                \<and> publishedAt e1 = Some (now env))
          \<and> (slug e1 = slug e0
              \<or> title e1 \<noteq> title e0 \<and> slug e1 = Some (slugify env (title e1) @ ''-'' @ digits (now env))))
      \<and> (\<forall>k. k \<noteq> params_id req \<longrightarrow> map_of (events st') k = map_of (events st) k))
   \<and> (route_patch_blogs env req st = (res, st') \<and> map_of (blogs st) (params_id req) = Some b0 \<longrightarrow>
      (\<exists>b1. map_of (blogs st') (params_id req) = Some b1
          \<and> views b1 = views b0 \<and> isDeleted b1 = isDeleted b0 \<and> deletedAt b1 = deletedAt b0
          \<and> createdBy b1 = createdBy b0
          \<and> (publishedAt b1 = publishedAt b0
              \<or> publishedAt b0 = None \<and> status b0 \<noteq> ''published'' \<and> status b1 = ''published''
                \<and> publishedAt b1 = Some (now env))
          \<and> (slug b1 = slug b0
              \<or> title b1 \<noteq> title b0 \<and> slug b1 = Some (slugify env (title b1) @ ''-'' @ digits (now env))))
      \<and> (\<forall>k. k \<noteq> params_id req \<longrightarrow> map_of (blogs st') k = map_of (blogs st) k))"
  using route_patch_events_frame(1,2) [of env req st res st' e0]
    route_patch_blogs_frame(1,2) [of env req st res st' b0]
  by blast

lemma route_patch_events_sample:
  "route_patch_events (sample_env 1000 idB)
      \<lparr>params_id = idE,
       body = [(''views'', JNum 99), (''isDeleted'', JBool True), (''createdBy'', JStr idB),
               (''publishedAt'', JNum 1), (''slug'', JStr ''mine''),
               (''title'', JStr ''New Title''), (''status'', JStr ''published'')],
       user_id = idU\<rparr>
      (sample_state False False)
   = (Inr (Response 200 ''Event updated successfully''
        (Some (event_populate (sample_store False)
           ((sample_event (Some idA) [idG] False)
              \<lparr>title := ''New Title'', slug := Some ''new-title-1000'', status := ''published'',
               publishedAt := Some 1000\<rparr>)))),
      (sample_state False False)
        \<lparr>events := [(idE, (sample_event (Some idA) [idG] False)
              \<lparr>title := ''New Title'', slug := Some ''new-title-1000'', status := ''published'',
               publishedAt := Some 1000\<rparr>)]\<rparr>)"
  by (simp add: route_patch_events_def validateRequest_def Joi_validate_def event_updateSchema_def
      joi_string_def joi_valid_def List.map_filter_def
      updateEvent_def sample_state_def Event_findById_def sample_event_def event_set_def castRef_def
      castObjectId_samples trim_def isSpace_def
      Event_save_def event_validate_def string_path_ok_def eventSchema_pre_save_def
      event_isModified_def Let_def updateWhere_def sample_env_def sample_slugify_def
      toLowerCase_char_def digits.simps digit_char_def)

lemma route_patch_blogs_sample:
  "route_patch_blogs (sample_env 1000 idB)
      \<lparr>params_id = idF,
       body = [(''views'', JNum 99), (''isDeleted'', JBool True), (''createdBy'', JStr idB),
               (''publishedAt'', JNum 1), (''slug'', JStr ''mine''),
               (''title'', JStr ''New Title''), (''status'', JStr ''published'')],
       user_id = idU\<rparr>
      (sample_state False False)
   = (Inr (Response 200 ''Blog updated successfully''
        (Some (blog_populate (sample_store False)
           ((sample_blog (Some idA) [idG] None False)
              \<lparr>title := ''New Title'', slug := Some ''new-title-1000'', status := ''published'',
               publishedAt := Some 1000\<rparr>)))),
      (sample_state False False)
        \<lparr>blogs := [(idF, (sample_blog (Some idA) [idG] None False)
              \<lparr>title := ''New Title'', slug := Some ''new-title-1000'', status := ''published'',
               publishedAt := Some 1000\<rparr>)]\<rparr>)"
  by (simp add: route_patch_blogs_def validateRequest_def Joi_validate_def blog_updateSchema_def
      joi_string_def joi_valid_def List.map_filter_def
      updateBlog_def sample_state_def Blog_findById_def sample_blog_def blog_set_def castRef_def
      castObjectId_samples trim_def isSpace_def
      Blog_save_def blog_validate_def string_path_ok_def blogSchema_pre_save_def
      blog_isModified_def Let_def updateWhere_def sample_env_def sample_slugify_def
      toLowerCase_char_def digits.simps digit_char_def)

theorem patch_frame_witness:
  "(\<exists>e1. map_of (events (snd (route_patch_events (sample_env 1000 idB)
              \<lparr>params_id = idE,
               body = [(''views'', JNum 99), (''isDeleted'', JBool True), (''createdBy'', JStr idB),
                       (''publishedAt'', JNum 1), (''slug'', JStr ''mine''),
                       (''title'', JStr ''New Title''), (''status'', JStr ''published'')],
               user_id = idU\<rparr> (sample_state False False)))) idE = Some e1
        \<and> views e1 = 0 \<and> \<not> isDeleted e1 \<and> deletedAt e1 = None \<and> createdBy e1 = Some idU
        \<and> publishedAt e1 = Some 1000 \<and> slug e1 = Some ''new-title-1000'')
   \<and> (\<exists>b1. map_of (blogs (snd (route_patch_blogs (sample_env 1000 idB)
              \<lparr>params_id = idF,
               body = [(''views'', JNum 99), (''isDeleted'', JBool True), (''createdBy'', JStr idB),
                       (''publishedAt'', JNum 1), (''slug'', JStr ''mine''),
                       (''title'', JStr ''New Title''), (''status'', JStr ''published'')],
               user_id = idU\<rparr> (sample_state False False)))) idF = Some b1
        \<and> views b1 = 0 \<and> \<not> isDeleted b1 \<and> deletedAt b1 = None \<and> createdBy b1 = Some idU
        \<and> publishedAt b1 = Some 1000 \<and> slug b1 = Some ''new-title-1000'')"
proof -
  let ?env = "sample_env 1000 idB"
  let ?st = "sample_state False False"
  let ?body = "[(''views'', JNum 99), (''isDeleted'', JBool True), (''createdBy'', JStr idB),
                (''publishedAt'', JNum 1), (''slug'', JStr ''mine''),
                (''title'', JStr ''New Title''), (''status'', JStr ''published'')]"
  let ?reqE = "\<lparr>params_id = idE, body = ?body, user_id = idU\<rparr>"
  let ?reqF = "\<lparr>params_id = idF, body = ?body, user_id = idU\<rparr>"
  let ?e0 = "sample_event (Some idA) [idG] False"
  let ?b0 = "sample_blog (Some idA) [idG] None False"
  have hE: "route_patch_events ?env ?reqE ?st
              = (fst (route_patch_events ?env ?reqE ?st), snd (route_patch_events ?env ?reqE ?st))
            \<and> map_of (events ?st) (params_id ?reqE) = Some ?e0"
    by (simp add: sample_state_def)
  have hF: "route_patch_blogs ?env ?reqF ?st
              = (fst (route_patch_blogs ?env ?reqF ?st), snd (route_patch_blogs ?env ?reqF ?st))
            \<and> map_of (blogs ?st) (params_id ?reqF) = Some ?b0"
    by (simp add: sample_state_def)
  have old: "views ?e0 = 0" "\<not> isDeleted ?e0" "deletedAt ?e0 = None" "createdBy ?e0 = Some idU"
    "views ?b0 = 0" "\<not> isDeleted ?b0" "deletedAt ?b0 = None" "createdBy ?b0 = Some idU"
    by (simp_all add: sample_event_def sample_blog_def)
  from patch_frame [of ?env ?reqE ?st "fst (route_patch_events ?env ?reqE ?st)"
      "snd (route_patch_events ?env ?reqE ?st)" ?e0 ?b0, THEN conjunct1, THEN mp, OF hE]
  obtain e1 where e1: "map_of (events (snd (route_patch_events ?env ?reqE ?st))) idE = Some e1"
    "views e1 = views ?e0" "isDeleted e1 = isDeleted ?e0" "deletedAt e1 = deletedAt ?e0"
    "createdBy e1 = createdBy ?e0"
    by auto
  from e1(1) have e1v: "publishedAt e1 = Some 1000 \<and> slug e1 = Some ''new-title-1000''"
    by (auto simp: route_patch_events_sample)
  from patch_frame [of ?env ?reqF ?st "fst (route_patch_blogs ?env ?reqF ?st)"
      "snd (route_patch_blogs ?env ?reqF ?st)" ?e0 ?b0, THEN conjunct2, THEN mp, OF hF]
  obtain b1 where b1: "map_of (blogs (snd (route_patch_blogs ?env ?reqF ?st))) idF = Some b1"
    "views b1 = views ?b0" "isDeleted b1 = isDeleted ?b0" "deletedAt b1 = deletedAt ?b0"
    "createdBy b1 = createdBy ?b0"
    by auto
  from b1(1) have b1v: "publishedAt b1 = Some 1000 \<and> slug b1 = Some ''new-title-1000''"
    by (auto simp: route_patch_blogs_sample)
  from e1 e1v b1 b1v old show ?thesis
    by (intro conjI exI [of _ e1] exI [of _ b1]) simp_all
qed

text \<open>
  The protection is the validation's. The handler applies whatever keys its body holds:
  called without the middleware, the same kind of body overwrites the view counter.
\<close>

lemma updateEvent_unvalidated_views:
  "map_option views (map_of (events (snd (updateEvent (sample_env 1000 idB)
       \<lparr>params_id = idE, body = [(''views'', JNum 99)], user_id = idU\<rparr>
       (sample_state False False)))) idE) = Some 99"
  by (simp add: updateEvent_def sample_state_def Event_findById_def sample_event_def event_set_def castRef_def
      castObjectId_samples Event_save_def event_validate_def string_path_ok_def eventSchema_pre_save_def
      event_isModified_def Let_def updateWhere_def)

section \<open>The publication stamp\<close>

lemma event_pre_save_keeps_stamp:
  "publishedAt this = Some t \<Longrightarrow> publishedAt (eventSchema_pre_save env im this) = Some t"
  by (simp add: eventSchema_pre_save_def Let_def)

lemma blog_pre_save_keeps_stamp:
  "publishedAt this = Some t \<Longrightarrow> publishedAt (blogSchema_pre_save env im this) = Some t"
  by (simp add: blogSchema_pre_save_def Let_def)

lemma Event_save_keeps:
  assumes "Event_save env c k loaded this = Inr (e1, c')" "map_of c i = Some e" "publishedAt e = Some t"
    "i = k \<longrightarrow> publishedAt this = Some t"
  shows "\<exists>e'. map_of c' i = Some e' \<and> publishedAt e' = Some t"
  using assms Event_save_Inr(1,2) [OF assms(1)]
  by (auto simp: map_of_save_other event_pre_save_keeps_stamp)

lemma Blog_save_keeps:
  assumes "Blog_save env c k loaded this = Inr (e1, c')" "map_of c i = Some e" "publishedAt e = Some t"
    "i = k \<longrightarrow> publishedAt this = Some t"
  shows "\<exists>e'. map_of c' i = Some e' \<and> publishedAt e' = Some t"
  using assms Blog_save_Inr(1,2) [OF assms(1)]
  by (auto simp: map_of_save_other blog_pre_save_keeps_stamp)

lemma deleteEvent_keeps:
  assumes "map_of (events st) i = Some e" "publishedAt e = Some t"
  shows "\<exists>e'. map_of (events (snd (deleteEvent env req st))) i = Some e' \<and> publishedAt e' = Some t"
proof (cases "Event_findById False (events st) (params_id req)")
  case None
  with assms show ?thesis by (simp add: deleteEvent_def)
next
  case (Some e0)
  note f = this
  show ?thesis
  proof (cases "event_softDelete env (events st) (params_id req) e0")
    case (Inl err)
    with assms f show ?thesis by (simp add: deleteEvent_def)
  next
    case (Inr p)
    obtain e1 evs where p: "p = (e1, evs)" by (cases p)
    note s = Inr [unfolded p event_softDelete_def]
    have "i = params_id req \<longrightarrow> publishedAt (e0\<lparr>isDeleted := True, deletedAt := Some (now env)\<rparr>) = Some t"
      using Event_findById_Some [OF f] assms by auto
    from Event_save_keeps [OF s assms this]
    show ?thesis using f Inr p by (simp add: deleteEvent_def Let_def)
  qed
qed

lemma restoreEvent_keeps:
  assumes "map_of (events st) i = Some e" "publishedAt e = Some t"
  shows "\<exists>e'. map_of (events (snd (restoreEvent env req st))) i = Some e' \<and> publishedAt e' = Some t"
proof (cases "Event_findById True (events st) (params_id req)")
  case None
  with assms show ?thesis by (simp add: restoreEvent_def)
next
  case (Some e0)
  note f = this
  show ?thesis
  proof (cases "isDeleted e0")
    case False
    with assms f show ?thesis by (simp add: restoreEvent_def)
  next
    case True
    note d = this
    show ?thesis
    proof (cases "event_restore env (events st) (params_id req) e0")
      case (Inl err)
      with assms f d show ?thesis by (simp add: restoreEvent_def)
    next
      case (Inr p)
      obtain e1 evs where p: "p = (e1, evs)" by (cases p)
      note s = Inr [unfolded p event_restore_def]
      have "i = params_id req \<longrightarrow> publishedAt (e0\<lparr>isDeleted := False, deletedAt := None\<rparr>) = Some t"
        using Event_findById_Some [OF f] assms by auto
      from Event_save_keeps [OF s assms this]
      show ?thesis using f d Inr p by (simp add: restoreEvent_def Let_def)
    qed
  qed
qed

lemma deleteBlog_keeps:
  assumes "map_of (blogs st) i = Some e" "publishedAt e = Some t"
  shows "\<exists>e'. map_of (blogs (snd (deleteBlog env req st))) i = Some e' \<and> publishedAt e' = Some t"
proof (cases "Blog_findById False (blogs st) (params_id req)")
  case None
  with assms show ?thesis by (simp add: deleteBlog_def)
next
  case (Some e0)
  note f = this
  show ?thesis
  proof (cases "blog_softDelete env (blogs st) (params_id req) e0")
    case (Inl err)
    with assms f show ?thesis by (simp add: deleteBlog_def)
  next
    case (Inr p)
    obtain e1 evs where p: "p = (e1, evs)" by (cases p)
    note s = Inr [unfolded p blog_softDelete_def]
    have "i = params_id req \<longrightarrow> publishedAt (e0\<lparr>isDeleted := True, deletedAt := Some (now env)\<rparr>) = Some t"
      using Blog_findById_Some [OF f] assms by auto
    from Blog_save_keeps [OF s assms this]
    show ?thesis using f Inr p by (simp add: deleteBlog_def Let_def)
  qed
qed

lemma restoreBlog_keeps:
  assumes "map_of (blogs st) i = Some e" "publishedAt e = Some t"
  shows "\<exists>e'. map_of (blogs (snd (restoreBlog env req st))) i = Some e' \<and> publishedAt e' = Some t"
proof (cases "Blog_findById True (blogs st) (params_id req)")
  case None
  with assms show ?thesis by (simp add: restoreBlog_def)
next
  case (Some e0)
  note f = this
  show ?thesis
  proof (cases "isDeleted e0")
    case False
    with assms f show ?thesis by (simp add: restoreBlog_def)
  next
    case True
    note d = this
    show ?thesis
    proof (cases "blog_restore env (blogs st) (params_id req) e0")
      case (Inl err)
      with assms f d show ?thesis by (simp add: restoreBlog_def)
    next
      case (Inr p)
      obtain e1 evs where p: "p = (e1, evs)" by (cases p)
      note s = Inr [unfolded p blog_restore_def]
      have "i = params_id req \<longrightarrow> publishedAt (e0\<lparr>isDeleted := False, deletedAt := None\<rparr>) = Some t"
        using Blog_findById_Some [OF f] assms by auto
      from Blog_save_keeps [OF s assms this]
      show ?thesis using f d Inr p by (simp add: restoreBlog_def Let_def)
    qed
  qed
qed

lemma createEvent_keeps:
  assumes "map_of (events st) i = Some e"
  shows "map_of (events (snd (createEvent env req st))) i = Some e"
    and "blogs (snd (createEvent env req st)) = blogs st"
  using assms
  by (auto simp: createEvent_def Event_create_def Let_def
      split: sum.splits option.splits if_splits prod.splits)

lemma createBlog_keeps:
  assumes "map_of (blogs st) i = Some e"
  shows "map_of (blogs (snd (createBlog env req st))) i = Some e"
    and "events (snd (createBlog env req st)) = events st"
  using assms
  by (auto simp: createBlog_def Blog_create_def Let_def
      split: sum.splits option.splits if_splits prod.splits)

lemma event_set_stamp:
  assumes "event_set e k v = Some e'" "k \<noteq> ''publishedAt''"
  shows "publishedAt e' = publishedAt e"
  using assms by (auto simp: event_set_def split: if_splits jvalue.splits)

lemma blog_set_stamp:
  assumes "blog_set e k v = Some e'" "k \<noteq> ''publishedAt''"
  shows "publishedAt e' = publishedAt e"
  using assms by (auto simp: blog_set_def split: if_splits jvalue.splits)

lemma event_assign_stamp:
  assumes "event_assign e kvs = Some e'" "''publishedAt'' \<notin> set (map fst kvs)"
  shows "publishedAt e' = publishedAt e"
  using assms
proof (induction kvs arbitrary: e)
  case Nil
  then show ?case by simp
next
  case (Cons kv kvs)
  obtain k v where kv: "kv = (k, v)" by (cases kv)
  from Cons.prems(1) kv obtain e1 where s: "event_set e k v = Some e1" and a: "event_assign e1 kvs = Some e'"
    by (auto split: option.splits)
  from Cons.prems(2) kv have k: "k \<noteq> ''publishedAt''" and ks: "''publishedAt'' \<notin> set (map fst kvs)"
    by auto
  from event_set_stamp [OF s k] Cons.IH [OF a ks] show ?case by simp
qed

lemma blog_assign_stamp:
  assumes "blog_assign e kvs = Some e'" "''publishedAt'' \<notin> set (map fst kvs)"
  shows "publishedAt e' = publishedAt e"
  using assms
proof (induction kvs arbitrary: e)
  case Nil
  then show ?case by simp
next
  case (Cons kv kvs)
  obtain k v where kv: "kv = (k, v)" by (cases kv)
  from Cons.prems(1) kv obtain e1 where s: "blog_set e k v = Some e1" and a: "blog_assign e1 kvs = Some e'"
    by (auto split: option.splits)
  from Cons.prems(2) kv have k: "k \<noteq> ''publishedAt''" and ks: "''publishedAt'' \<notin> set (map fst kvs)"
    by auto
  from blog_set_stamp [OF s k] Cons.IH [OF a ks] show ?case by simp
qed

lemma map_filter_all_Some:
  "\<forall>(k, r) \<in> set xs. r \<noteq> None \<Longrightarrow>
   map fst (List.map_filter (\<lambda>(k, r). map_option (Pair k) r) xs) = map fst xs"
  by (induction xs) (auto simp: List.map_filter_simps)

lemma Joi_validate_default_key:
  assumes "Joi_validate sch b = Inr val" "k \<in> set (map fst (defaults sch))"
  shows "k \<in> set (map fst val)"
proof -
  let ?known = "filter (\<lambda>(k, v). k \<in> set (map fst (rules sch))) b"
  let ?checked = "map (\<lambda>(k, v). (k, case map_of (rules sch) k of None \<Rightarrow> None | Some r \<Rightarrow> r v)) ?known"
  from assms(1) have val: "val = List.map_filter (\<lambda>(k, r). map_option (Pair k) r) ?checked
                @ filter (\<lambda>(k, d). k \<notin> set (map fst ?known)) (defaults sch)"
    and ok: "filter (\<lambda>(k, r). r = None) ?checked = []"
    by (simp_all add: Joi_validate_def Let_def split: if_splits)
  from ok have "\<forall>(k, r) \<in> set ?checked. r \<noteq> None"
    by (auto simp: filter_empty_conv)
  from map_filter_all_Some [OF this]
  have keys: "map fst (List.map_filter (\<lambda>(k, r). map_option (Pair k) r) ?checked) = map fst ?known"
    by (simp add: comp_def case_prod_unfold)
  show ?thesis
  proof (cases "k \<in> set (map fst ?known)")
    case True
    then show ?thesis unfolding val map_append set_append keys by blast
  next
    case False
    with assms(2) have "k \<in> set (map fst (filter (\<lambda>(k, d). k \<notin> set (map fst ?known)) (defaults sch)))"
      by force
    then show ?thesis unfolding val map_append set_append by blast
  qed
qed

lemma event_createSchema_keys:
  "''publishedAt'' \<notin> set (map fst (rules event_createSchema)) \<union> set (map fst (defaults event_createSchema))"
  "''status'' \<in> set (map fst (defaults event_createSchema))"
  by (simp_all add: event_createSchema_def)

lemma blog_createSchema_keys:
  "''publishedAt'' \<notin> set (map fst (rules (blog_createSchema u))) \<union> set (map fst (defaults (blog_createSchema u)))"
  "''status'' \<in> set (map fst (defaults (blog_createSchema u)))"
  by (simp_all add: blog_createSchema_def)

lemma route_post_events_stamp:
  assumes "route_post_events env req st = (Inr r, st')"
  shows "\<exists>e. map_of (events st') (newId env) = Some e
           \<and> publishedAt e = (if status e = ''published'' then Some (now env) else None)"
proof -
  from assms obtain req' where v: "validateRequest event_createSchema req = Inr req'"
    and c: "createEvent env req' st = (Inr r, st')"
    by (auto simp: route_post_events_def split: sum.splits)
  note j = validateRequest_Inr [OF v, THEN conjunct2, THEN conjunct2]
  let ?data = "filter (\<lambda>(k, v). k \<noteq> ''createdBy'' \<and> k \<noteq> ''updatedBy'') (body req')
                      @ [(''createdBy'', JStr (user_id req')), (''updatedBy'', JStr (user_id req'))]"
  from c obtain i e evs where cr: "Event_create env (events st) ?data = Inr (i, e, evs)"
    and st': "events st' = evs"
    by (auto simp: createEvent_def Let_def split: sum.splits prod.splits)
  from cr obtain this where a: "event_assign event_new ?data = Some this"
    and e: "e = eventSchema_pre_save env (\<lambda>p. p \<in> set (map fst ?data)) this"
    and evs: "evs = events st @ [(newId env, e)]" and fresh: "newId env \<notin> set (map fst (events st))"
    by (auto simp: Event_create_def Let_def split: option.splits if_splits)
  have nop: "''publishedAt'' \<notin> set (map fst ?data)"
    using Joi_validate_keys [OF j] event_createSchema_keys(1) by auto
  have st: "''status'' \<in> set (map fst ?data)"
    using Joi_validate_default_key [OF j event_createSchema_keys(2)] by force
  have "publishedAt this = None"
    using event_assign_stamp [OF a nop] by (simp add: event_new_def)
  with st have p: "publishedAt e = (if status e = ''published'' then Some (now env) else None)"
    by (simp add: e eventSchema_pre_save_def Let_def)
  have "map_of (events st) (newId env) = None"
    using fresh by (simp add: map_of_eq_None_iff)
  then have "map_of (events st') (newId env) = Some e"
    by (simp add: st' evs map_add_def)
  with p show ?thesis by blast
qed

lemma route_post_blogs_stamp:
  assumes "route_post_blogs env req st = (Inr r, st')"
  shows "\<exists>e. map_of (blogs st') (newId env) = Some e
           \<and> publishedAt e = (if status e = ''published'' then Some (now env) else None)"
proof -
  from assms obtain req' where v: "validateRequest (blog_createSchema (uri env)) req = Inr req'"
    and c: "createBlog env req' st = (Inr r, st')"
    by (auto simp: route_post_blogs_def split: sum.splits)
  note j = validateRequest_Inr [OF v, THEN conjunct2, THEN conjunct2]
  let ?data = "filter (\<lambda>(k, v). k \<noteq> ''author'' \<and> k \<noteq> ''createdBy'' \<and> k \<noteq> ''updatedBy'') (body req')
                     @ [(''author'', JStr (user_id req')), (''createdBy'', JStr (user_id req')),
                        (''updatedBy'', JStr (user_id req'))]"
  from c obtain i e evs where cr: "Blog_create env (blogs st) ?data = Inr (i, e, evs)"
    and st': "blogs st' = evs"
    by (auto simp: createBlog_def Let_def split: sum.splits prod.splits if_splits)
  from cr obtain this where a: "blog_assign blog_new ?data = Some this"
    and e: "e = blogSchema_pre_save env (\<lambda>p. p \<in> set (map fst ?data)) this"
    and evs: "evs = blogs st @ [(newId env, e)]" and fresh: "newId env \<notin> set (map fst (blogs st))"
    by (auto simp: Blog_create_def Let_def split: option.splits if_splits)
  have nop: "''publishedAt'' \<notin> set (map fst ?data)"
    using Joi_validate_keys [OF j] blog_createSchema_keys(1) [of "uri env"] by auto
  have st: "''status'' \<in> set (map fst ?data)"
    using Joi_validate_default_key [OF j blog_createSchema_keys(2)] by force
  have "publishedAt this = None"
    using blog_assign_stamp [OF a nop] by (simp add: blog_new_def)
  with st have p: "publishedAt e = (if status e = ''published'' then Some (now env) else None)"
    by (simp add: e blogSchema_pre_save_def Let_def)
  have "map_of (blogs st) (newId env) = None"
    using fresh by (simp add: map_of_eq_None_iff)
  then have "map_of (blogs st') (newId env) = Some e"
    by (simp add: st' evs map_add_def)
  with p show ?thesis by blast
qed

lemma route_patch_events_stamp:
  assumes run: "route_patch_events env req st = (Inr r, st')"
      and old: "map_of (events st) (params_id req) = Some e0"
      and new: "map_of (events st') (params_id req) = Some e1"
  shows "publishedAt e1 = (if publishedAt e0 = None \<and> status e1 = ''published'' \<and> status e0 \<noteq> ''published''
                           then Some (now env) else publishedAt e0)"
proof -
  from run obtain req' where v: "validateRequest event_updateSchema req = Inr req'"
    and u: "updateEvent env req' st = (Inr r, st')"
    by (auto simp: route_patch_events_def split: sum.splits)
  note w = validateRequest_Inr [OF v]
  from updateEvent_cases [OF u] obtain x0 asg where
        f: "Event_findById False (events st) (params_id req') = Some x0"
        and a: "event_assign x0 (filter (\<lambda>(k, v). k \<noteq> ''updatedBy'') (body req')
                             @ [(''updatedBy'', JStr (user_id req'))]) = Some asg"
        and e: "events st' = updateWhere (\<lambda>k e. k = params_id req')
             (\<lambda>e. eventSchema_pre_save env (event_isModified x0 asg) asg) (events st)"
    by auto
  have x0: "x0 = e0"
    using Event_findById_Some [OF f] old w by simp
  note fr = event_assign_frame [OF a patch_keys [OF w [THEN conjunct2, THEN conjunct2]
            event_updateSchema_keys], unfolded x0]
  have "e1 = eventSchema_pre_save env (event_isModified e0 asg) asg"
    using new old w by (simp add: e x0 map_of_updateWhere)
  then show ?thesis
    using fr by (auto simp: eventSchema_pre_save_def event_isModified_def Let_def)
qed

lemma route_patch_blogs_stamp:
  assumes run: "route_patch_blogs env req st = (Inr r, st')"
      and old: "map_of (blogs st) (params_id req) = Some e0"
      and new: "map_of (blogs st') (params_id req) = Some e1"
  shows "publishedAt e1 = (if publishedAt e0 = None \<and> status e1 = ''published'' \<and> status e0 \<noteq> ''published''
                           then Some (now env) else publishedAt e0)"
proof -
  from run obtain req' where v: "validateRequest (blog_updateSchema (uri env)) req = Inr req'"
    and u: "updateBlog env req' st = (Inr r, st')"
    by (auto simp: route_patch_blogs_def split: sum.splits)
  note w = validateRequest_Inr [OF v]
  from updateBlog_cases [OF u] obtain x0 asg where
        f: "Blog_findById False (blogs st) (params_id req') = Some x0"
        and a: "blog_assign x0 (filter (\<lambda>(k, v). k \<noteq> ''updatedBy'') (body req')
                             @ [(''updatedBy'', JStr (user_id req'))]) = Some asg"
        and e: "blogs st' = updateWhere (\<lambda>k e. k = params_id req')
             (\<lambda>e. blogSchema_pre_save env (blog_isModified x0 asg) asg) (blogs st)"
    by auto
  have x0: "x0 = e0"
    using Blog_findById_Some [OF f] old w by simp
  note fr = blog_assign_frame [OF a patch_keys [OF w [THEN conjunct2, THEN conjunct2]
            blog_updateSchema_keys], unfolded x0]
  have "e1 = blogSchema_pre_save env (blog_isModified e0 asg) asg"
    using new old w by (simp add: e x0 map_of_updateWhere)
  then show ?thesis
    using fr by (auto simp: blogSchema_pre_save_def blog_isModified_def Let_def)
qed

subsection \<open>Handlers of one collection leave the other alone\<close>

lemma event_handlers_blogs:
  "blogs (snd (deleteEvent env req st)) = blogs st"
  "blogs (snd (restoreEvent env req st)) = blogs st"
  "blogs (snd (route_post_events env req st)) = blogs st"
  "blogs (snd (route_patch_events env req st)) = blogs st"
  "blogs (snd (deleteMedia req st)) = blogs st"
proof -
  show "blogs (snd (deleteEvent env req st)) = blogs st"
    by (simp add: deleteEvent_def Let_def split: option.splits sum.splits prod.splits)
  show "blogs (snd (restoreEvent env req st)) = blogs st"
    by (simp add: restoreEvent_def Let_def split: option.splits sum.splits prod.splits)
  show "blogs (snd (route_post_events env req st)) = blogs st"
    by (simp add: route_post_events_def createEvent_def Let_def
        split: option.splits sum.splits prod.splits)
  show "blogs (snd (route_patch_events env req st)) = blogs st"
    by (rule route_patch_events_frame_blogs)
  show "blogs (snd (deleteMedia req st)) = blogs st"
    by (simp add: deleteMedia_def Let_def split: option.splits)
qed

lemma blog_handlers_events:
  "events (snd (deleteBlog env req st)) = events st"
  "events (snd (restoreBlog env req st)) = events st"
  "events (snd (route_post_blogs env req st)) = events st"
  "events (snd (route_patch_blogs env req st)) = events st"
  "events (snd (deleteMedia req st)) = events st"
proof -
  show "events (snd (deleteBlog env req st)) = events st"
    by (simp add: deleteBlog_def Let_def split: option.splits sum.splits prod.splits)
  show "events (snd (restoreBlog env req st)) = events st"
    by (simp add: restoreBlog_def Let_def split: option.splits sum.splits prod.splits)
  show "events (snd (route_post_blogs env req st)) = events st"
    by (simp add: route_post_blogs_def createBlog_def Let_def
        split: option.splits sum.splits prod.splits)
  show "events (snd (route_patch_blogs env req st)) = events st"
    by (rule route_patch_blogs_frame_events)
  show "events (snd (deleteMedia req st)) = events st"
    by (simp add: deleteMedia_def Let_def split: option.splits)
qed

lemma route_post_events_keeps:
  assumes "map_of (events st) i = Some e"
  shows "map_of (events (snd (route_post_events env req st))) i = Some e"
  using assms createEvent_keeps(1) [OF assms]
  by (simp add: route_post_events_def split: sum.splits)

lemma route_post_blogs_keeps:
  assumes "map_of (blogs st) i = Some e"
  shows "map_of (blogs (snd (route_post_blogs env req st))) i = Some e"
  using assms createBlog_keeps(1) [OF assms]
  by (simp add: route_post_blogs_def split: sum.splits)

lemma route_patch_events_others:
  assumes run: "route_patch_events env req st = (res, st')" and k: "k \<noteq> params_id req"
  shows "map_of (events st') k = map_of (events st) k"
proof (cases "validateRequest event_updateSchema req")
  case (Inl err)
  with run show ?thesis by (simp add: route_patch_events_def)
next
  case (Inr req')
  note v = validateRequest_Inr [OF Inr]
  from run Inr have u: "updateEvent env req' st = (res, st')"
    by (simp add: route_patch_events_def)
  from updateEvent_cases [OF u]
  have "st' = st \<or> (\<exists>f. events st' = updateWhere (\<lambda>k e. k = params_id req') f (events st))"
    by blast
  then show ?thesis
    using k v by (auto simp: map_of_updateWhere split: option.splits)
qed

lemma route_patch_blogs_others:
  assumes run: "route_patch_blogs env req st = (res, st')" and k: "k \<noteq> params_id req"
  shows "map_of (blogs st') k = map_of (blogs st) k"
proof (cases "validateRequest (blog_updateSchema (uri env)) req")
  case (Inl err)
  with run show ?thesis by (simp add: route_patch_blogs_def)
next
  case (Inr req')
  note v = validateRequest_Inr [OF Inr]
  from run Inr have u: "updateBlog env req' st = (res, st')"
    by (simp add: route_patch_blogs_def)
  from updateBlog_cases [OF u]
  have "st' = st \<or> (\<exists>f. blogs st' = updateWhere (\<lambda>k e. k = params_id req') f (blogs st))"
    by blast
  then show ?thesis
    using k v by (auto simp: map_of_updateWhere split: option.splits)
qed

lemma route_patch_events_keeps:
  assumes "map_of (events st) i = Some e" "publishedAt e = Some t"
  shows "\<exists>e'. map_of (events (snd (route_patch_events env req st))) i = Some e' \<and> publishedAt e' = Some t"
proof -
  obtain res st' where r: "route_patch_events env req st = (res, st')"
    by (cases "route_patch_events env req st")
  show ?thesis
  proof (cases "i = params_id req")
    case True
    with route_patch_events_frame(1) [OF r, of e] assms show ?thesis
      by (auto simp: r)
  next
    case False
    with route_patch_events_others [OF r] assms show ?thesis
      by (simp add: r)
  qed
qed

lemma route_patch_blogs_keeps:
  assumes "map_of (blogs st) i = Some e" "publishedAt e = Some t"
  shows "\<exists>e'. map_of (blogs (snd (route_patch_blogs env req st))) i = Some e' \<and> publishedAt e' = Some t"
proof -
  obtain res st' where r: "route_patch_blogs env req st = (res, st')"
    by (cases "route_patch_blogs env req st")
  show ?thesis
  proof (cases "i = params_id req")
    case True
    with route_patch_blogs_frame(1) [OF r, of e] assms show ?thesis
      by (auto simp: r)
  next
    case False
    with route_patch_blogs_others [OF r] assms show ?thesis
      by (simp add: r)
  qed
qed

subsection \<open>The ids of a collection\<close>

lemma map_fst_updateWhere: "map fst (updateWhere P f c) = map fst c"
  by (induction c) (auto simp: updateWhere_def)

lemma find_distinct_map_of:
  assumes "find P c = Some (i, e)" "distinct (map fst c)"
  shows "map_of c i = Some e"
proof -
  from assms(1) have "(i, e) \<in> set c"
    by (auto simp: find_Some_iff in_set_conv_nth)
  with assms(2) show ?thesis by simp
qed

lemma Event_save_keys:
  "Event_save env c i loaded this = Inr (e', c') \<Longrightarrow> map fst c' = map fst c"
  using Event_save_Inr(2) [of env c i loaded this e' c'] by (simp add: map_fst_updateWhere)

lemma Blog_save_keys:
  "Blog_save env c i loaded this = Inr (e', c') \<Longrightarrow> map fst c' = map fst c"
  using Blog_save_Inr(2) [of env c i loaded this e' c'] by (simp add: map_fst_updateWhere)

lemma event_keys:
  "map fst (events (snd (deleteEvent env req st))) = map fst (events st)"
  "map fst (events (snd (restoreEvent env req st))) = map fst (events st)"
  "map fst (events (snd (route_patch_events env req st))) = map fst (events st)"
  "map fst (events (snd (getEvent env role i st))) = map fst (events st)"
  "map fst (events (snd (getEventBySlug env s st))) = map fst (events st)"
proof -
  show "map fst (events (snd (deleteEvent env req st))) = map fst (events st)"
    by (auto simp: deleteEvent_def event_softDelete_def Let_def Event_save_keys
        split: option.splits sum.splits prod.splits)
  show "map fst (events (snd (restoreEvent env req st))) = map fst (events st)"
    by (auto simp: restoreEvent_def event_restore_def Let_def Event_save_keys
        split: option.splits sum.splits prod.splits)
  show "map fst (events (snd (getEvent env role i st))) = map fst (events st)"
    by (auto simp: getEvent_def Let_def Event_save_keys
        split: option.splits sum.splits prod.splits)
  show "map fst (events (snd (getEventBySlug env s st))) = map fst (events st)"
    by (auto simp: getEventBySlug_def Let_def Event_save_keys
        split: option.splits sum.splits prod.splits)
  show "map fst (events (snd (route_patch_events env req st))) = map fst (events st)"
  proof (cases "validateRequest event_updateSchema req")
    case (Inl err)
    then show ?thesis by (simp add: route_patch_events_def)
  next
    case (Inr req')
    obtain res st' where u: "updateEvent env req' st = (res, st')"
      by (cases "updateEvent env req' st")
    from updateEvent_cases [OF u]
    have "st' = st \<or> (\<exists>f. events st' = updateWhere (\<lambda>k e. k = params_id req') f (events st))"
      by blast
    then show ?thesis
      using Inr u by (auto simp: route_patch_events_def map_fst_updateWhere)
  qed
qed

lemma blog_keys:
  "map fst (blogs (snd (deleteBlog env req st))) = map fst (blogs st)"
  "map fst (blogs (snd (restoreBlog env req st))) = map fst (blogs st)"
  "map fst (blogs (snd (route_patch_blogs env req st))) = map fst (blogs st)"
  "map fst (blogs (snd (getBlog env role i st))) = map fst (blogs st)"
  "map fst (blogs (snd (getBlogBySlug env s st))) = map fst (blogs st)"
proof -
  show "map fst (blogs (snd (deleteBlog env req st))) = map fst (blogs st)"
    by (auto simp: deleteBlog_def blog_softDelete_def Let_def Blog_save_keys
        split: option.splits sum.splits prod.splits)
  show "map fst (blogs (snd (restoreBlog env req st))) = map fst (blogs st)"
    by (auto simp: restoreBlog_def blog_restore_def Let_def Blog_save_keys
        split: option.splits sum.splits prod.splits)
  show "map fst (blogs (snd (getBlog env role i st))) = map fst (blogs st)"
    by (auto simp: getBlog_def Let_def Blog_save_keys
        split: option.splits sum.splits prod.splits)
  show "map fst (blogs (snd (getBlogBySlug env s st))) = map fst (blogs st)"
    by (auto simp: getBlogBySlug_def Let_def Blog_save_keys
        split: option.splits sum.splits prod.splits)
  show "map fst (blogs (snd (route_patch_blogs env req st))) = map fst (blogs st)"
  proof (cases "validateRequest (blog_updateSchema (uri env)) req")
    case (Inl err)
    then show ?thesis by (simp add: route_patch_blogs_def)
  next
    case (Inr req')
    obtain res st' where u: "updateBlog env req' st = (res, st')"
      by (cases "updateBlog env req' st")
    from updateBlog_cases [OF u]
    have "st' = st \<or> (\<exists>f. blogs st' = updateWhere (\<lambda>k e. k = params_id req') f (blogs st))"
      by blast
    then show ?thesis
      using Inr u by (auto simp: route_patch_blogs_def map_fst_updateWhere)
  qed
qed

lemma route_post_events_distinct:
  "distinct (map fst (events st)) \<Longrightarrow> distinct (map fst (events (snd (route_post_events env req st))))"
  by (auto simp: route_post_events_def createEvent_def Event_create_def Let_def
      split: sum.splits option.splits if_splits prod.splits)

lemma route_post_blogs_distinct:
  "distinct (map fst (blogs st)) \<Longrightarrow> distinct (map fst (blogs (snd (route_post_blogs env req st))))"
  by (auto simp: route_post_blogs_def createBlog_def Blog_create_def Let_def
      split: sum.splits option.splits if_splits prod.splits)

lemma get_handlers_other:
  "blogs (snd (getEvent env role i st)) = blogs st"
  "blogs (snd (getEventBySlug env s st)) = blogs st"
  "events (snd (getBlog env role i st)) = events st"
  "events (snd (getBlogBySlug env s st)) = events st"
  by (auto simp: getEvent_def getEventBySlug_def getBlog_def getBlogBySlug_def Let_def
      split: option.splits sum.splits prod.splits)

lemma getEvent_keeps:
  assumes "map_of (events st) k = Some e" "publishedAt e = Some t"
  shows "\<exists>e'. map_of (events (snd (getEvent env role i st))) k = Some e' \<and> publishedAt e' = Some t"
proof (cases "Event_findById False (events st) i")
  case None
  with assms show ?thesis by (simp add: getEvent_def)
next
  case (Some e0)
  note f = this
  show ?thesis
  proof (cases "Event_save env (events st) i e0 (e0\<lparr>views := views e0 + 1\<rparr>)")
    case (Inl err)
    with assms f show ?thesis by (simp add: getEvent_def)
  next
    case (Inr p)
    obtain e1 evs where p: "p = (e1, evs)" by (cases p)
    note s = Inr [unfolded p]
    have "k = i \<longrightarrow> publishedAt (e0\<lparr>views := views e0 + 1\<rparr>) = Some t"
      using Event_findById_Some [OF f] assms by auto
    from Event_save_keeps [OF s assms this]
    show ?thesis using f Inr p assms by (simp add: getEvent_def Let_def)
  qed
qed

lemma getBlog_keeps:
  assumes "map_of (blogs st) k = Some e" "publishedAt e = Some t"
  shows "\<exists>e'. map_of (blogs (snd (getBlog env role i st))) k = Some e' \<and> publishedAt e' = Some t"
proof (cases "Blog_findById False (blogs st) i")
  case None
  with assms show ?thesis by (simp add: getBlog_def)
next
  case (Some e0)
  note f = this
  show ?thesis
  proof (cases "Blog_save env (blogs st) i e0 (e0\<lparr>views := views e0 + 1\<rparr>)")
    case (Inl err)
    with assms f show ?thesis by (simp add: getBlog_def)
  next
    case (Inr p)
    obtain e1 evs where p: "p = (e1, evs)" by (cases p)
    note s = Inr [unfolded p]
    have "k = i \<longrightarrow> publishedAt (e0\<lparr>views := views e0 + 1\<rparr>) = Some t"
      using Blog_findById_Some [OF f] assms by auto
    from Blog_save_keeps [OF s assms this]
    show ?thesis using f Inr p assms by (simp add: getBlog_def Let_def)
  qed
qed

lemma getEventBySlug_keeps:
  assumes "map_of (events st) k = Some e" "publishedAt e = Some t" "distinct (map fst (events st))"
  shows "\<exists>e'. map_of (events (snd (getEventBySlug env s st))) k = Some e' \<and> publishedAt e' = Some t"
proof (cases "Event_findOne_published (events st) s")
  case None
  with assms show ?thesis by (simp add: getEventBySlug_def)
next
  case (Some q)
  obtain i e0 where q: "q = (i, e0)" by (cases q)
  note f = Some [unfolded q]
  have m: "map_of (events st) i = Some e0"
    using f assms(3) by (simp add: Event_findOne_published_def find_distinct_map_of)
  show ?thesis
  proof (cases "Event_save env (events st) i e0 (e0\<lparr>views := views e0 + 1\<rparr>)")
    case (Inl err)
    with assms f show ?thesis by (simp add: getEventBySlug_def)
  next
    case (Inr p)
    obtain e1 evs where p: "p = (e1, evs)" by (cases p)
    note s = Inr [unfolded p]
    have "k = i \<longrightarrow> publishedAt (e0\<lparr>views := views e0 + 1\<rparr>) = Some t"
      using m assms(1,2) by auto
    from Event_save_keeps [OF s assms(1,2) this]
    show ?thesis using f Inr p assms by (simp add: getEventBySlug_def Let_def)
  qed
qed

lemma getBlogBySlug_keeps:
  assumes "map_of (blogs st) k = Some e" "publishedAt e = Some t" "distinct (map fst (blogs st))"
  shows "\<exists>e'. map_of (blogs (snd (getBlogBySlug env s st))) k = Some e' \<and> publishedAt e' = Some t"
proof (cases "Blog_findOne_published (blogs st) s")
  case None
  with assms show ?thesis by (simp add: getBlogBySlug_def)
next
  case (Some q)
  obtain i e0 where q: "q = (i, e0)" by (cases q)
  note f = Some [unfolded q]
  have m: "map_of (blogs st) i = Some e0"
    using f assms(3) by (simp add: Blog_findOne_published_def find_distinct_map_of)
  show ?thesis
  proof (cases "Blog_save env (blogs st) i e0 (e0\<lparr>views := views e0 + 1\<rparr>)")
    case (Inl err)
    with assms f show ?thesis by (simp add: getBlogBySlug_def)
  next
    case (Inr p)
    obtain e1 evs where p: "p = (e1, evs)" by (cases p)
    note s = Inr [unfolded p]
    have "k = i \<longrightarrow> publishedAt (e0\<lparr>views := views e0 + 1\<rparr>) = Some t"
      using m assms(1,2) by auto
    from Blog_save_keeps [OF s assms(1,2) this]
    show ?thesis using f Inr p assms by (simp add: getBlogBySlug_def Let_def)
  qed
qed

subsection \<open>Any call keeps a stamp\<close>

lemma perform_distinct_events:
  assumes "distinct (map fst (events st))"
  shows "distinct (map fst (events (perform c st)))"
  using assms route_post_events_distinct [OF assms]
  by (cases c) (simp_all add: event_keys blog_handlers_events get_handlers_other)

lemma perform_distinct_blogs:
  assumes "distinct (map fst (blogs st))"
  shows "distinct (map fst (blogs (perform c st)))"
  using assms route_post_blogs_distinct [OF assms]
  by (cases c) (simp_all add: blog_keys event_handlers_blogs get_handlers_other)

lemma perform_keeps_event_stamp:
  assumes "map_of (events st) i = Some e" "publishedAt e = Some t" "distinct (map fst (events st))"
  shows "\<exists>e'. map_of (events (perform c st)) i = Some e' \<and> publishedAt e' = Some t"
proof (cases c)
  case (PostEvent env req)
  with assms route_post_events_keeps [OF assms(1)] show ?thesis by simp
next
  case (PatchEvent env req)
  with route_patch_events_keeps [OF assms(1,2)] show ?thesis by simp
next
  case (DeleteEvent env req)
  with deleteEvent_keeps [OF assms(1,2)] show ?thesis by simp
next
  case (RestoreEvent env req)
  with restoreEvent_keeps [OF assms(1,2)] show ?thesis by simp
next
  case (GetEvent env role k)
  with getEvent_keeps [OF assms(1,2)] show ?thesis by simp
next
  case (GetEventBySlug env s)
  with getEventBySlug_keeps [OF assms] show ?thesis by simp
qed (use assms in \<open>simp_all add: blog_handlers_events get_handlers_other\<close>)

lemma perform_keeps_blog_stamp:
  assumes "map_of (blogs st) i = Some e" "publishedAt e = Some t" "distinct (map fst (blogs st))"
  shows "\<exists>e'. map_of (blogs (perform c st)) i = Some e' \<and> publishedAt e' = Some t"
proof (cases c)
  case (PostBlog env req)
  with assms route_post_blogs_keeps [OF assms(1)] show ?thesis by simp
next
  case (PatchBlog env req)
  with route_patch_blogs_keeps [OF assms(1,2)] show ?thesis by simp
next
  case (DeleteBlog env req)
  with deleteBlog_keeps [OF assms(1,2)] show ?thesis by simp
next
  case (RestoreBlog env req)
  with restoreBlog_keeps [OF assms(1,2)] show ?thesis by simp
next
  case (GetBlog env role k)
  with getBlog_keeps [OF assms(1,2)] show ?thesis by simp
next
  case (GetBlogBySlug env s)
  with getBlogBySlug_keeps [OF assms] show ?thesis by simp
qed (use assms in \<open>simp_all add: event_handlers_blogs get_handlers_other\<close>)

lemma run_keeps_event_stamp:
  "map_of (events st) i = Some e \<Longrightarrow> publishedAt e = Some t \<Longrightarrow> distinct (map fst (events st)) \<Longrightarrow>
   \<exists>e'. map_of (events (run cs st)) i = Some e' \<and> publishedAt e' = Some t"
proof (induction cs arbitrary: st e)
  case Nil
  then show ?case by simp
next
  case (Cons c cs)
  from perform_keeps_event_stamp [OF Cons.prems, of c] obtain e1
    where "map_of (events (perform c st)) i = Some e1" "publishedAt e1 = Some t" by blast
  from Cons.IH [OF this perform_distinct_events [OF Cons.prems(3)]] show ?case by simp
qed

lemma run_keeps_blog_stamp:
  "map_of (blogs st) i = Some e \<Longrightarrow> publishedAt e = Some t \<Longrightarrow> distinct (map fst (blogs st)) \<Longrightarrow>
   \<exists>e'. map_of (blogs (run cs st)) i = Some e' \<and> publishedAt e' = Some t"
proof (induction cs arbitrary: st e)
  case Nil
  then show ?case by simp
next
  case (Cons c cs)
  from perform_keeps_blog_stamp [OF Cons.prems, of c] obtain e1
    where "map_of (blogs (perform c st)) i = Some e1" "publishedAt e1 = Some t" by blast
  from Cons.IH [OF this perform_distinct_blogs [OF Cons.prems(3)]] show ?case by simp
qed

subsection \<open>Creating and publishing on the sample states\<close>

lemma route_post_events_sample:
  "map_option (\<lambda>e. (slug e, status e, publishedAt e))
     (map_of (events (snd (route_post_events (sample_env 1000 idE) (sample_event_request ''published'') sample_empty))) idE)
   = Some (Some ''charity-gala-1000'', ''published'', Some 1000)"
  "isl (fst (route_post_events (sample_env 1000 idE) (sample_event_request ''published'') sample_empty)) = False"
  by (simp_all add: route_post_events_def validateRequest_def Joi_validate_def event_createSchema_def
      joi_string_def joi_valid_def joi_date_def List.map_filter_def sample_event_request_def sample_empty_def
      createEvent_def Event_create_def event_new_def event_set_def set_other_def castRef_def castObjectId_samples
      castObjectId_def castDate_def isHex_def
      trim_def isSpace_def event_validate_def string_path_ok_def eventSchema_pre_save_def
      Let_def sample_env_def sample_slugify_def event_other_paths_def
      toLowerCase_char_def digits.simps digit_char_def)

lemma route_post_blogs_sample:
  "map_option (\<lambda>e. (slug e, status e, publishedAt e))
     (map_of (blogs (snd (route_post_blogs (sample_env 1000 idF) (sample_blog_request ''published'') sample_empty))) idF)
   = Some (Some ''charity-gala-1000'', ''published'', Some 1000)"
  "isl (fst (route_post_blogs (sample_env 1000 idF) (sample_blog_request ''published'') sample_empty)) = False"
  by (simp_all add: route_post_blogs_def validateRequest_def Joi_validate_def blog_createSchema_def
      joi_string_def joi_valid_def joi_date_def joi_hex24_def joi_boolean_def
      List.map_filter_def sample_blog_request_def sample_empty_def
      createBlog_def Blog_create_def blog_new_def blog_set_def set_other_def castRef_def castObjectId_samples
      castObjectId_def castDate_def isHex_def falsy_def
      trim_def isSpace_def blog_validate_def string_path_ok_def blogSchema_pre_save_def
      Let_def sample_env_def sample_slugify_def blog_other_paths_def
      Media_findByIdAndUpdate_def Media_updateMany_in_def updateWhere_def
      toLowerCase_char_def digits.simps digit_char_def)

lemma same_millisecond_events:
  "map_option slug (map_of (events (snd (route_post_events (sample_env 1000 idE) (sample_event_request ''draft'') sample_empty))) idE)
     = Some (Some ''charity-gala-1000'')"
  "route_post_events (sample_env 1000 idB) (sample_event_request ''draft'')
       (snd (route_post_events (sample_env 1000 idE) (sample_event_request ''draft'') sample_empty))
     = (Inl (DuplicateKey ''slug''),
        snd (route_post_events (sample_env 1000 idE) (sample_event_request ''draft'') sample_empty))"
  by (simp_all add: route_post_events_def validateRequest_def Joi_validate_def event_createSchema_def
      joi_string_def joi_valid_def joi_date_def List.map_filter_def sample_event_request_def sample_empty_def
      createEvent_def Event_create_def event_new_def event_set_def set_other_def castRef_def castObjectId_samples
      castObjectId_def castDate_def isHex_def
      trim_def isSpace_def event_validate_def string_path_ok_def eventSchema_pre_save_def
      Let_def sample_env_def sample_slugify_def event_other_paths_def
      toLowerCase_char_def digits.simps digit_char_def)

lemma same_millisecond_blogs:
  "map_option slug (map_of (blogs (snd (route_post_blogs (sample_env 1000 idF) (sample_blog_request ''draft'') sample_empty))) idF)
     = Some (Some ''charity-gala-1000'')"
  "route_post_blogs (sample_env 1000 idB) (sample_blog_request ''draft'')
       (snd (route_post_blogs (sample_env 1000 idF) (sample_blog_request ''draft'') sample_empty))
     = (Inl (DuplicateKey ''slug''),
        snd (route_post_blogs (sample_env 1000 idF) (sample_blog_request ''draft'') sample_empty))"
  by (simp_all add: route_post_blogs_def validateRequest_def Joi_validate_def blog_createSchema_def
      joi_string_def joi_valid_def joi_date_def joi_hex24_def joi_boolean_def
      List.map_filter_def sample_blog_request_def sample_empty_def
      createBlog_def Blog_create_def blog_new_def blog_set_def set_other_def castRef_def castObjectId_samples
      castObjectId_def castDate_def isHex_def falsy_def
      trim_def isSpace_def blog_validate_def string_path_ok_def blogSchema_pre_save_def
      Let_def sample_env_def sample_slugify_def blog_other_paths_def
      Media_findByIdAndUpdate_def Media_updateMany_in_def updateWhere_def
      toLowerCase_char_def digits.simps digit_char_def)

lemma later_millisecond_events:
  "isl (fst (route_post_events (sample_env 1001 idB) (sample_event_request ''draft'')
       (snd (route_post_events (sample_env 1000 idE) (sample_event_request ''draft'') sample_empty)))) = False"
  by (simp_all add: route_post_events_def validateRequest_def Joi_validate_def event_createSchema_def
      joi_string_def joi_valid_def joi_date_def List.map_filter_def sample_event_request_def sample_empty_def
      createEvent_def Event_create_def event_new_def event_set_def set_other_def castRef_def castObjectId_samples
      castObjectId_def castDate_def isHex_def
      trim_def isSpace_def event_validate_def string_path_ok_def eventSchema_pre_save_def
      Let_def sample_env_def sample_slugify_def event_other_paths_def
      toLowerCase_char_def digits.simps digit_char_def)

lemma patch_publish_event_sample:
  "route_patch_events (sample_env 1000 idB) (status_patch idE ''published'') (sample_state False False)
   = (Inr (Response 200 ''Event updated successfully''
        (Some (event_populate (sample_store False)
           ((sample_event (Some idA) [idG] False)\<lparr>status := ''published'', publishedAt := Some 1000\<rparr>)))),
      (sample_state False False)
        \<lparr>events := [(idE, (sample_event (Some idA) [idG] False)
              \<lparr>status := ''published'', publishedAt := Some 1000\<rparr>)]\<rparr>)"
  by (simp add: route_patch_events_def validateRequest_def Joi_validate_def event_updateSchema_def
      joi_string_def joi_valid_def List.map_filter_def status_patch_def
      updateEvent_def sample_state_def Event_findById_def sample_event_def event_set_def castRef_def
      castObjectId_samples trim_def isSpace_def
      Event_save_def event_validate_def string_path_ok_def eventSchema_pre_save_def
      event_isModified_def Let_def updateWhere_def sample_env_def sample_slugify_def
      toLowerCase_char_def digits.simps digit_char_def)

lemma patch_publish_blog_sample:
  "route_patch_blogs (sample_env 1000 idB) (status_patch idF ''published'') (sample_state False False)
   = (Inr (Response 200 ''Blog updated successfully''
        (Some (blog_populate (sample_store False)
           ((sample_blog (Some idA) [idG] None False)\<lparr>status := ''published'', publishedAt := Some 1000\<rparr>)))),
      (sample_state False False)
        \<lparr>blogs := [(idF, (sample_blog (Some idA) [idG] None False)
              \<lparr>status := ''published'', publishedAt := Some 1000\<rparr>)]\<rparr>)"
  by (simp add: route_patch_blogs_def validateRequest_def Joi_validate_def blog_updateSchema_def
      joi_string_def joi_valid_def List.map_filter_def status_patch_def
      updateBlog_def sample_state_def Blog_findById_def sample_blog_def blog_set_def castRef_def
      castObjectId_samples trim_def isSpace_def
      Blog_save_def blog_validate_def string_path_ok_def blogSchema_pre_save_def
      blog_isModified_def Let_def updateWhere_def sample_env_def sample_slugify_def
      toLowerCase_char_def digits.simps digit_char_def)

lemma stamp_sample_run:
  "map_option (\<lambda>e. (status e, views e, publishedAt e))
     (map_of (events (run [PatchEvent (sample_env 1000 idB) (status_patch idE ''published''),
                           GetEvent (sample_env 1500 idB) None idE,
                           PatchEvent (sample_env 2000 idB) (status_patch idE ''draft''),
                           PatchEvent (sample_env 3000 idB) (status_patch idE ''published''),
                           PatchEvent (sample_env 4000 idB) (status_patch idE ''archived'')]
                      (sample_state False False))) idE)
   = Some (''archived'', 1, Some 1000)"
  by (simp add: route_patch_events_def validateRequest_def Joi_validate_def event_updateSchema_def
      joi_string_def joi_valid_def List.map_filter_def status_patch_def getEvent_def
      updateEvent_def sample_state_def Event_findById_def sample_event_def event_set_def castRef_def
      castObjectId_samples trim_def isSpace_def
      Event_save_def event_validate_def string_path_ok_def eventSchema_pre_save_def
      event_isModified_def Let_def updateWhere_def sample_env_def sample_slugify_def
      toLowerCase_char_def digits.simps digit_char_def)

section \<open>Updating without a version\<close>



lemma route_patch_events_errors:
  assumes "route_patch_events env req st = (Inl err, st')"
  shows "st' = st \<and> (err = ApiError 404 ''Event not found'' \<or> (\<exists>fs. err = ValidationFailed fs)
                     \<or> (\<exists>m. err = ValidationError m) \<or> err = DuplicateKey ''slug'')"
proof (cases "validateRequest event_updateSchema req")
  case (Inl x)
  with assms show ?thesis
    by (auto simp: route_patch_events_def validateRequest_def split: sum.splits)
next
  case (Inr req')
  with assms have u: "updateEvent env req' st = (Inl err, st')"
    by (simp add: route_patch_events_def)
  from updateEvent_cases [OF u] show ?thesis by auto
qed

lemma route_patch_blogs_errors:
  assumes "route_patch_blogs env req st = (Inl err, st')"
  shows "st' = st \<and> (err = ApiError 404 ''Blog not found'' \<or> (\<exists>fs. err = ValidationFailed fs)
                     \<or> (\<exists>m. err = ValidationError m) \<or> err = DuplicateKey ''slug'')"
proof (cases "validateRequest (blog_updateSchema (uri env)) req")
  case (Inl x)
  with assms show ?thesis
    by (auto simp: route_patch_blogs_def validateRequest_def split: sum.splits)
next
  case (Inr req')
  with assms have u: "updateBlog env req' st = (Inl err, st')"
    by (simp add: route_patch_blogs_def)
  from updateBlog_cases [OF u] show ?thesis by auto
qed





section \<open>Two documents with one title\<close>

text \<open>
  C3. The slug is the slugified title followed by the time of the save in milliseconds.
  Two events (two blogs) created with the same title while the clock shows the same
  millisecond get the same slug: the first is stored with it, and the second is rejected
  by the unique index on \<^verbatim>\<open>slug\<close>, so it is not created at all.
\<close>

theorem same_title_same_millisecond:
  "map_option slug (map_of (events (snd (route_post_events (sample_env 1000 idE)
       (sample_event_request ''draft'') sample_empty))) idE) = Some (Some ''charity-gala-1000'')
   \<and> route_post_events (sample_env 1000 idB) (sample_event_request ''draft'')
       (snd (route_post_events (sample_env 1000 idE) (sample_event_request ''draft'') sample_empty))
     = (Inl (DuplicateKey ''slug''),
        snd (route_post_events (sample_env 1000 idE) (sample_event_request ''draft'') sample_empty))
   \<and> map_option slug (map_of (blogs (snd (route_post_blogs (sample_env 1000 idF)
       (sample_blog_request ''draft'') sample_empty))) idF) = Some (Some ''charity-gala-1000'')
   \<and> route_post_blogs (sample_env 1000 idB) (sample_blog_request ''draft'')
       (snd (route_post_blogs (sample_env 1000 idF) (sample_blog_request ''draft'') sample_empty))
     = (Inl (DuplicateKey ''slug''),
        snd (route_post_blogs (sample_env 1000 idF) (sample_blog_request ''draft'') sample_empty))"
  using same_millisecond_events same_millisecond_blogs by (intro conjI)

text \<open>
  The hook of either model computes the slug from the title and the clock alone, so equal
  titles saved at equal times give equal slugs whatever else the documents hold.
\<close>

lemma pre_save_slug_of_title_and_time:
  "im ''title'' \<Longrightarrow> slug (eventSchema_pre_save env im e) = Some (slugify env (title e) @ ''-'' @ digits (now env))"
  "im ''title'' \<Longrightarrow> slug (blogSchema_pre_save env im b) = Some (slugify env (title b) @ ''-'' @ digits (now env))"
  by (simp_all add: eventSchema_pre_save_def blogSchema_pre_save_def Let_def)

section \<open>When the publication stamp is written\<close>

lemma Event_save_same:
  assumes "Event_save env c k loaded this = Inr (e1, c')" "map_of c i = Some e"
    "i = k \<longrightarrow> publishedAt this = publishedAt e \<and> status this = status e \<and> status loaded = status e"
  shows "\<exists>e'. map_of c' i = Some e' \<and> publishedAt e' = publishedAt e \<and> status e' = status e"
  using assms Event_save_Inr(1,2) [OF assms(1)]
  by (auto simp: map_of_save_other eventSchema_pre_save_def event_isModified_def Let_def)

lemma Blog_save_same:
  assumes "Blog_save env c k loaded this = Inr (e1, c')" "map_of c i = Some e"
    "i = k \<longrightarrow> publishedAt this = publishedAt e \<and> status this = status e \<and> status loaded = status e"
  shows "\<exists>e'. map_of c' i = Some e' \<and> publishedAt e' = publishedAt e \<and> status e' = status e"
  using assms Blog_save_Inr(1,2) [OF assms(1)]
  by (auto simp: map_of_save_other blogSchema_pre_save_def blog_isModified_def Let_def)

lemma deleteEvent_same:
  assumes "map_of (events st) i = Some e"
  shows "\<exists>e'. map_of (events (snd (deleteEvent env req st))) i = Some e' \<and> publishedAt e' = publishedAt e \<and> status e' = status e"
proof (cases "Event_findById False (events st) (params_id req)")
  case None
  with assms show ?thesis by (simp add: deleteEvent_def)
next
  case (Some e0)
  note f = this
  show ?thesis
  proof (cases "event_softDelete env (events st) (params_id req) e0")
    case (Inl err)
    with assms f show ?thesis by (simp add: deleteEvent_def)
  next
    case (Inr p)
    obtain e1 evs where p: "p = (e1, evs)" by (cases p)
    note s = Inr [unfolded p event_softDelete_def]
    have "i = params_id req \<longrightarrow> publishedAt (e0\<lparr>isDeleted := True, deletedAt := Some (now env)\<rparr>) = publishedAt e \<and> status (e0\<lparr>isDeleted := True, deletedAt := Some (now env)\<rparr>) = status e
          \<and> status e0 = status e"
      using Event_findById_Some [OF f] assms by auto
    from Event_save_same [OF s assms this]
    show ?thesis using f Inr p by (simp add: deleteEvent_def Let_def)
  qed
qed

lemma restoreEvent_same:
  assumes "map_of (events st) i = Some e"
  shows "\<exists>e'. map_of (events (snd (restoreEvent env req st))) i = Some e' \<and> publishedAt e' = publishedAt e \<and> status e' = status e"
proof (cases "Event_findById True (events st) (params_id req)")
  case None
  with assms show ?thesis by (simp add: restoreEvent_def)
next
  case (Some e0)
  note f = this
  show ?thesis
  proof (cases "isDeleted e0")
    case False
    with assms f show ?thesis by (simp add: restoreEvent_def)
  next
    case True
    note d = this
    show ?thesis
    proof (cases "event_restore env (events st) (params_id req) e0")
      case (Inl err)
      with assms f d show ?thesis by (simp add: restoreEvent_def)
    next
      case (Inr p)
      obtain e1 evs where p: "p = (e1, evs)" by (cases p)
      note s = Inr [unfolded p event_restore_def]
      have "i = params_id req \<longrightarrow> publishedAt (e0\<lparr>isDeleted := False, deletedAt := None\<rparr>) = publishedAt e \<and> status (e0\<lparr>isDeleted := False, deletedAt := None\<rparr>) = status e
          \<and> status e0 = status e"
        using Event_findById_Some [OF f] assms by auto
      from Event_save_same [OF s assms this]
      show ?thesis using f d Inr p by (simp add: restoreEvent_def Let_def)
    qed
  qed
qed

lemma deleteBlog_same:
  assumes "map_of (blogs st) i = Some e"
  shows "\<exists>e'. map_of (blogs (snd (deleteBlog env req st))) i = Some e' \<and> publishedAt e' = publishedAt e \<and> status e' = status e"
proof (cases "Blog_findById False (blogs st) (params_id req)")
  case None
  with assms show ?thesis by (simp add: deleteBlog_def)
next
  case (Some e0)
  note f = this
  show ?thesis
  proof (cases "blog_softDelete env (blogs st) (params_id req) e0")
    case (Inl err)
    with assms f show ?thesis by (simp add: deleteBlog_def)
  next
    case (Inr p)
    obtain e1 evs where p: "p = (e1, evs)" by (cases p)
    note s = Inr [unfolded p blog_softDelete_def]
    have "i = params_id req \<longrightarrow> publishedAt (e0\<lparr>isDeleted := True, deletedAt := Some (now env)\<rparr>) = publishedAt e \<and> status (e0\<lparr>isDeleted := True, deletedAt := Some (now env)\<rparr>) = status e
          \<and> status e0 = status e"
      using Blog_findById_Some [OF f] assms by auto
    from Blog_save_same [OF s assms this]
    show ?thesis using f Inr p by (simp add: deleteBlog_def Let_def)
  qed
qed

lemma restoreBlog_same:
  assumes "map_of (blogs st) i = Some e"
  shows "\<exists>e'. map_of (blogs (snd (restoreBlog env req st))) i = Some e' \<and> publishedAt e' = publishedAt e \<and> status e' = status e"
proof (cases "Blog_findById True (blogs st) (params_id req)")
  case None
  with assms show ?thesis by (simp add: restoreBlog_def)
next
  case (Some e0)
  note f = this
  show ?thesis
  proof (cases "isDeleted e0")
    case False
    with assms f show ?thesis by (simp add: restoreBlog_def)
  next
    case True
    note d = this
    show ?thesis
    proof (cases "blog_restore env (blogs st) (params_id req) e0")
      case (Inl err)
      with assms f d show ?thesis by (simp add: restoreBlog_def)
    next
      case (Inr p)
      obtain e1 evs where p: "p = (e1, evs)" by (cases p)
      note s = Inr [unfolded p blog_restore_def]
      have "i = params_id req \<longrightarrow> publishedAt (e0\<lparr>isDeleted := False, deletedAt := None\<rparr>) = publishedAt e \<and> status (e0\<lparr>isDeleted := False, deletedAt := None\<rparr>) = status e
          \<and> status e0 = status e"
        using Blog_findById_Some [OF f] assms by auto
      from Blog_save_same [OF s assms this]
      show ?thesis using f d Inr p by (simp add: restoreBlog_def Let_def)
    qed
  qed
qed

lemma getEvent_same:
  assumes "map_of (events st) k = Some e"
  shows "\<exists>e'. map_of (events (snd (getEvent env role i st))) k = Some e' \<and> publishedAt e' = publishedAt e \<and> status e' = status e"
proof (cases "Event_findById False (events st) i")
  case None
  with assms show ?thesis by (simp add: getEvent_def)
next
  case (Some e0)
  note f = this
  show ?thesis
  proof (cases "Event_save env (events st) i e0 (e0\<lparr>views := views e0 + 1\<rparr>)")
    case (Inl err)
    with assms f show ?thesis by (simp add: getEvent_def)
  next
    case (Inr p)
    obtain e1 evs where p: "p = (e1, evs)" by (cases p)
    note s = Inr [unfolded p]
    have "k = i \<longrightarrow> publishedAt (e0\<lparr>views := views e0 + 1\<rparr>) = publishedAt e \<and> status (e0\<lparr>views := views e0 + 1\<rparr>) = status e
          \<and> status e0 = status e"
      using Event_findById_Some [OF f] assms by auto
    from Event_save_same [OF s assms this]
    show ?thesis using f Inr p assms by (simp add: getEvent_def Let_def)
  qed
qed

lemma getBlog_same:
  assumes "map_of (blogs st) k = Some e"
  shows "\<exists>e'. map_of (blogs (snd (getBlog env role i st))) k = Some e' \<and> publishedAt e' = publishedAt e \<and> status e' = status e"
proof (cases "Blog_findById False (blogs st) i")
  case None
  with assms show ?thesis by (simp add: getBlog_def)
next
  case (Some e0)
  note f = this
  show ?thesis
  proof (cases "Blog_save env (blogs st) i e0 (e0\<lparr>views := views e0 + 1\<rparr>)")
    case (Inl err)
    with assms f show ?thesis by (simp add: getBlog_def)
  next
    case (Inr p)
    obtain e1 evs where p: "p = (e1, evs)" by (cases p)
    note s = Inr [unfolded p]
    have "k = i \<longrightarrow> publishedAt (e0\<lparr>views := views e0 + 1\<rparr>) = publishedAt e \<and> status (e0\<lparr>views := views e0 + 1\<rparr>) = status e
          \<and> status e0 = status e"
      using Blog_findById_Some [OF f] assms by auto
    from Blog_save_same [OF s assms this]
    show ?thesis using f Inr p assms by (simp add: getBlog_def Let_def)
  qed
qed

lemma getEventBySlug_same:
  assumes "map_of (events st) k = Some e" "distinct (map fst (events st))"
  shows "\<exists>e'. map_of (events (snd (getEventBySlug env s st))) k = Some e' \<and> publishedAt e' = publishedAt e \<and> status e' = status e"
proof (cases "Event_findOne_published (events st) s")
  case None
  with assms show ?thesis by (simp add: getEventBySlug_def)
next
  case (Some q)
  obtain i e0 where q: "q = (i, e0)" by (cases q)
  note f = Some [unfolded q]
  have m: "map_of (events st) i = Some e0"
    using f assms(2) by (simp add: Event_findOne_published_def find_distinct_map_of)
  show ?thesis
  proof (cases "Event_save env (events st) i e0 (e0\<lparr>views := views e0 + 1\<rparr>)")
    case (Inl err)
    with assms f show ?thesis by (simp add: getEventBySlug_def)
  next
    case (Inr p)
    obtain e1 evs where p: "p = (e1, evs)" by (cases p)
    note s = Inr [unfolded p]
    have "k = i \<longrightarrow> publishedAt (e0\<lparr>views := views e0 + 1\<rparr>) = publishedAt e \<and> status (e0\<lparr>views := views e0 + 1\<rparr>) = status e
          \<and> status e0 = status e"
      using m assms(1) by auto
    from Event_save_same [OF s assms(1) this]
    show ?thesis using f Inr p assms by (simp add: getEventBySlug_def Let_def)
  qed
qed

lemma getBlogBySlug_same:
  assumes "map_of (blogs st) k = Some e" "distinct (map fst (blogs st))"
  shows "\<exists>e'. map_of (blogs (snd (getBlogBySlug env s st))) k = Some e' \<and> publishedAt e' = publishedAt e \<and> status e' = status e"
proof (cases "Blog_findOne_published (blogs st) s")
  case None
  with assms show ?thesis by (simp add: getBlogBySlug_def)
next
  case (Some q)
  obtain i e0 where q: "q = (i, e0)" by (cases q)
  note f = Some [unfolded q]
  have m: "map_of (blogs st) i = Some e0"
    using f assms(2) by (simp add: Blog_findOne_published_def find_distinct_map_of)
  show ?thesis
  proof (cases "Blog_save env (blogs st) i e0 (e0\<lparr>views := views e0 + 1\<rparr>)")
    case (Inl err)
    with assms f show ?thesis by (simp add: getBlogBySlug_def)
  next
    case (Inr p)
    obtain e1 evs where p: "p = (e1, evs)" by (cases p)
    note s = Inr [unfolded p]
    have "k = i \<longrightarrow> publishedAt (e0\<lparr>views := views e0 + 1\<rparr>) = publishedAt e \<and> status (e0\<lparr>views := views e0 + 1\<rparr>) = status e
          \<and> status e0 = status e"
      using m assms(1) by auto
    from Blog_save_same [OF s assms(1) this]
    show ?thesis using f Inr p assms by (simp add: getBlogBySlug_def Let_def)
  qed
qed

lemma perform_event_stamp_step:
  assumes "map_of (events st) i = Some e" "distinct (map fst (events st))"
  shows "\<exists>e'. map_of (events (perform c st)) i = Some e'
           \<and> (publishedAt e' = publishedAt e
               \<or> publishedAt e = None \<and> status e \<noteq> ''published'' \<and> status e' = ''published''
                 \<and> (\<exists>env req. c = PatchEvent env req \<and> params_id req = i
                       \<and> publishedAt e' = Some (now env)))"
proof (cases c)
  case (PostEvent env req)
  with route_post_events_keeps [OF assms(1), of env req] show ?thesis by simp
next
  case (PatchEvent env req)
  obtain res st' where r: "route_patch_events env req st = (res, st')"
    by (cases "route_patch_events env req st")
  show ?thesis
  proof (cases "i = params_id req")
    case True
    with route_patch_events_frame(1) [OF r, of e] assms(1) PatchEvent show ?thesis
      by (auto simp: r)
  next
    case False
    with route_patch_events_others [OF r, of i] assms(1) PatchEvent show ?thesis
      by (simp add: r)
  qed
next
  case (DeleteEvent env req)
  with deleteEvent_same [OF assms(1), of env req] show ?thesis by auto
next
  case (RestoreEvent env req)
  with restoreEvent_same [OF assms(1), of env req] show ?thesis by auto
next
  case (GetEvent env role k)
  with getEvent_same [OF assms(1), of env role k] show ?thesis by auto
next
  case (GetEventBySlug env s)
  with getEventBySlug_same [OF assms, of env s] show ?thesis by auto
qed (use assms in \<open>simp_all add: blog_handlers_events get_handlers_other\<close>)

lemma perform_blog_stamp_step:
  assumes "map_of (blogs st) i = Some e" "distinct (map fst (blogs st))"
  shows "\<exists>e'. map_of (blogs (perform c st)) i = Some e'
           \<and> (publishedAt e' = publishedAt e
               \<or> publishedAt e = None \<and> status e \<noteq> ''published'' \<and> status e' = ''published''
                 \<and> (\<exists>env req. c = PatchBlog env req \<and> params_id req = i
                       \<and> publishedAt e' = Some (now env)))"
proof (cases c)
  case (PostBlog env req)
  with route_post_blogs_keeps [OF assms(1), of env req] show ?thesis by simp
next
  case (PatchBlog env req)
  obtain res st' where r: "route_patch_blogs env req st = (res, st')"
    by (cases "route_patch_blogs env req st")
  show ?thesis
  proof (cases "i = params_id req")
    case True
    with route_patch_blogs_frame(1) [OF r, of e] assms(1) PatchBlog show ?thesis
      by (auto simp: r)
  next
    case False
    with route_patch_blogs_others [OF r, of i] assms(1) PatchBlog show ?thesis
      by (simp add: r)
  qed
next
  case (DeleteBlog env req)
  with deleteBlog_same [OF assms(1), of env req] show ?thesis by auto
next
  case (RestoreBlog env req)
  with restoreBlog_same [OF assms(1), of env req] show ?thesis by auto
next
  case (GetBlog env role k)
  with getBlog_same [OF assms(1), of env role k] show ?thesis by auto
next
  case (GetBlogBySlug env s)
  with getBlogBySlug_same [OF assms, of env s] show ?thesis by auto
qed (use assms in \<open>simp_all add: event_handlers_blogs get_handlers_other\<close>)

lemma route_patch_events_stamp_any:
  assumes run: "route_patch_events env req st = (res, st')"
      and old: "map_of (events st) (params_id req) = Some e0"
      and new: "map_of (events st') (params_id req) = Some e1"
  shows "publishedAt e1 = (if publishedAt e0 = None \<and> status e1 = ''published'' \<and> status e0 \<noteq> ''published''
                           then Some (now env) else publishedAt e0)"
proof (cases res)
  case (Inl err)
  with route_patch_events_errors [of env req st err st'] run have "st' = st" by simp
  with old new show ?thesis by auto
next
  case (Inr r)
  with route_patch_events_stamp [of env req st r st' e0 e1] run old new show ?thesis by simp
qed

lemma route_patch_blogs_stamp_any:
  assumes run: "route_patch_blogs env req st = (res, st')"
      and old: "map_of (blogs st) (params_id req) = Some e0"
      and new: "map_of (blogs st') (params_id req) = Some e1"
  shows "publishedAt e1 = (if publishedAt e0 = None \<and> status e1 = ''published'' \<and> status e0 \<noteq> ''published''
                           then Some (now env) else publishedAt e0)"
proof (cases res)
  case (Inl err)
  with route_patch_blogs_errors [of env req st err st'] run have "st' = st" by simp
  with old new show ?thesis by auto
next
  case (Inr r)
  with route_patch_blogs_stamp [of env req st r st' e0 e1] run old new show ?thesis by simp
qed

text \<open>
  C8. The publication date of an event (of a blog) is written at the first transition to
  \<^verbatim>\<open>published\<close> and at no other time.

  \<^item> One call of any route that writes (create, update, soft delete, restore, the two reads
    that count views, media delete) leaves the \<^verbatim>\<open>publishedAt\<close> of a stored document
    as it was, with one exception: an update of that document whose status was not
    \<^verbatim>\<open>published\<close> and now is, while \<^verbatim>\<open>publishedAt\<close> was unset, sets it to the time of
    the request.
  \<^item> An update, whatever its outcome, leaves \<^verbatim>\<open>publishedAt\<close> equal to the time of the
    request when it was unset and the status changes to \<^verbatim>\<open>published\<close>, and as it was
    in every other case.
  \<^item> Once a stored document has a publication date, it has the same date after any
    sequence of such calls, whatever their statuses, arguments and outcomes.
  \<^item> A successful create stores the time of the request for a document created as
    published and no date otherwise.

  The collections are keyed by \<^verbatim>\<open>_id\<close>, so their ids are distinct.
\<close>

theorem publishedAt_set_once:
  "(distinct (map fst (events st)) \<and> map_of (events st) i = Some e \<longrightarrow>
      (\<exists>e'. map_of (events (perform c st)) i = Some e'
          \<and> (publishedAt e' = publishedAt e
              \<or> publishedAt e = None \<and> status e \<noteq> ''published'' \<and> status e' = ''published''
                \<and> (\<exists>env req. c = PatchEvent env req \<and> params_id req = i
                      \<and> publishedAt e' = Some (now env)))))
   \<and> (distinct (map fst (blogs st)) \<and> map_of (blogs st) i = Some b \<longrightarrow>
      (\<exists>b'. map_of (blogs (perform c st)) i = Some b'
          \<and> (publishedAt b' = publishedAt b
              \<or> publishedAt b = None \<and> status b \<noteq> ''published'' \<and> status b' = ''published''
                \<and> (\<exists>env req. c = PatchBlog env req \<and> params_id req = i
                      \<and> publishedAt b' = Some (now env)))))
   \<and> (route_patch_events env req st = (res, st') \<and> map_of (events st) (params_id req) = Some e0
        \<and> map_of (events st') (params_id req) = Some e1 \<longrightarrow>
      publishedAt e1 = (if publishedAt e0 = None \<and> status e1 = ''published'' \<and> status e0 \<noteq> ''published''
                        then Some (now env) else publishedAt e0))
   \<and> (route_patch_blogs env req st = (res, st') \<and> map_of (blogs st) (params_id req) = Some b0
        \<and> map_of (blogs st') (params_id req) = Some b1 \<longrightarrow>
      publishedAt b1 = (if publishedAt b0 = None \<and> status b1 = ''published'' \<and> status b0 \<noteq> ''published''
                        then Some (now env) else publishedAt b0))
   \<and> (distinct (map fst (events st)) \<and> map_of (events st) i = Some e \<and> publishedAt e = Some t \<longrightarrow>
      (\<exists>e'. map_of (events (run cs st)) i = Some e' \<and> publishedAt e' = Some t))
   \<and> (distinct (map fst (blogs st)) \<and> map_of (blogs st) i = Some b \<and> publishedAt b = Some t \<longrightarrow>
      (\<exists>b'. map_of (blogs (run cs st)) i = Some b' \<and> publishedAt b' = Some t))
   \<and> (route_post_events env req st = (Inr r, st') \<longrightarrow>
      (\<exists>e. map_of (events st') (newId env) = Some e
          \<and> publishedAt e = (if status e = ''published'' then Some (now env) else None)))
   \<and> (route_post_blogs env req st = (Inr r, st') \<longrightarrow>
      (\<exists>b. map_of (blogs st') (newId env) = Some b
          \<and> publishedAt b = (if status b = ''published'' then Some (now env) else None)))"
proof (intro conjI impI)
  assume "distinct (map fst (events st)) \<and> map_of (events st) i = Some e"
  then show "\<exists>e'. map_of (events (perform c st)) i = Some e'
          \<and> (publishedAt e' = publishedAt e
              \<or> publishedAt e = None \<and> status e \<noteq> ''published'' \<and> status e' = ''published''
                \<and> (\<exists>env req. c = PatchEvent env req \<and> params_id req = i
                      \<and> publishedAt e' = Some (now env)))"
    using perform_event_stamp_step [of st i e c] by blast
next
  assume "distinct (map fst (blogs st)) \<and> map_of (blogs st) i = Some b"
  then show "\<exists>b'. map_of (blogs (perform c st)) i = Some b'
          \<and> (publishedAt b' = publishedAt b
              \<or> publishedAt b = None \<and> status b \<noteq> ''published'' \<and> status b' = ''published''
                \<and> (\<exists>env req. c = PatchBlog env req \<and> params_id req = i
                      \<and> publishedAt b' = Some (now env)))"
    using perform_blog_stamp_step [of st i b c] by blast
next
  assume "route_patch_events env req st = (res, st') \<and> map_of (events st) (params_id req) = Some e0
        \<and> map_of (events st') (params_id req) = Some e1"
  then show "publishedAt e1 = (if publishedAt e0 = None \<and> status e1 = ''published'' \<and> status e0 \<noteq> ''published''
                        then Some (now env) else publishedAt e0)"
    using route_patch_events_stamp_any [of env req st res st' e0 e1] by blast
next
  assume "route_patch_blogs env req st = (res, st') \<and> map_of (blogs st) (params_id req) = Some b0
        \<and> map_of (blogs st') (params_id req) = Some b1"
  then show "publishedAt b1 = (if publishedAt b0 = None \<and> status b1 = ''published'' \<and> status b0 \<noteq> ''published''
                        then Some (now env) else publishedAt b0)"
    using route_patch_blogs_stamp_any [of env req st res st' b0 b1] by blast
next
  assume "distinct (map fst (events st)) \<and> map_of (events st) i = Some e \<and> publishedAt e = Some t"
  then show "\<exists>e'. map_of (events (run cs st)) i = Some e' \<and> publishedAt e' = Some t"
    using run_keeps_event_stamp [of st i e t cs] by blast
next
  assume "distinct (map fst (blogs st)) \<and> map_of (blogs st) i = Some b \<and> publishedAt b = Some t"
  then show "\<exists>b'. map_of (blogs (run cs st)) i = Some b' \<and> publishedAt b' = Some t"
    using run_keeps_blog_stamp [of st i b t cs] by blast
next
  assume "route_post_events env req st = (Inr r, st')"
  then show "\<exists>e. map_of (events st') (newId env) = Some e
          \<and> publishedAt e = (if status e = ''published'' then Some (now env) else None)"
    by (rule route_post_events_stamp)
next
  assume "route_post_blogs env req st = (Inr r, st')"
  then show "\<exists>b. map_of (blogs st') (newId env) = Some b
          \<and> publishedAt b = (if status b = ''published'' then Some (now env) else None)"
    by (rule route_post_blogs_stamp)
qed

text \<open>
  On the sample state: the first publication of the event and of the blog at time 1000 is
  stamped; a read of the published document keeps the stamp, and a soft delete of the draft
  leaves it unset; the stamp is there after the document was read, set back to draft,
  published again at 3000 and archived; an event and a blog created as published at 1000
  carry that date.
\<close>

theorem publishedAt_set_once_witness:
  "(\<exists>e'. map_of (events (perform (GetEvent (sample_env 1500 idB) None idE)
        (snd (route_patch_events (sample_env 1000 idB) (status_patch idE ''published'')
               (sample_state False False))))) idE = Some e' \<and> publishedAt e' = Some 1000)
   \<and> (\<exists>e'. map_of (events (perform (DeleteEvent (sample_env 1500 idB) (status_patch idE ''draft''))
               (sample_state False False))) idE = Some e' \<and> publishedAt e' = None)
   \<and> (\<exists>b'. map_of (blogs (perform (GetBlog (sample_env 1500 idB) None idF)
        (snd (route_patch_blogs (sample_env 1000 idB) (status_patch idF ''published'')
               (sample_state False False))))) idF = Some b' \<and> publishedAt b' = Some 1000)
   \<and> (\<exists>b'. map_of (blogs (perform (DeleteBlog (sample_env 1500 idB) (status_patch idF ''draft''))
               (sample_state False False))) idF = Some b' \<and> publishedAt b' = None)
   \<and> map_option publishedAt (map_of (events (snd (route_patch_events (sample_env 1000 idB)
          (status_patch idE ''published'') (sample_state False False)))) idE) = Some (Some 1000)
   \<and> map_option publishedAt (map_of (blogs (snd (route_patch_blogs (sample_env 1000 idB)
          (status_patch idF ''published'') (sample_state False False)))) idF) = Some (Some 1000)
   \<and> (\<exists>e'. map_of (events (run [GetEvent (sample_env 1500 idB) None idE,
                               PatchEvent (sample_env 2000 idB) (status_patch idE ''draft''),
                               PatchEvent (sample_env 3000 idB) (status_patch idE ''published''),
                               PatchEvent (sample_env 4000 idB) (status_patch idE ''archived'')]
        (snd (route_patch_events (sample_env 1000 idB) (status_patch idE ''published'')
               (sample_state False False))))) idE = Some e' \<and> publishedAt e' = Some 1000)
   \<and> (\<exists>b'. map_of (blogs (run [GetBlog (sample_env 1500 idB) None idF,
                               PatchBlog (sample_env 2000 idB) (status_patch idF ''draft''),
                               PatchBlog (sample_env 3000 idB) (status_patch idF ''published''),
                               PatchBlog (sample_env 4000 idB) (status_patch idF ''archived'')]
        (snd (route_patch_blogs (sample_env 1000 idB) (status_patch idF ''published'')
               (sample_state False False))))) idF = Some b' \<and> publishedAt b' = Some 1000)
   \<and> (\<exists>e. map_of (events (snd (route_post_events (sample_env 1000 idE)
          (sample_event_request ''published'') sample_empty))) idE = Some e
        \<and> status e = ''published'' \<and> publishedAt e = Some 1000)
   \<and> (\<exists>b. map_of (blogs (snd (route_post_blogs (sample_env 1000 idF)
          (sample_blog_request ''published'') sample_empty))) idF = Some b
        \<and> status b = ''published'' \<and> publishedAt b = Some 1000)"
proof -
  let ?env = "sample_env 1000 idB"
  let ?st = "sample_state False False"
  let ?e0 = "sample_event (Some idA) [idG] False"
  let ?b0 = "sample_blog (Some idA) [idG] None False"
  let ?e1 = "?e0\<lparr>status := ''published'', publishedAt := Some 1000\<rparr>"
  let ?b1 = "?b0\<lparr>status := ''published'', publishedAt := Some 1000\<rparr>"
  let ?stE = "?st\<lparr>events := [(idE, ?e1)]\<rparr>"
  let ?stB = "?st\<lparr>blogs := [(idF, ?b1)]\<rparr>"
  let ?rE = "Response 200 ''Event updated successfully'' (Some (event_populate (sample_store False) ?e1))"
  let ?rB = "Response 200 ''Blog updated successfully'' (Some (blog_populate (sample_store False) ?b1))"
  let ?pE = "status_patch idE ''published''"
  let ?pB = "status_patch idF ''published''"
  let ?gE = "GetEvent (sample_env 1500 idB) None idE"
  let ?gB = "GetBlog (sample_env 1500 idB) None idF"
  let ?dE = "DeleteEvent (sample_env 1500 idB) (status_patch idE ''draft'')"
  let ?dB = "DeleteBlog (sample_env 1500 idB) (status_patch idF ''draft'')"
  let ?csE = "[GetEvent (sample_env 1500 idB) None idE,
               PatchEvent (sample_env 2000 idB) (status_patch idE ''draft''),
               PatchEvent (sample_env 3000 idB) (status_patch idE ''published''),
               PatchEvent (sample_env 4000 idB) (status_patch idE ''archived'')]"
  let ?csB = "[GetBlog (sample_env 1500 idB) None idF,
               PatchBlog (sample_env 2000 idB) (status_patch idF ''draft''),
               PatchBlog (sample_env 3000 idB) (status_patch idF ''published''),
               PatchBlog (sample_env 4000 idB) (status_patch idF ''archived'')]"
  let ?cE = "route_post_events (sample_env 1000 idE) (sample_event_request ''published'') sample_empty"
  let ?cB = "route_post_blogs (sample_env 1000 idF) (sample_blog_request ''published'') sample_empty"
  have pE: "route_patch_events ?env ?pE ?st = (Inr ?rE, ?stE)"
    by (rule patch_publish_event_sample)
  have pB: "route_patch_blogs ?env ?pB ?st = (Inr ?rB, ?stB)"
    by (rule patch_publish_blog_sample)
  have a1: "distinct (map fst (events ?stE)) \<and> map_of (events ?stE) idE = Some ?e1"
    by simp
  have a2: "distinct (map fst (events ?st)) \<and> map_of (events ?st) idE = Some ?e0"
    by (simp add: sample_state_def)
  have a3: "distinct (map fst (blogs ?stB)) \<and> map_of (blogs ?stB) idF = Some ?b1"
    by simp
  have a4: "distinct (map fst (blogs ?st)) \<and> map_of (blogs ?st) idF = Some ?b0"
    by (simp add: sample_state_def)
  have h1: "distinct (map fst (events ?stE)) \<and> map_of (events ?stE) idE = Some ?e1
            \<and> publishedAt ?e1 = Some 1000"
    by simp
  have h2: "distinct (map fst (blogs ?stB)) \<and> map_of (blogs ?stB) idF = Some ?b1
            \<and> publishedAt ?b1 = Some 1000"
    by simp
  have h3: "route_patch_events ?env ?pE ?st = (Inr ?rE, ?stE)
            \<and> map_of (events ?st) (params_id ?pE) = Some ?e0
            \<and> map_of (events ?stE) (params_id ?pE) = Some ?e1"
    using pE by (simp add: sample_state_def status_patch_def)
  have h4: "route_patch_blogs ?env ?pB ?st = (Inr ?rB, ?stB)
            \<and> map_of (blogs ?st) (params_id ?pB) = Some ?b0
            \<and> map_of (blogs ?stB) (params_id ?pB) = Some ?b1"
    using pB by (simp add: sample_state_def status_patch_def)
  from route_post_events_sample(2) obtain rE where cE: "?cE = (Inr rE, snd ?cE)"
    by (cases "fst ?cE") (simp_all add: prod_eq_iff)
  from route_post_blogs_sample(2) obtain rB where cB: "?cB = (Inr rB, snd ?cB)"
    by (cases "fst ?cB") (simp_all add: prod_eq_iff)
  note A1 = publishedAt_set_once [where st = ?stE and i = idE and e = ?e1 and c = ?gE,
      THEN conjunct1, THEN mp, OF a1]
  note A2 = publishedAt_set_once [where st = ?st and i = idE and e = ?e0 and c = ?dE,
      THEN conjunct1, THEN mp, OF a2]
  note B1 = publishedAt_set_once [where st = ?stB and i = idF and b = ?b1 and c = ?gB,
      THEN conjunct2, THEN conjunct1, THEN mp, OF a3]
  note B2 = publishedAt_set_once [where st = ?st and i = idF and b = ?b0 and c = ?dB,
      THEN conjunct2, THEN conjunct1, THEN mp, OF a4]
  note T3 = publishedAt_set_once [where st = ?st and env = ?env and req = ?pE and res = "Inr ?rE"
        and st' = ?stE and ?e0.0 = ?e0 and ?e1.0 = ?e1,
      THEN conjunct2, THEN conjunct2, THEN conjunct1, THEN mp, OF h3]
  note T4 = publishedAt_set_once [where st = ?st and env = ?env and req = ?pB and res = "Inr ?rB"
        and st' = ?stB and ?b0.0 = ?b0 and ?b1.0 = ?b1,
      THEN conjunct2, THEN conjunct2, THEN conjunct2, THEN conjunct1, THEN mp, OF h4]
  note T5 = publishedAt_set_once [where st = ?stE and i = idE and e = ?e1 and t = 1000 and cs = ?csE,
      THEN conjunct2, THEN conjunct2, THEN conjunct2, THEN conjunct2, THEN conjunct1, THEN mp, OF h1]
  note T6 = publishedAt_set_once [where st = ?stB and i = idF and b = ?b1 and t = 1000 and cs = ?csB,
      THEN conjunct2, THEN conjunct2, THEN conjunct2, THEN conjunct2, THEN conjunct2,
      THEN conjunct1, THEN mp, OF h2]
  note T7 = publishedAt_set_once [where st = sample_empty and env = "sample_env 1000 idE"
        and req = "sample_event_request ''published''" and r = rE and st' = "snd ?cE",
      THEN conjunct2, THEN conjunct2, THEN conjunct2, THEN conjunct2, THEN conjunct2,
      THEN conjunct2, THEN conjunct1, THEN mp, OF cE]
  note T8 = publishedAt_set_once [where st = sample_empty and env = "sample_env 1000 idF"
        and req = "sample_blog_request ''published''" and r = rB and st' = "snd ?cB",
      THEN conjunct2, THEN conjunct2, THEN conjunct2, THEN conjunct2, THEN conjunct2,
      THEN conjunct2, THEN conjunct2, THEN mp, OF cB]
  have w1: "\<exists>e'. map_of (events (perform ?gE (snd (route_patch_events ?env ?pE ?st)))) idE = Some e'
              \<and> publishedAt e' = Some 1000"
    using A1 by (auto simp: pE)
  have w2: "\<exists>e'. map_of (events (perform ?dE ?st)) idE = Some e' \<and> publishedAt e' = None"
    using A2 by (auto simp: sample_event_def)
  have w3: "\<exists>b'. map_of (blogs (perform ?gB (snd (route_patch_blogs ?env ?pB ?st)))) idF = Some b'
              \<and> publishedAt b' = Some 1000"
    using B1 by (auto simp: pB)
  have w4: "\<exists>b'. map_of (blogs (perform ?dB ?st)) idF = Some b' \<and> publishedAt b' = None"
    using B2 by (auto simp: sample_blog_def)
  have c3: "map_option publishedAt (map_of (events (snd (route_patch_events ?env ?pE ?st))) idE)
              = Some (Some 1000)"
    using T3 by (simp add: pE)
  have c4: "map_option publishedAt (map_of (blogs (snd (route_patch_blogs ?env ?pB ?st))) idF)
              = Some (Some 1000)"
    using T4 by (simp add: pB)
  have c1: "\<exists>e'. map_of (events (run ?csE (snd (route_patch_events ?env ?pE ?st)))) idE
               = Some e' \<and> publishedAt e' = Some 1000"
    using T5 by (simp only: pE snd_conv)
  have c2: "\<exists>b'. map_of (blogs (run ?csB (snd (route_patch_blogs ?env ?pB ?st)))) idF
               = Some b' \<and> publishedAt b' = Some 1000"
    using T6 by (simp only: pB snd_conv)
  from T7 obtain e where e: "map_of (events (snd ?cE)) (newId (sample_env 1000 idE)) = Some e"
      "publishedAt e = (if status e = ''published'' then Some (now (sample_env 1000 idE)) else None)"
    by blast
  from e(1) have e': "map_of (events (snd ?cE)) idE = Some e"
    by (simp add: sample_env_def)
  with route_post_events_sample(1) have "status e = ''published''"
    by simp
  with e(2) have "publishedAt e = Some 1000"
    by (simp add: sample_env_def)
  with e' \<open>status e = ''published''\<close>
  have c5: "\<exists>e. map_of (events (snd ?cE)) idE = Some e \<and> status e = ''published'' \<and> publishedAt e = Some 1000"
    by blast
  from T8 obtain b where b: "map_of (blogs (snd ?cB)) (newId (sample_env 1000 idF)) = Some b"
      "publishedAt b = (if status b = ''published'' then Some (now (sample_env 1000 idF)) else None)"
    by blast
  from b(1) have b': "map_of (blogs (snd ?cB)) idF = Some b"
    by (simp add: sample_env_def)
  with route_post_blogs_sample(1) have "status b = ''published''"
    by simp
  with b(2) have "publishedAt b = Some 1000"
    by (simp add: sample_env_def)
  with b' \<open>status b = ''published''\<close>
  have c6: "\<exists>b. map_of (blogs (snd ?cB)) idF = Some b \<and> status b = ''published'' \<and> publishedAt b = Some 1000"
    by blast
  from w1 w2 w3 w4 c3 c4 c1 c2 c5 c6 show ?thesis
    by (intro conjI)
qed

end
